(* ===== verification/Prelude.thy ===== *)
theory Prelude
  imports Main "HOL-Library.Word" "HOL-Library.Monad_Syntax"
begin

unbundle bit_operations_syntax

text \<open>
  The prelude of the development: the names of the C integer types, the macros of
  \<^verbatim>\<open>src/common.h\<close>, the collections that the component theories fill, and the lemmas on
  words that they share.

  Conventions used everywhere.
  \<^item> A C integer of \<open>w\<close> bits is a \<open>w word\<close>; \<open>drop_bit\<close>, \<open>push_bit\<close> and
    \<open>signed_drop_bit\<close> are \<^verbatim>\<open>>>\<close> on unsigned, \<^verbatim>\<open><<\<close>, and \<^verbatim>\<open>>>\<close> on signed operands.
  \<^item> A C function that can run into undefined behaviour (an access outside an array, a
    misaligned dereference, a shift by a negative amount, a division by zero) returns
    \<open>'a option\<close> and \<open>None\<close> is that undefined behaviour. A theorem that a call equals
    \<open>Some r\<close> therefore also says that the call is free of it.
  \<^item> An out-parameter \<^verbatim>\<open>uint32_t *value\<close> is passed in and returned, because some callees
    leave it alone.
\<close>

section \<open>Types\<close>

type_synonym u8 = "8 word"
type_synonym u16 = "16 word"
type_synonym u32 = "32 word"
type_synonym u64 = "64 word"

section \<open>Collections\<close>

named_theorems hart_frame \<open>what an operation leaves alone in a hart\<close>
named_theorems emu_frame \<open>what an operation leaves alone in the emulator state\<close>
named_theorems word_facts \<open>equations between masks, shifts and arithmetic on words\<close>

section \<open>Macros of common.h\<close>

definition MASK :: "nat \<Rightarrow> u32" where
  "MASK n = NOT (push_bit n (NOT 0))"

text \<open>
  \<^verbatim>\<open>ilog2(x)\<close> is \<^verbatim>\<open>31 - __builtin_clz(x | 1)\<close>: the position of the highest set bit of
  \<open>x OR 1\<close>. The compiler builtin counts leading zeros of a non-zero argument; it is
  written here as a search from bit 31 down.
\<close>

fun top_bit_below :: "nat \<Rightarrow> u32 \<Rightarrow> nat" where
  "top_bit_below 0 x = 0"
| "top_bit_below (Suc n) x = (if bit x n then n else top_bit_below n x)"

definition builtin_clz :: "u32 \<Rightarrow> nat" where
  "builtin_clz x = 31 - top_bit_below 32 x"

definition ilog2 :: "u32 \<Rightarrow> nat" where
  "ilog2 x = 31 - builtin_clz (x OR 1)"

text \<open>\<^verbatim>\<open>__builtin_ffs\<close>: one plus the position of the lowest set bit, 0 for 0.\<close>

fun low_bit_from :: "nat \<Rightarrow> nat \<Rightarrow> u32 \<Rightarrow> nat" where
  "low_bit_from 0 k x = 0"
| "low_bit_from (Suc n) k x = (if bit x k then Suc k else low_bit_from n (Suc k) x)"

definition builtin_ffs :: "u32 \<Rightarrow> nat" where
  "builtin_ffs x = low_bit_from 32 0 x"

text \<open>
  The value of \<^verbatim>\<open>1 << n\<close> as the compiler computes it on a 32-bit \<^verbatim>\<open>int\<close>; a count that is
  not below the width is undefined.
\<close>

definition shl_1 :: "u32 \<Rightarrow> u32 option" where
  "shl_1 n = (if n < 32 then Some (push_bit (unat n) 1) else None)"

text \<open>The loop \<^verbatim>\<open>for (uint32_t i = 0; i < n; i++)\<close> over a state.\<close>

definition for_upto :: "u32 \<Rightarrow> (u32 \<Rightarrow> 's \<Rightarrow> 's) \<Rightarrow> 's \<Rightarrow> 's" where
  "for_upto n f s = fold (\<lambda>k. f (word_of_nat k)) [0..<unat n] s"

definition RANGE_CHECK :: "u32 \<Rightarrow> u32 \<Rightarrow> u32 \<Rightarrow> bool" where
  "RANGE_CHECK x minx sz = (0 \<le> sint ((x - minx) OR (minx + sz - 1 - x)))"

section \<open>Lemmas on words\<close>

lemma MASK_eq_mask [simp]: "MASK n = mask n"
  unfolding MASK_def by (rule bit_word_eqI) (auto simp: bit_simps)

lemma word_less_2p_iff_drop_bit:
  "(x :: 'a::len word) < 2 ^ n \<longleftrightarrow> drop_bit n x = 0" if "n < LENGTH('a)"
proof -
  have "uint (2 ^ n :: 'a word) = 2 ^ n"
    using that by transfer (simp add: take_bit_int_eq_self)
  then have "x < 2 ^ n \<longleftrightarrow> uint x < 2 ^ n"
    by (simp add: word_less_def)
  also have "\<dots> \<longleftrightarrow> take_bit n x = x"
    by (simp flip: mask_eq_iff add: take_bit_eq_mask)
  finally show ?thesis by (simp add: take_bit_eq_self_iff_drop_bit_eq_0)
qed

lemma word_less_2p_not_bit:
  "(x :: 'a::len word) < 2 ^ n \<Longrightarrow> n \<le> k \<Longrightarrow> \<not> bit x k"
proof (cases "n < LENGTH('a)")
  case True
  assume "x < 2 ^ n" and "n \<le> k"
  then have "\<not> bit (drop_bit n x) (k - n)"
    using True by (simp add: word_less_2p_iff_drop_bit)
  with \<open>n \<le> k\<close> show ?thesis by (simp add: bit_drop_bit_eq)
next
  case False
  assume "n \<le> k"
  with False show ?thesis by (meson bit_imp_le_length not_le order.trans)
qed

text \<open>Equality of 32-bit words, bit by bit: turns an equation between layouts into 32 ground cases.\<close>

lemma word32_eq_bits:
  fixes x y :: u32
  shows "x = y \<longleftrightarrow>
     bit x 0 = bit y 0 \<and> bit x 1 = bit y 1 \<and> bit x 2 = bit y 2 \<and> bit x 3 = bit y 3 \<and>
     bit x 4 = bit y 4 \<and> bit x 5 = bit y 5 \<and> bit x 6 = bit y 6 \<and> bit x 7 = bit y 7 \<and>
     bit x 8 = bit y 8 \<and> bit x 9 = bit y 9 \<and> bit x 10 = bit y 10 \<and> bit x 11 = bit y 11 \<and>
     bit x 12 = bit y 12 \<and> bit x 13 = bit y 13 \<and> bit x 14 = bit y 14 \<and> bit x 15 = bit y 15 \<and>
     bit x 16 = bit y 16 \<and> bit x 17 = bit y 17 \<and> bit x 18 = bit y 18 \<and> bit x 19 = bit y 19 \<and>
     bit x 20 = bit y 20 \<and> bit x 21 = bit y 21 \<and> bit x 22 = bit y 22 \<and> bit x 23 = bit y 23 \<and>
     bit x 24 = bit y 24 \<and> bit x 25 = bit y 25 \<and> bit x 26 = bit y 26 \<and> bit x 27 = bit y 27 \<and>
     bit x 28 = bit y 28 \<and> bit x 29 = bit y 29 \<and> bit x 30 = bit y 30 \<and> bit x 31 = bit y 31"
  (is "_ = ?bits")
proof
  assume bits: ?bits
  have "\<forall>n<32. bit x n = bit y n"
    using bits by (simp add: All_less_Suc numeral_eq_Suc)
  then show "x = y" by (auto intro!: bit_word_eqI)
qed simp

lemma bit_less_2p: "(x :: 'a::len word) < 2 ^ n \<Longrightarrow> bit x k \<Longrightarrow> k < n"
  using word_less_2p_not_bit [of x n k] by (meson not_le)

lemma take_bit_less_2p: "n < LENGTH('a) \<Longrightarrow> take_bit n (a :: 'a::len word) < 2 ^ n"
  by (subst word_less_2p_iff_drop_bit) (simp_all add: drop_bit_take_bit)

lemma and_mask_less_2p: "n < LENGTH('a) \<Longrightarrow> (a :: 'a::len word) AND mask n < 2 ^ n"
  using take_bit_less_2p [of n a] by (simp add: take_bit_eq_mask)

subsection \<open>An address as a frame and an offset\<close>

text \<open>
  An address is split at bit \<open>n\<close> into \<open>drop_bit n a\<close> (a page number, a word index, a cache
  tag) and \<open>a AND mask n\<close> (the offset), and put together with \<open>push_bit n\<close> and \<open>OR\<close>.
\<close>

lemma frame_offset_join: "push_bit n (drop_bit n a) OR (a AND mask n) = (a :: 'a::len word)"
  by (rule bit_word_eqI) (auto simp: bit_simps)

lemma frame_of_join:
  "drop_bit n (push_bit n p OR (a AND mask n)) = take_bit (LENGTH('a) - n) (p :: 'a::len word)"
  by (rule bit_word_eqI) (auto simp: bit_simps)

lemma frame_of_join_small:
  "drop_bit (LENGTH('a) - n) p = 0 \<Longrightarrow>
   drop_bit n (push_bit n p OR (a AND mask n)) = (p :: 'a::len word)"
  by (simp only: frame_of_join take_bit_eq_self_iff_drop_bit_eq_0)

lemma offset_of_join:
  "(push_bit n p OR (a AND mask n)) AND mask n = (a :: 'a::len word) AND mask n"
  by (rule bit_word_eqI) (auto simp: bit_simps)

lemma not_mask_add_mask: "(a AND NOT (mask n)) + (a AND mask n) = (a :: 'a::len word)"
  by (subst disjunctive_add_eq_or) (auto intro!: bit_word_eqI simp: bit_simps)

lemma not_mask_eq_push_drop: "a AND NOT (mask n) = push_bit n (drop_bit n (a :: 'a::len word))"
  by (rule bit_word_eqI) (auto simp: bit_simps)

lemma frame_add_small:
  fixes a k :: "'a::len word"
  assumes "unat (a AND mask n) + unat k < 2 ^ n" and n: "n < LENGTH('a)"
  shows "drop_bit n (a + k) = drop_bit n a" and "(a + k) AND mask n = (a AND mask n) + k"
proof -
  define l where "l = (a AND mask n) + k"
  have "unat l \<le> unat (a AND mask n) + unat k"
    unfolding l_def by (simp add: unat_word_ariths)
  moreover have "unat (2 ^ n :: 'a word) = 2 ^ n"
    using n by transfer (simp add: take_bit_int_eq_self nat_power_eq)
  ultimately have "unat l < unat (2 ^ n :: 'a word)" using assms by linarith
  then have l: "l < 2 ^ n" by (simp add: word_less_nat_alt)
  have "a + k = (a AND NOT (mask n)) + l"
    unfolding l_def using not_mask_add_mask [of a n] by (metis add.assoc)
  also have "\<dots> = (a AND NOT (mask n)) OR l"
    by (rule disjunctive_add_eq_or) (auto intro!: bit_word_eqI simp: bit_simps dest: bit_less_2p [OF l])
  finally have split: "a + k = (a AND NOT (mask n)) OR l" .
  show "drop_bit n (a + k) = drop_bit n a"
    unfolding split
    by (rule bit_word_eqI) (auto simp: bit_simps dest: bit_less_2p [OF l] bit_imp_le_length)
  show "(a + k) AND mask n = (a AND mask n) + k"
    unfolding split l_def [symmetric]
    by (rule bit_word_eqI) (auto simp: bit_simps dest: bit_less_2p [OF l])
qed

subsection \<open>Highest set bit\<close>

lemma top_bit_below_highest:
  assumes "\<exists>k<n. bit x k"
  shows "top_bit_below n x < n" "bit x (top_bit_below n x)"
    "\<forall>k. top_bit_below n x < k \<and> k < n \<longrightarrow> \<not> bit x k"
  using assms by (induction n) (auto simp: less_Suc_eq)

lemma ilog2_highest:
  assumes "x \<noteq> 0"
  shows "ilog2 x < 32" "bit x (ilog2 x)" "ilog2 x < k \<Longrightarrow> \<not> bit x k"
proof -
  obtain j where j: "bit x j" using assms by (auto simp: bit_eq_iff)
  then have j32: "j < 32" by (auto dest: bit_imp_le_length)
  have ex: "\<exists>k<32. bit (x OR 1) k" using j j32 by (auto simp: bit_simps)
  have log: "ilog2 x = top_bit_below 32 (x OR 1)"
    using top_bit_below_highest(1) [OF ex] by (simp add: ilog2_def builtin_clz_def)
  note top = top_bit_below_highest [OF ex, folded log]
  show "ilog2 x < 32" by (rule top)
  show "bit x (ilog2 x)"
  proof (cases "ilog2 x = 0")
    case True
    then have "\<not> 0 < j" using top(3) j j32 by (auto simp: bit_simps)
    with j True show ?thesis by simp
  next
    case False
    then show ?thesis using top(2) by (simp add: bit_simps)
  qed
  show "\<not> bit x k" if "ilog2 x < k"
    using top(3) that bit_imp_le_length [of x k] by (auto simp: bit_simps)
qed

subsection \<open>Loops over an array\<close>

lemma unat_index: "n < 2 ^ 32 \<Longrightarrow> unat (word_of_nat n :: u32) = n"
  by (simp add: unat_of_nat)

lemma fold_pointwise:
  fixes a :: "u32 \<Rightarrow> 'b"
  assumes "n \<le> 2 ^ 32"
  shows "fold (\<lambda>k a. a(word_of_nat k := f (word_of_nat k) (a (word_of_nat k)))) [0..<n] a =
     (\<lambda>i. if unat i < n then f i (a i) else a i)"
  using assms
proof (induction n)
  case 0
  then show ?case by simp
next
  case (Suc n)
  have "unat (word_of_nat n :: u32) = n" using Suc.prems by (simp add: unat_index)
  moreover have "unat i < Suc n \<longleftrightarrow> unat i < n \<or> i = word_of_nat n" for i :: u32
    using calculation by (auto simp: less_Suc_eq)
  ultimately show ?case using Suc by (auto simp: fun_eq_iff)
qed

lemma for_upto_pointwise:
  "for_upto n (\<lambda>i a. a(i := f i (a i))) a = (\<lambda>i. if i < n then f i (a i) else a i)"
proof -
  have "unat n \<le> 2 ^ 32" using unsigned_less [of n, where ?'a = nat] by simp
  then show ?thesis
    unfolding for_upto_def by (simp add: fold_pointwise word_less_nat_alt)
qed

end
