(* ===== verification/Hart.thy ===== *)
theory Hart
  imports Prelude
begin

text \<open>
  The state of a hart (\<^verbatim>\<open>struct __hart_internal\<close> of \<^verbatim>\<open>src/riscv.h\<close>), the constants of
  \<^verbatim>\<open>src/riscv_private.h\<close>, and the operations of \<^verbatim>\<open>src/riscv.c\<close> that every other part
  calls: raising an exception, naming it, and writing a register.

  Pointers. Every \<^verbatim>\<open>uint32_t *\<close> that the hart keeps points into the guest RAM array
  \<^verbatim>\<open>emu->ram\<close>; it is the index of the word it points at, in an option whose \<open>None\<close> is
  \<^verbatim>\<open>NULL\<close>. The byte pointer \<^verbatim>\<open>base\<close> of an instruction cache block is a byte offset into
  the same array. The two places where the code turns a pointer into a \<^verbatim>\<open>uintptr_t\<close> use
  64-bit host addresses; see theory \<open>Mmu\<close>. The callbacks of the struct are the functions of
  \<^verbatim>\<open>src/main.c\<close> that \<open>semu_init\<close> stores there; they are called directly.
\<close>

section \<open>Constants\<close>

abbreviation (input) RV32_OP_IMM :: u32 where "RV32_OP_IMM \<equiv> 0b0010011"
abbreviation (input) RV32_OP :: u32 where "RV32_OP \<equiv> 0b0110011"
abbreviation (input) RV32_LUI :: u32 where "RV32_LUI \<equiv> 0b0110111"
abbreviation (input) RV32_AUIPC :: u32 where "RV32_AUIPC \<equiv> 0b0010111"
abbreviation (input) RV32_JAL :: u32 where "RV32_JAL \<equiv> 0b1101111"
abbreviation (input) RV32_JALR :: u32 where "RV32_JALR \<equiv> 0b1100111"
abbreviation (input) RV32_BRANCH :: u32 where "RV32_BRANCH \<equiv> 0b1100011"
abbreviation (input) RV32_LOAD :: u32 where "RV32_LOAD \<equiv> 0b0000011"
abbreviation (input) RV32_STORE :: u32 where "RV32_STORE \<equiv> 0b0100011"
abbreviation (input) RV32_MISC_MEM :: u32 where "RV32_MISC_MEM \<equiv> 0b0001111"
abbreviation (input) RV32_SYSTEM :: u32 where "RV32_SYSTEM \<equiv> 0b1110011"
abbreviation (input) RV32_AMO :: u32 where "RV32_AMO \<equiv> 0b0101111"

abbreviation (input) RV_MEM_LB :: u8 where "RV_MEM_LB \<equiv> 0b000"
abbreviation (input) RV_MEM_LH :: u8 where "RV_MEM_LH \<equiv> 0b001"
abbreviation (input) RV_MEM_LW :: u8 where "RV_MEM_LW \<equiv> 0b010"
abbreviation (input) RV_MEM_LBU :: u8 where "RV_MEM_LBU \<equiv> 0b100"
abbreviation (input) RV_MEM_LHU :: u8 where "RV_MEM_LHU \<equiv> 0b101"
abbreviation (input) RV_MEM_SB :: u8 where "RV_MEM_SB \<equiv> 0b000"
abbreviation (input) RV_MEM_SH :: u8 where "RV_MEM_SH \<equiv> 0b001"
abbreviation (input) RV_MEM_SW :: u8 where "RV_MEM_SW \<equiv> 0b010"

abbreviation (input) RV_R_A0 :: u8 where "RV_R_A0 \<equiv> 10"
abbreviation (input) RV_R_A1 :: u8 where "RV_R_A1 \<equiv> 11"
abbreviation (input) RV_R_A2 :: u8 where "RV_R_A2 \<equiv> 12"
abbreviation (input) RV_R_A3 :: u8 where "RV_R_A3 \<equiv> 13"
abbreviation (input) RV_R_A6 :: u8 where "RV_R_A6 \<equiv> 16"
abbreviation (input) RV_R_A7 :: u8 where "RV_R_A7 \<equiv> 17"

abbreviation (input) RV_CSR_TIME :: u16 where "RV_CSR_TIME \<equiv> 0xC01"
abbreviation (input) RV_CSR_INSTRET :: u16 where "RV_CSR_INSTRET \<equiv> 0xC02"
abbreviation (input) RV_CSR_TIMEH :: u16 where "RV_CSR_TIMEH \<equiv> 0xC81"
abbreviation (input) RV_CSR_INSTRETH :: u16 where "RV_CSR_INSTRETH \<equiv> 0xC82"
abbreviation (input) RV_CSR_SSTATUS :: u16 where "RV_CSR_SSTATUS \<equiv> 0x100"
abbreviation (input) RV_CSR_SIE :: u16 where "RV_CSR_SIE \<equiv> 0x104"
abbreviation (input) RV_CSR_STVEC :: u16 where "RV_CSR_STVEC \<equiv> 0x105"
abbreviation (input) RV_CSR_SCOUNTEREN :: u16 where "RV_CSR_SCOUNTEREN \<equiv> 0x106"
abbreviation (input) RV_CSR_SSCRATCH :: u16 where "RV_CSR_SSCRATCH \<equiv> 0x140"
abbreviation (input) RV_CSR_SEPC :: u16 where "RV_CSR_SEPC \<equiv> 0x141"
abbreviation (input) RV_CSR_SCAUSE :: u16 where "RV_CSR_SCAUSE \<equiv> 0x142"
abbreviation (input) RV_CSR_STVAL :: u16 where "RV_CSR_STVAL \<equiv> 0x143"
abbreviation (input) RV_CSR_SIP :: u16 where "RV_CSR_SIP \<equiv> 0x144"
abbreviation (input) RV_CSR_SATP :: u16 where "RV_CSR_SATP \<equiv> 0x180"

abbreviation (input) RV_EXC_PC_MISALIGN :: u32 where "RV_EXC_PC_MISALIGN \<equiv> 0"
abbreviation (input) RV_EXC_FETCH_FAULT :: u32 where "RV_EXC_FETCH_FAULT \<equiv> 1"
abbreviation (input) RV_EXC_ILLEGAL_INSN :: u32 where "RV_EXC_ILLEGAL_INSN \<equiv> 2"
abbreviation (input) RV_EXC_BREAKPOINT :: u32 where "RV_EXC_BREAKPOINT \<equiv> 3"
abbreviation (input) RV_EXC_LOAD_MISALIGN :: u32 where "RV_EXC_LOAD_MISALIGN \<equiv> 4"
abbreviation (input) RV_EXC_LOAD_FAULT :: u32 where "RV_EXC_LOAD_FAULT \<equiv> 5"
abbreviation (input) RV_EXC_STORE_MISALIGN :: u32 where "RV_EXC_STORE_MISALIGN \<equiv> 6"
abbreviation (input) RV_EXC_STORE_FAULT :: u32 where "RV_EXC_STORE_FAULT \<equiv> 7"
abbreviation (input) RV_EXC_ECALL_U :: u32 where "RV_EXC_ECALL_U \<equiv> 8"
abbreviation (input) RV_EXC_ECALL_S :: u32 where "RV_EXC_ECALL_S \<equiv> 9"
abbreviation (input) RV_EXC_FETCH_PFAULT :: u32 where "RV_EXC_FETCH_PFAULT \<equiv> 12"
abbreviation (input) RV_EXC_LOAD_PFAULT :: u32 where "RV_EXC_LOAD_PFAULT \<equiv> 13"
abbreviation (input) RV_EXC_STORE_PFAULT :: u32 where "RV_EXC_STORE_PFAULT \<equiv> 15"

abbreviation (input) RV_PAGE_SHIFT :: nat where "RV_PAGE_SHIFT \<equiv> 12"
abbreviation (input) RV_PAGE_SIZE :: u32 where "RV_PAGE_SIZE \<equiv> 4096"
abbreviation (input) RV_PAGE_MASK :: u32 where "RV_PAGE_MASK \<equiv> 4095"
abbreviation (input) RV_INT_SSI_BIT :: u32 where "RV_INT_SSI_BIT \<equiv> 2"
abbreviation (input) RV_INT_STI_BIT :: u32 where "RV_INT_STI_BIT \<equiv> 32"
abbreviation (input) RV_INT_SEI_BIT :: u32 where "RV_INT_SEI_BIT \<equiv> 512"

abbreviation (input) SBI_HSM_STATE_STARTED :: u32 where "SBI_HSM_STATE_STARTED \<equiv> 0"
abbreviation (input) SBI_HSM_STATE_STOPPED :: u32 where "SBI_HSM_STATE_STOPPED \<equiv> 1"
abbreviation (input) SBI_HSM_STATE_SUSPENDED :: u32 where "SBI_HSM_STATE_SUSPENDED \<equiv> 4"

abbreviation (input) ICACHE_BLOCKS_SIZE :: u32 where "ICACHE_BLOCKS_SIZE \<equiv> 256"
abbreviation (input) ICACHE_BLOCKS :: u32 where "ICACHE_BLOCKS \<equiv> 256"
abbreviation (input) ICACHE_OFFSET_BITS :: nat where "ICACHE_OFFSET_BITS \<equiv> 8"
abbreviation (input) ICACHE_INDEX_BITS :: nat where "ICACHE_INDEX_BITS \<equiv> 8"
abbreviation (input) ICACHE_INDEX_MASK :: u32 where "ICACHE_INDEX_MASK \<equiv> 255"
abbreviation (input) ICACHE_BLOCK_MASK :: u32 where "ICACHE_BLOCK_MASK \<equiv> 255"

abbreviation (input) RAM_SIZE :: u32 where "RAM_SIZE \<equiv> 0x20000000"
abbreviation (input) RAM_WORDS :: u32 where "RAM_WORDS \<equiv> 0x08000000"

text \<open>\<^verbatim>\<open>0xFFFFFFFF\<close>, the value that marks an empty cache entry or no next fetch address.\<close>

abbreviation (input) NO_PAGE :: u32 where "NO_PAGE \<equiv> 0xFFFFFFFF"

section \<open>Data\<close>

datatype vm_error_t = ERR_NONE | ERR_EXCEPTION | ERR_USER

record mmu_fetch_cache_t =
  fc_n_pages :: u32
  fc_page_addr :: "u32 option"

record mmu_addr_cache_t =
  n_pages :: u32
  phys_ppn :: u32
  data_minus_addr :: u64

record mmu_cache_set_t =
  ways :: "u8 \<Rightarrow> mmu_addr_cache_t"
  lru :: u8

record decoded_insn_t =
  d_imm :: u32
  d_fields :: u32

record icache_block_t =
  tag :: u32
  epoch :: u32
  base :: "u32 option"
  valid :: bool

record semu_timer_t =
  tm_begin :: u64
  tm_freq :: u64

record hart_t =
  x_regs :: "u8 \<Rightarrow> u32"
  pc :: u32
  current_pc :: u32
  instret :: u64
  error :: vm_error_t
  exc_cause :: u32
  exc_val :: u32
  lr_reservation :: u32
  cache_load_last_vpn :: u32
  cache_load_last_phys_ppn :: u32
  cache_load_last_data_minus_addr :: u64
  cache_store_last_vpn :: u32
  cache_store_last_phys_ppn :: u32
  cache_store_last_data_minus_addr :: u64
  seq_fetch_block :: "u32 option" \<comment> \<open>index of the block in \<open>icache\<close>\<close>
  seq_fetch_next_pc :: u32
  icache_epoch :: u32
  ram_base :: "u32 option"
  ram_size :: u32
  ram_load_last_page :: u32
  ram_load_last_ptr :: "u32 option"
  ram_store_last_page :: u32
  ram_store_last_ptr :: "u32 option"
  sstatus_sie :: bool
  s_mode :: bool
  sie :: u32
  sip :: u32
  time :: semu_timer_t
  sstatus_spp :: bool
  sstatus_spie :: bool
  sepc :: u32
  in_wfi :: bool
  scause :: u32
  stval :: u32
  sstatus_mxr :: bool
  sstatus_sum :: bool
  stvec_addr :: u32
  stvec_vectored :: bool
  sscratch :: u32
  scounteren :: u32
  satp :: u32
  page_table :: "u32 option"
  mhartid :: u32
  hsm_status :: u32
  hsm_resume_is_ret :: bool
  hsm_resume_pc :: u32
  hsm_resume_opaque :: u32
  cache_fetch :: "u32 \<Rightarrow> mmu_fetch_cache_t"
  cache_load :: "u32 \<Rightarrow> mmu_cache_set_t"
  cache_store :: "u32 \<Rightarrow> mmu_cache_set_t"
  icache :: "u32 \<Rightarrow> icache_block_t"

text \<open>The zeroed structures that \<^verbatim>\<open>calloc\<close> returns, where every hart starts.\<close>

definition zero_set :: mmu_cache_set_t where
  "zero_set = \<lparr>ways = (\<lambda>_. \<lparr>n_pages = 0, phys_ppn = 0, data_minus_addr = 0\<rparr>), lru = 0\<rparr>"

definition zero_block :: icache_block_t where
  "zero_block = \<lparr>tag = 0, epoch = 0, base = None, valid = False\<rparr>"

definition zero_hart :: hart_t where
  "zero_hart =
     \<lparr>x_regs = (\<lambda>_. 0), pc = 0, current_pc = 0, instret = 0, error = ERR_NONE,
      exc_cause = 0, exc_val = 0, lr_reservation = 0,
      cache_load_last_vpn = 0, cache_load_last_phys_ppn = 0, cache_load_last_data_minus_addr = 0,
      cache_store_last_vpn = 0, cache_store_last_phys_ppn = 0, cache_store_last_data_minus_addr = 0,
      seq_fetch_block = None, seq_fetch_next_pc = 0, icache_epoch = 0,
      ram_base = None, ram_size = 0, ram_load_last_page = 0, ram_load_last_ptr = None,
      ram_store_last_page = 0, ram_store_last_ptr = None,
      sstatus_sie = False, s_mode = False, sie = 0, sip = 0,
      time = \<lparr>tm_begin = 0, tm_freq = 0\<rparr>,
      sstatus_spp = False, sstatus_spie = False, sepc = 0, in_wfi = False, scause = 0, stval = 0,
      sstatus_mxr = False, sstatus_sum = False, stvec_addr = 0, stvec_vectored = False,
      sscratch = 0, scounteren = 0, satp = 0, page_table = None, mhartid = 0,
      hsm_status = 0, hsm_resume_is_ret = False, hsm_resume_pc = 0, hsm_resume_opaque = 0,
      cache_fetch = (\<lambda>_. \<lparr>fc_n_pages = 0, fc_page_addr = None\<rparr>),
      cache_load = (\<lambda>_. zero_set), cache_store = (\<lambda>_. zero_set), icache = (\<lambda>_. zero_block)\<rparr>"

section \<open>Operations\<close>

fun vm_error_str :: "vm_error_t \<Rightarrow> string" where
  "vm_error_str ERR_NONE = ''NONE''"
| "vm_error_str ERR_EXCEPTION = ''EXCEPTION''"
| "vm_error_str ERR_USER = ''USER''"

text \<open>The table of \<^verbatim>\<open>vm_exc_cause_str\<close> has no entry at 10, 11 and 14: the C table holds a null pointer there.\<close>

definition vm_exc_cause_str :: "u32 \<Rightarrow> string option" where
  "vm_exc_cause_str err =
     (if err < 16 then
        (if err = 0 then Some ''Instruction address misaligned''
         else if err = 1 then Some ''Instruction access fault''
         else if err = 2 then Some ''Illegal instruction''
         else if err = 3 then Some ''Breakpoint''
         else if err = 4 then Some ''Load address misaligned''
         else if err = 5 then Some ''Load access fault''
         else if err = 6 then Some ''Store/AMO address misaligned''
         else if err = 7 then Some ''Store/AMO access fault''
         else if err = 8 then Some ''Environment call from U-mode''
         else if err = 9 then Some ''Environment call from S-mode''
         else if err = 12 then Some ''Instruction page fault''
         else if err = 13 then Some ''Load page fault''
         else if err = 15 then Some ''Store/AMO page fault''
         else None)
      else Some ''[Unknown]'')"

definition vm_set_exception :: "u32 \<Rightarrow> u32 \<Rightarrow> hart_t \<Rightarrow> hart_t" where
  "vm_set_exception cause val h = h\<lparr>error := ERR_EXCEPTION, exc_cause := cause, exc_val := val\<rparr>"

definition set_dest_idx :: "u8 \<Rightarrow> u32 \<Rightarrow> hart_t \<Rightarrow> hart_t" where
  "set_dest_idx rd x h = (if rd \<noteq> 0 then h\<lparr>x_regs := (x_regs h)(rd := x)\<rparr> else h)"

text \<open>Writing a register never writes \<open>x0\<close>, and the other registers keep their value.\<close>

lemma x_regs_set_dest_idx:
  "x_regs (set_dest_idx rd x h) r = (if r = rd \<and> rd \<noteq> 0 then x else x_regs h r)"
  by (simp add: set_dest_idx_def)

lemma x0_set_dest_idx [simp]: "x_regs (set_dest_idx rd x h) 0 = x_regs h 0"
  by (simp add: set_dest_idx_def)

lemma error_set_exception [simp]: "error (vm_set_exception c v h) = ERR_EXCEPTION"
  by (simp add: vm_set_exception_def)

lemma set_exception_twice [simp]:
  "vm_set_exception c v (vm_set_exception c' v' h) = vm_set_exception c v h"
  by (simp add: vm_set_exception_def)

section \<open>What a callee may do to a hart\<close>

text \<open>
  Devices touch a hart in two ways only: they raise an exception on it, and they drive one of
  its interrupt lines. \<open>raises\<close> is the first; \<open>irq_line\<close> the second (a pending line also ends a
  wait for interrupt).
\<close>

definition raises :: "hart_t \<Rightarrow> hart_t \<Rightarrow> bool" where
  "raises h h' \<longleftrightarrow> h' = h \<or> (\<exists>c v. h' = vm_set_exception c v h)"

definition irq_line :: "u32 \<Rightarrow> bool \<Rightarrow> hart_t \<Rightarrow> hart_t" where
  "irq_line line level h =
     (if level then h\<lparr>sip := sip h OR line, in_wfi := False\<rparr>
      else h\<lparr>sip := sip h AND NOT line\<rparr>)"

lemma raises_refl [simp, intro]: "raises h h"
  by (simp add: raises_def)

lemma raises_exception [simp, intro]: "raises h (vm_set_exception c v h)"
  by (auto simp: raises_def)

lemma raises_cases:
  assumes "raises h h'"
  obtains "h' = h" | c v where "h' = vm_set_exception c v h"
  using assms by (auto simp: raises_def)

lemma raises_trans: "raises h h' \<Longrightarrow> raises h' h'' \<Longrightarrow> raises h h''"
  by (elim raises_cases) auto

text \<open>A line leaves every other bit of \<open>sip\<close> alone, so lines on different bits commute.\<close>

lemma sip_irq_line:
  "bit (sip (irq_line line level h)) n = (if bit line n then level else bit (sip h) n)"
  by (cases "n < 32") (auto simp: irq_line_def bit_simps dest: bit_imp_le_length)

lemma sip_irq_line_2p:
  assumes "k < 32"
  shows "bit (sip (irq_line (2 ^ k) level h)) n = (if n = k then level else bit (sip h) n)"
  using assms by (auto simp: sip_irq_line bit_exp_iff)

lemma sip_SSI_line: "bit (sip (irq_line RV_INT_SSI_BIT level h)) n = (if n = 1 then level else bit (sip h) n)"
  and sip_STI_line: "bit (sip (irq_line RV_INT_STI_BIT level h)) n = (if n = 5 then level else bit (sip h) n)"
  and sip_SEI_line: "bit (sip (irq_line RV_INT_SEI_BIT level h)) n = (if n = 9 then level else bit (sip h) n)"
  using sip_irq_line_2p [of 1] sip_irq_line_2p [of 5] sip_irq_line_2p [of 9] by simp_all

lemmas sip_lines = sip_SSI_line sip_STI_line sip_SEI_line

lemma in_wfi_irq_line: "in_wfi (irq_line line level h) = (in_wfi h \<and> \<not> level)"
  by (simp add: irq_line_def)

lemma irq_line_rest:
  "irq_line line level h =
     h\<lparr>sip := sip (irq_line line level h), in_wfi := in_wfi (irq_line line level h)\<rparr>"
  by (simp add: irq_line_def)

lemma irq_line_commute:
  assumes "a AND b = 0"
  shows "irq_line a x (irq_line b y h) = irq_line b y (irq_line a x h)"
proof -
  have "\<not> (bit a n \<and> bit b n)" for n
    using assms by (metis bit_0_eq bit_and_iff bot_apply bot_bool_def)
  then have "sip (irq_line a x (irq_line b y h)) = sip (irq_line b y (irq_line a x h))"
    by (intro bit_word_eqI) (auto simp: sip_irq_line)
  moreover have "in_wfi (irq_line a x (irq_line b y h)) = in_wfi (irq_line b y (irq_line a x h))"
    by (auto simp: in_wfi_irq_line)
  ultimately show ?thesis
    by (subst irq_line_rest, subst (3) irq_line_rest) (simp add: irq_line_def)
qed

end
