(* ===== verification/Decode.thy ===== *)
theory Decode
  imports Hart
begin

text \<open>
  Instruction decoding (\<^verbatim>\<open>src/riscv.c\<close>, from the decode masks to \<^verbatim>\<open>decode_insn\<close>). The decoder of
  each immediate format is compared with the layout of the instruction formats by way of an
  encoder: decoding what the encoder lays out returns the immediate. The packed
  \<^verbatim>\<open>decoded_insn_t\<close> is shown to hold exactly the instruction it was made from.
\<close>

section \<open>Masks\<close>

abbreviation (input) FR_RD :: u32 where "FR_RD \<equiv> 0b00000000000000000000111110000000"
abbreviation (input) FR_FUNCT3 :: u32 where "FR_FUNCT3 \<equiv> 0b00000000000000000111000000000000"
abbreviation (input) FR_RS1 :: u32 where "FR_RS1 \<equiv> 0b00000000000011111000000000000000"
abbreviation (input) FR_RS2 :: u32 where "FR_RS2 \<equiv> 0b00000001111100000000000000000000"
abbreviation (input) FI_IMM_11_0 :: u32 where "FI_IMM_11_0 \<equiv> 0b11111111111100000000000000000000"
abbreviation (input) FS_IMM_4_0 :: u32 where "FS_IMM_4_0 \<equiv> 0b00000000000000000000111110000000"
abbreviation (input) FS_IMM_11_5 :: u32 where "FS_IMM_11_5 \<equiv> 0b11111110000000000000000000000000"
abbreviation (input) FB_IMM_11 :: u32 where "FB_IMM_11 \<equiv> 0b00000000000000000000000010000000"
abbreviation (input) FB_IMM_4_1 :: u32 where "FB_IMM_4_1 \<equiv> 0b00000000000000000000111100000000"
abbreviation (input) FB_IMM_10_5 :: u32 where "FB_IMM_10_5 \<equiv> 0b01111110000000000000000000000000"
abbreviation (input) FB_IMM_12 :: u32 where "FB_IMM_12 \<equiv> 0b10000000000000000000000000000000"
abbreviation (input) FU_IMM_31_12 :: u32 where "FU_IMM_31_12 \<equiv> 0b11111111111111111111000000000000"
abbreviation (input) FJ_IMM_19_12 :: u32 where "FJ_IMM_19_12 \<equiv> 0b00000000000011111111000000000000"
abbreviation (input) FJ_IMM_11 :: u32 where "FJ_IMM_11 \<equiv> 0b00000000000100000000000000000000"
abbreviation (input) FJ_IMM_10_1 :: u32 where "FJ_IMM_10_1 \<equiv> 0b01111111111000000000000000000000"
abbreviation (input) FJ_IMM_20 :: u32 where "FJ_IMM_20 \<equiv> 0b10000000000000000000000000000000"

section \<open>Decoders\<close>

definition decode_u :: "u32 \<Rightarrow> u32" where
  "decode_u insn = insn AND FU_IMM_31_12"

definition decode_i :: "u32 \<Rightarrow> u32" where
  "decode_i insn = signed_drop_bit 20 (insn AND FI_IMM_11_0)"

definition decode_j :: "u32 \<Rightarrow> u32" where
  "decode_j insn =
     (let dst = 0;
          dst = dst OR (insn AND FJ_IMM_20);
          dst = dst OR push_bit 11 (insn AND FJ_IMM_19_12);
          dst = dst OR push_bit 2 (insn AND FJ_IMM_11);
          dst = dst OR drop_bit 9 (insn AND FJ_IMM_10_1)
      in signed_drop_bit 11 dst)"

definition decode_b :: "u32 \<Rightarrow> u32" where
  "decode_b insn =
     (let dst = 0;
          dst = dst OR (insn AND FB_IMM_12);
          dst = dst OR push_bit 23 (insn AND FB_IMM_11);
          dst = dst OR drop_bit 1 (insn AND FB_IMM_10_5);
          dst = dst OR push_bit 12 (insn AND FB_IMM_4_1)
      in signed_drop_bit 19 dst)"

definition decode_s :: "u32 \<Rightarrow> u32" where
  "decode_s insn =
     (let dst = 0;
          dst = dst OR (insn AND FS_IMM_11_5);
          dst = dst OR push_bit 13 (insn AND FS_IMM_4_0)
      in signed_drop_bit 20 dst)"

definition decode_i_unsigned :: "u32 \<Rightarrow> u16" where
  "decode_i_unsigned insn = ucast (drop_bit 20 insn)"

definition decode_rd :: "u32 \<Rightarrow> u8" where
  "decode_rd insn = ucast (drop_bit 7 (insn AND FR_RD))"

definition decode_rs1 :: "u32 \<Rightarrow> u8" where
  "decode_rs1 insn = ucast (drop_bit 15 (insn AND FR_RS1))"

definition decode_rs2 :: "u32 \<Rightarrow> u8" where
  "decode_rs2 insn = ucast (drop_bit 20 (insn AND FR_RS2))"

definition decode_func3 :: "u32 \<Rightarrow> u8" where
  "decode_func3 insn = ucast (drop_bit 12 (insn AND FR_FUNCT3))"

section \<open>The packed form\<close>

abbreviation (input) DECODE_OPCODE_SHIFT :: nat where "DECODE_OPCODE_SHIFT \<equiv> 0"
abbreviation (input) DECODE_RD_SHIFT :: nat where "DECODE_RD_SHIFT \<equiv> 7"
abbreviation (input) DECODE_RS1_SHIFT :: nat where "DECODE_RS1_SHIFT \<equiv> 12"
abbreviation (input) DECODE_RS2_SHIFT :: nat where "DECODE_RS2_SHIFT \<equiv> 17"
abbreviation (input) DECODE_FUNCT3_SHIFT :: nat where "DECODE_FUNCT3_SHIFT \<equiv> 22"
abbreviation (input) DECODE_FUNCT7_SHIFT :: nat where "DECODE_FUNCT7_SHIFT \<equiv> 25"

definition decoded_opcode :: "decoded_insn_t \<Rightarrow> u8" where
  "decoded_opcode d = ucast (drop_bit DECODE_OPCODE_SHIFT (d_fields d) AND MASK 7)"

definition decoded_rd :: "decoded_insn_t \<Rightarrow> u8" where
  "decoded_rd d = ucast (drop_bit DECODE_RD_SHIFT (d_fields d) AND MASK 5)"

definition decoded_rs1 :: "decoded_insn_t \<Rightarrow> u8" where
  "decoded_rs1 d = ucast (drop_bit DECODE_RS1_SHIFT (d_fields d) AND MASK 5)"

definition decoded_rs2 :: "decoded_insn_t \<Rightarrow> u8" where
  "decoded_rs2 d = ucast (drop_bit DECODE_RS2_SHIFT (d_fields d) AND MASK 5)"

definition decoded_funct3 :: "decoded_insn_t \<Rightarrow> u8" where
  "decoded_funct3 d = ucast (drop_bit DECODE_FUNCT3_SHIFT (d_fields d) AND MASK 3)"

definition decoded_funct7 :: "decoded_insn_t \<Rightarrow> u8" where
  "decoded_funct7 d = ucast (drop_bit DECODE_FUNCT7_SHIFT (d_fields d) AND MASK 7)"

definition decoded_funct5 :: "decoded_insn_t \<Rightarrow> u8" where
  "decoded_funct5 d = drop_bit 2 (decoded_funct7 d)"

definition decode_fields :: "u32 \<Rightarrow> u32" where
  "decode_fields insn =
     push_bit DECODE_OPCODE_SHIFT (insn AND MASK 7) OR
     push_bit DECODE_RD_SHIFT (ucast (decode_rd insn)) OR
     push_bit DECODE_RS1_SHIFT (ucast (decode_rs1 insn)) OR
     push_bit DECODE_RS2_SHIFT (ucast (decode_rs2 insn)) OR
     push_bit DECODE_FUNCT3_SHIFT (ucast (decode_func3 insn)) OR
     push_bit DECODE_FUNCT7_SHIFT (drop_bit 25 insn)"

definition decode_insn :: "u32 \<Rightarrow> decoded_insn_t" where
  "decode_insn insn =
     (let d = \<lparr>d_imm = 0, d_fields = decode_fields insn\<rparr>;
          op = ucast (decoded_opcode d) :: u32
      in if op = RV32_OP_IMM \<or> op = RV32_JALR \<or> op = RV32_LOAD then d\<lparr>d_imm := decode_i insn\<rparr>
         else if op = RV32_SYSTEM then d\<lparr>d_imm := ucast (decode_i_unsigned insn)\<rparr>
         else if op = RV32_STORE then d\<lparr>d_imm := decode_s insn\<rparr>
         else if op = RV32_BRANCH then d\<lparr>d_imm := decode_b insn\<rparr>
         else if op = RV32_JAL then d\<lparr>d_imm := decode_j insn\<rparr>
         else if op = RV32_LUI \<or> op = RV32_AUIPC then d\<lparr>d_imm := decode_u insn\<rparr>
         else d\<lparr>d_imm := 0\<rparr>)"

text \<open>The instruction word that \<^verbatim>\<open>op_system\<close> puts together again from the packed form.\<close>

definition undecode_insn :: "decoded_insn_t \<Rightarrow> u32" where
  "undecode_insn d =
     push_bit 25 (ucast (decoded_funct7 d)) OR push_bit 20 (ucast (decoded_rs2 d)) OR
     push_bit 15 (ucast (decoded_rs1 d)) OR push_bit 12 (ucast (decoded_funct3 d)) OR
     push_bit 7 (ucast (decoded_rd d)) OR ucast (decoded_opcode d)"

section \<open>The instruction formats\<close>

text \<open>
  The layouts of the RV32 instruction formats, as encoders: the fields that are not the
  immediate are passed as \<open>rest\<close>, a word whose bits outside the immediate are kept.
\<close>

definition encode_i :: "u32 \<Rightarrow> u32 \<Rightarrow> u32" where
  "encode_i rest im = take_bit 20 rest OR push_bit 20 (take_bit 12 im)"

definition encode_s :: "u32 \<Rightarrow> u32 \<Rightarrow> u32" where
  "encode_s rest im =
     (rest AND NOT (FS_IMM_4_0 OR FS_IMM_11_5)) OR push_bit 7 (take_bit 5 im) OR
     push_bit 25 (take_bit 7 (drop_bit 5 im))"

definition encode_b :: "u32 \<Rightarrow> u32 \<Rightarrow> u32" where
  "encode_b rest im =
     (rest AND NOT (FS_IMM_4_0 OR FS_IMM_11_5)) OR push_bit 7 (take_bit 1 (drop_bit 11 im)) OR
     push_bit 8 (take_bit 4 (drop_bit 1 im)) OR push_bit 25 (take_bit 6 (drop_bit 5 im)) OR
     push_bit 31 (take_bit 1 (drop_bit 12 im))"

definition encode_u :: "u32 \<Rightarrow> u32 \<Rightarrow> u32" where
  "encode_u rest im = take_bit 12 rest OR push_bit 12 (drop_bit 12 im)"

definition encode_j :: "u32 \<Rightarrow> u32 \<Rightarrow> u32" where
  "encode_j rest im =
     take_bit 12 rest OR push_bit 12 (take_bit 8 (drop_bit 12 im)) OR
     push_bit 20 (take_bit 1 (drop_bit 11 im)) OR push_bit 21 (take_bit 10 (drop_bit 1 im)) OR
     push_bit 31 (take_bit 1 (drop_bit 20 im))"

section \<open>Lemmas\<close>

text \<open>The masks as shifted runs of ones, the form on which the bit simplification rules work.\<close>

lemma decode_masks [word_facts]:
  "FR_RD = push_bit 7 (mask 5)" "FR_FUNCT3 = push_bit 12 (mask 3)" "FR_RS1 = push_bit 15 (mask 5)"
  "FR_RS2 = push_bit 20 (mask 5)" "FI_IMM_11_0 = push_bit 20 (mask 12)"
  "FS_IMM_11_5 = push_bit 25 (mask 7)" "FB_IMM_11 = push_bit 7 (mask 1)"
  "FB_IMM_4_1 = push_bit 8 (mask 4)" "FB_IMM_10_5 = push_bit 25 (mask 6)"
  "FB_IMM_12 = push_bit 31 (mask 1)" "FU_IMM_31_12 = push_bit 12 (mask 20)"
  "FJ_IMM_19_12 = push_bit 12 (mask 8)" "FJ_IMM_11 = push_bit 20 (mask 1)"
  "FJ_IMM_10_1 = push_bit 21 (mask 10)"
  by (simp_all add: mask_eq_exp_minus_1)

lemma decode_rd_eq: "decode_rd insn = ucast (take_bit 5 (drop_bit 7 insn))"
  unfolding decode_rd_def decode_masks by (rule bit_word_eqI) (auto simp: bit_simps)

lemma decode_rs1_eq: "decode_rs1 insn = ucast (take_bit 5 (drop_bit 15 insn))"
  unfolding decode_rs1_def decode_masks by (rule bit_word_eqI) (auto simp: bit_simps)

lemma decode_rs2_eq: "decode_rs2 insn = ucast (take_bit 5 (drop_bit 20 insn))"
  unfolding decode_rs2_def decode_masks by (rule bit_word_eqI) (auto simp: bit_simps)

lemma decode_func3_eq: "decode_func3 insn = ucast (take_bit 3 (drop_bit 12 insn))"
  unfolding decode_func3_def decode_masks by (rule bit_word_eqI) (auto simp: bit_simps)

lemma decode_i_eq: "decode_i insn = signed_drop_bit 20 insn"
  unfolding decode_i_def decode_masks by (rule bit_word_eqI) (auto simp: bit_simps)

lemma decode_i_encode: "decode_i (encode_i rest im) = signed_take_bit 11 im"
  unfolding decode_i_eq encode_i_def by (rule bit_word_eqI) (auto simp: bit_simps)

text \<open>The rules that decide an equation between two layouts of a 32-bit word.\<close>

lemmas bit_layout = word32_eq_bits bit_simps bit_iff_odd_drop_bit [symmetric]
  numeral_2_eq_2 [symmetric]

lemma decode_s_encode: "decode_s (encode_s rest im) = signed_take_bit 11 im"
  unfolding decode_s_def encode_s_def Let_def decode_masks by (simp add: bit_layout)

lemma decode_b_encode: "decode_b (encode_b rest im) = signed_take_bit 12 (im AND NOT 1)"
  unfolding decode_b_def encode_b_def Let_def decode_masks by (simp add: bit_layout)

lemma decode_u_encode: "decode_u (encode_u rest im) = im AND NOT (mask 12)"
  unfolding decode_u_def encode_u_def decode_masks by (simp add: bit_layout)

lemma decode_j_encode: "decode_j (encode_j rest im) = signed_take_bit 20 (im AND NOT 1)"
  unfolding decode_j_def encode_j_def Let_def decode_masks by (simp add: bit_layout)

text \<open>The register fields are five bits wide, so they index the 32 registers.\<close>

lemma decode_reg_less_32:
  "decode_rd insn < 32" "decode_rs1 insn < 32" "decode_rs2 insn < 32"
proof -
  have "ucast (take_bit 5 x :: u32) < (2 ^ 5 :: u8)" for x :: u32
  proof (subst word_less_2p_iff_drop_bit)
    show "drop_bit 5 (ucast (take_bit 5 x :: u32) :: u8) = 0"
      by (rule bit_word_eqI) (auto simp: bit_simps)
  qed simp
  then show "decode_rd insn < 32" "decode_rs1 insn < 32" "decode_rs2 insn < 32"
    by (simp_all add: decode_rd_eq decode_rs1_eq decode_rs2_eq)
qed

lemma decode_func3_less_8: "decode_func3 insn < 8"
proof -
  have "drop_bit 3 (decode_func3 insn) = 0"
    unfolding decode_func3_eq by (rule bit_word_eqI) (auto simp: bit_simps)
  then show ?thesis using word_less_2p_iff_drop_bit [of 3 "decode_func3 insn"] by simp
qed

lemma d_fields_decode_insn [simp]: "d_fields (decode_insn insn) = decode_fields insn"
  by (simp add: decode_insn_def Let_def)

lemmas decoded_defs = decoded_opcode_def decoded_rd_def decoded_rs1_def decoded_rs2_def
  decoded_funct3_def decoded_funct7_def decoded_funct5_def

lemmas decode_field_eqs = decode_rd_eq decode_rs1_eq decode_rs2_eq decode_func3_eq

lemma undecode_decode: "undecode_insn (decode_insn insn) = insn"
  unfolding undecode_insn_def decoded_defs
  by (simp add: bit_layout decode_fields_def decode_field_eqs)

lemma decoded_decode_insn [simp]:
  "decoded_opcode (decode_insn insn) = ucast (insn AND MASK 7)"
  "decoded_rd (decode_insn insn) = decode_rd insn"
  "decoded_rs1 (decode_insn insn) = decode_rs1 insn"
  "decoded_rs2 (decode_insn insn) = decode_rs2 insn"
  "decoded_funct3 (decode_insn insn) = decode_func3 insn"
  "decoded_funct7 (decode_insn insn) = ucast (drop_bit 25 insn)"
  unfolding decoded_defs
  by (rule bit_word_eqI,
      auto simp: bit_simps decode_fields_def decode_field_eqs dest: bit_imp_le_length)+

section \<open>Properties\<close>

text \<open>
  C34: every immediate decoder inverts the layout of its instruction format: decoding the
  word in which the format lays out an immediate \<open>im\<close> returns \<open>im\<close> sign-extended
  from the width the format has for it (12 bits for I and S, 13 bits with bit 0 zero for B,
  21 bits with bit 0 zero for J, the upper 20 bits for U), whatever the other fields are.
\<close>

theorem immediate_decoders_invert_layout:
  "decode_i (encode_i rest im) = signed_take_bit 11 im \<and>
   decode_s (encode_s rest im) = signed_take_bit 11 im \<and>
   decode_b (encode_b rest im) = signed_take_bit 12 (im AND NOT 1) \<and>
   decode_j (encode_j rest im) = signed_take_bit 20 (im AND NOT 1) \<and>
   decode_u (encode_u rest im) = im AND NOT (mask 12)"
  by (simp add: decode_i_encode decode_s_encode decode_b_encode decode_j_encode decode_u_encode)

text \<open>
  C35: the packed form \<open>decode_insn\<close> loses nothing: its accessors return what the direct
  decoders return, and the word that \<open>op_system\<close> puts together again from it is the
  instruction that was decoded.
\<close>

theorem packed_decode_roundtrip:
  "undecode_insn (decode_insn insn) = insn \<and>
   decoded_rd (decode_insn insn) = decode_rd insn \<and>
   decoded_rs1 (decode_insn insn) = decode_rs1 insn \<and>
   decoded_rs2 (decode_insn insn) = decode_rs2 insn \<and>
   decoded_funct3 (decode_insn insn) = decode_func3 insn"
  by (simp add: undecode_decode)

end
