(* ===== verification/Alu.thy ===== *)
theory Alu
  imports Decode "HOL-Library.Signed_Division"
begin

text \<open>
  The register-to-register arithmetic of \<^verbatim>\<open>src/riscv.c\<close>: \<^verbatim>\<open>op_rv32i\<close>, \<^verbatim>\<open>op_mul\<close> and the branch
  conditions of \<^verbatim>\<open>op_jmp\<close>. The lemmas state each operation over the mathematical integers the
  operands stand for.
\<close>

section \<open>Operations\<close>

text \<open>
  \<^verbatim>\<open>__builtin_unreachable()\<close> after the switch is undefined behaviour, hence \<open>None\<close>. Division on
  signed operands truncates towards zero in C; \<open>sdiv\<close> and \<open>smod\<close> are that division.
\<close>

definition op_mul :: "u8 \<Rightarrow> u32 \<Rightarrow> u32 \<Rightarrow> u32 option" where
  "op_mul funct3 a b =
     (if funct3 = 0b000 then
        Some (ucast (((scast a :: u64) * scast b) AND (push_bit 32 1 - 1)))
      else if funct3 = 0b001 then Some (ucast (drop_bit 32 ((scast a :: u64) * scast b)))
      else if funct3 = 0b010 then Some (ucast (drop_bit 32 ((scast a :: u64) * ucast b)))
      else if funct3 = 0b011 then Some (ucast (drop_bit 32 ((ucast a :: u64) * ucast b)))
      else if funct3 = 0b100 then
        Some (if b \<noteq> 0
              then (if a = 0x80000000 \<and> sint b = -1 then 0x80000000
                    else word_of_int (sint a sdiv sint b))
              else 0xFFFFFFFF)
      else if funct3 = 0b101 then Some (if b \<noteq> 0 then a div b else 0xFFFFFFFF)
      else if funct3 = 0b110 then
        Some (if b \<noteq> 0
              then (if a = 0x80000000 \<and> sint b = -1 then 0
                    else word_of_int (sint a smod sint b))
              else a)
      else if funct3 = 0b111 then Some (if b \<noteq> 0 then a mod b else a)
      else None)"

definition op_rv32i :: "u8 \<Rightarrow> bool \<Rightarrow> bool \<Rightarrow> u32 \<Rightarrow> u32 \<Rightarrow> u32 option" where
  "op_rv32i funct3 neg is_reg a b =
     (if funct3 = 0b000 then Some (a + (if is_reg \<and> neg then - b else b))
      else if funct3 = 0b010 then Some (if sint a < sint b then 1 else 0)
      else if funct3 = 0b011 then Some (if a < b then 1 else 0)
      else if funct3 = 0b100 then Some (a XOR b)
      else if funct3 = 0b110 then Some (a OR b)
      else if funct3 = 0b111 then Some (a AND b)
      else if funct3 = 0b001 then Some (push_bit (unat (b AND MASK 5)) a)
      else if funct3 = 0b101 then
        Some (if neg then signed_drop_bit (unat (b AND MASK 5)) a
              else drop_bit (unat (b AND MASK 5)) a)
      else None)"

definition op_jmp :: "u8 \<Rightarrow> u32 \<Rightarrow> u32 \<Rightarrow> hart_t \<Rightarrow> bool \<times> hart_t" where
  "op_jmp funct3 a b h =
     (if funct3 = 0b000 then (a = b, h)
      else if funct3 = 0b001 then (a \<noteq> b, h)
      else if funct3 = 0b110 then (a < b, h)
      else if funct3 = 0b111 then (b \<le> a, h)
      else if funct3 = 0b100 then (sint a < sint b, h)
      else if funct3 = 0b101 then (sint b \<le> sint a, h)
      else (False, vm_set_exception RV_EXC_ILLEGAL_INSN 0 h))"

section \<open>Lemmas\<close>

lemma u8_less_8_cases:
  "(f::u8) < 8 \<Longrightarrow> f = 0 \<or> f = 1 \<or> f = 2 \<or> f = 3 \<or> f = 4 \<or> f = 5 \<or> f = 6 \<or> f = 7"
  by (simp add: word_less_nat_alt word_unat_eq_iff) linarith

lemma op_mul_total: "funct3 < 8 \<Longrightarrow> op_mul funct3 a b \<noteq> None"
  by (drule u8_less_8_cases) (auto simp: op_mul_def)

lemma op_rv32i_total: "funct3 < 8 \<Longrightarrow> op_rv32i funct3 neg is_reg a b \<noteq> None"
  by (drule u8_less_8_cases) (auto simp: op_rv32i_def)

text \<open>The 64-bit products do not wrap, so they are the products of the integers.\<close>

lemma sint_word_of_int_small:
  "- (2 ^ 63) \<le> k \<Longrightarrow> k < 2 ^ 63 \<Longrightarrow> sint (word_of_int k :: u64) = k"
  by (simp add: signed_of_int signed_take_bit_int_eq_self)

lemma u32_int_bounds: "\<bar>sint (a::u32)\<bar> \<le> 2 ^ 31" "uint a < 2 ^ 32"
  using sint_greater_eq [of a] sint_less [of a] uint_lt2p [of a] by simp_all

lemma sint_mul_scast: "sint ((scast a :: u64) * scast b) = sint (a::u32) * sint (b::u32)"
proof -
  have le: "\<bar>sint a * sint b\<bar> \<le> 2 ^ 31 * 2 ^ 31"
    unfolding abs_mult by (intro mult_mono u32_int_bounds) auto
  have eq: "(scast a :: u64) * scast b = word_of_int (sint a * sint b)" by simp
  show ?thesis
    unfolding eq using le by (intro sint_word_of_int_small) (simp_all add: abs_le_iff)
qed

lemma sint_mul_scast_ucast: "sint ((scast a :: u64) * ucast b) = sint (a::u32) * uint (b::u32)"
proof -
  have le: "\<bar>sint a * uint b\<bar> \<le> 2 ^ 31 * (2 ^ 32 - 1)"
    unfolding abs_mult using u32_int_bounds(2) [of b] by (intro mult_mono u32_int_bounds) auto
  have eq: "(scast a :: u64) * ucast b = word_of_int (sint a * uint b)" by simp
  show ?thesis
    unfolding eq using le by (intro sint_word_of_int_small) (simp_all add: abs_le_iff)
qed

lemma uint_mul_ucast: "uint ((ucast a :: u64) * ucast b) = uint (a::u32) * uint (b::u32)"
proof -
  have le: "uint a * uint b < 2 ^ 32 * 2 ^ 32"
    using uint_lt2p [of a] uint_lt2p [of b] by (intro mult_strict_mono) auto
  have eq: "(ucast a :: u64) * ucast b = word_of_int (uint a * uint b)" by simp
  show ?thesis
    unfolding eq using le by (simp only: unsigned_of_int) (simp add: take_bit_int_eq_self)
qed

lemma sint_high_word: "sint (ucast (drop_bit 32 (x::u64)) :: u32) = sint x div 2 ^ 32"
proof -
  have "sint (ucast (drop_bit 32 x) :: u32) = drop_bit 32 (sint x)"
    by (rule bit_eqI) (auto simp: bit_simps min_def)
  then show ?thesis by (simp add: drop_bit_eq_div)
qed

lemma uint_high_word: "uint (ucast (drop_bit 32 (x::u64)) :: u32) = uint x div 2 ^ 32"
proof -
  have "uint (ucast (drop_bit 32 x) :: u32) = drop_bit 32 (uint x)"
    by (rule bit_eqI) (auto simp: bit_simps dest: bit_imp_le_length)
  then show ?thesis by (simp add: drop_bit_eq_div)
qed

lemma ucast_word_of_int_64: "(ucast (word_of_int k :: u64) :: u32) = word_of_int k"
  by (rule bit_word_eqI) (auto simp: bit_simps)

lemma op_mul_low: "op_mul 0b000 a b = Some (a * b)"
proof -
  have m: "push_bit 32 1 - 1 = (mask 32 :: u64)" by (simp add: mask_eq_exp_minus_1)
  have low: "ucast ((x :: u64) AND mask 32) = (ucast x :: u32)" for x
    by (rule bit_word_eqI) (auto simp: bit_simps)
  have eq: "(scast a :: u64) * scast b = word_of_int (sint a * sint b)" by simp
  have "(ucast ((scast a :: u64) * scast b) :: u32) = a * b"
    unfolding eq ucast_word_of_int_64 by simp
  then show ?thesis unfolding op_mul_def m by (simp add: low)
qed

lemma uint_mult_mod:
  "(a::u32) * b = word_of_int k \<Longrightarrow> uint (a * b) = k mod 2 ^ 32"
  by (simp add: unsigned_of_int take_bit_eq_mod)

lemma sint_eq_m1: "sint b = - 1 \<Longrightarrow> (b :: u32) = - 1"
  by (metis of_int_1 of_int_minus of_int_sint scast_id word_of_int_1 word_of_int_minus)

lemma sint_smod:
  "sint b \<noteq> 0 \<Longrightarrow> sint (word_of_int (sint a smod sint b) :: u32) = sint a smod sint (b::u32)"
  using smod_int_range [of "sint b" "sint a"] u32_int_bounds(1) [of b]
  by (simp add: signed_of_int signed_take_bit_int_eq_self)

lemma op_mul_div_rem:
  assumes "op_mul 0b100 a b = Some q" and "op_mul 0b110 a b = Some r"
  shows "q * b + r = a"
proof (cases "b = 0 \<or> a = 0x80000000 \<and> sint b = -1")
  case True
  with assms show ?thesis by (auto simp: op_mul_def dest: sint_eq_m1)
next
  case False
  with assms have "q = word_of_int (sint a sdiv sint b)" "r = word_of_int (sint a smod sint b)"
    by (auto simp: op_mul_def split: if_splits)
  then have "q * b + r = word_of_int (sint a sdiv sint b * sint b + sint a smod sint b)"
    by simp
  then show ?thesis by (simp only: sdiv_mult_smod_eq) simp
qed

lemma op_mul_rem_range:
  assumes "op_mul 0b110 a b = Some r" and "b \<noteq> 0"
  shows "\<bar>sint r\<bar> < \<bar>sint b\<bar> \<and> (r = 0 \<or> sgn (sint r) = sgn (sint a))"
proof (cases "a = 0x80000000 \<and> sint b = -1")
  case True
  with assms show ?thesis by (auto simp: op_mul_def)
next
  case False
  from assms(2) have b: "sint b \<noteq> 0" by (metis sint_0 signed_word_eqI)
  from assms False have r: "r = word_of_int (sint a smod sint b)"
    by (auto simp: op_mul_def split: if_splits)
  then have sr: "sint r = sint a smod sint b" by (simp add: sint_smod b)
  moreover have "0 \<le> \<bar>sint a\<bar> mod \<bar>sint b\<bar>"
    using b by simp
  then have "sint a smod sint b = 0 \<or> sgn (sint a smod sint b) = sgn (sint a)"
    by (auto simp: signed_modulo_int_def sgn_mult le_less)
  ultimately show ?thesis
    using smod_int_range [OF b, of "sint a"] r by auto
qed

section \<open>Properties\<close>

text \<open>
  C36: the multiplication instructions compute the full 64-bit product. With \<open>l\<close> the
  result of MUL, the word pair (MULH, \<open>l\<close>) is the product of the operands read as signed
  integers, (MULHU, \<open>l\<close>) of the operands read as unsigned integers and (MULHSU, \<open>l\<close>) of
  the signed first and the unsigned second operand.
\<close>

theorem multiplication_is_exact:
  "\<exists>l h hsu hu.
     op_mul 0b000 a b = Some l \<and> op_mul 0b001 a b = Some h \<and>
     op_mul 0b010 a b = Some hsu \<and> op_mul 0b011 a b = Some hu \<and>
     sint h * 2 ^ 32 + uint l = sint a * sint b \<and>
     sint hsu * 2 ^ 32 + uint l = sint a * uint b \<and>
     uint hu * 2 ^ 32 + uint l = uint a * uint b"
proof -
  have "a * b = word_of_int (sint a * sint b)" "a * b = word_of_int (sint a * uint b)"
    "a * b = word_of_int (uint a * uint b)" by simp_all
  note low = this [THEN uint_mult_mod]
  have "sint (ucast (drop_bit 32 ((scast a :: u64) * scast b)) :: u32) * 2 ^ 32 + uint (a * b)
      = sint a * sint b"
    unfolding sint_high_word sint_mul_scast low(1) by simp
  moreover have "sint (ucast (drop_bit 32 ((scast a :: u64) * ucast b)) :: u32) * 2 ^ 32
      + uint (a * b) = sint a * uint b"
    unfolding sint_high_word sint_mul_scast_ucast low(2) by simp
  moreover have "uint (ucast (drop_bit 32 ((ucast a :: u64) * ucast b)) :: u32) * 2 ^ 32
      + uint (a * b) = uint a * uint b"
    unfolding uint_high_word uint_mul_ucast low(3) by simp
  ultimately show ?thesis
    using op_mul_low [of a b] by (auto simp: op_mul_def)
qed

text \<open>
  C37: the division instructions satisfy the division law for all operands, by zero and
  on overflow included: quotient times divisor plus remainder is the dividend. A division by
  zero gives the quotient with all bits set; any other remainder is smaller in magnitude than
  the divisor and, for the signed instructions, is zero or has the sign of the dividend.
\<close>

theorem division_law:
  "\<exists>q r qu ru.
     op_mul 0b100 a b = Some q \<and> op_mul 0b110 a b = Some r \<and>
     op_mul 0b101 a b = Some qu \<and> op_mul 0b111 a b = Some ru \<and>
     q * b + r = a \<and> qu * b + ru = a \<and>
     (if b = 0 then q = - 1 \<and> qu = - 1
      else \<bar>sint r\<bar> < \<bar>sint b\<bar> \<and> (r = 0 \<or> sgn (sint r) = sgn (sint a)) \<and> ru < b)"
proof -
  obtain q r qu ru where ops: "op_mul 0b100 a b = Some q" "op_mul 0b110 a b = Some r"
    "op_mul 0b101 a b = Some qu" "op_mul 0b111 a b = Some ru"
    by (simp add: op_mul_def)
  moreover have "qu * b + ru = a" and "b \<noteq> 0 \<Longrightarrow> ru < b"
    using ops(3,4)
    by (auto simp: op_mul_def word_mod_less_divisor word_gt_0 word_mod_div_equality)
  moreover have "b = 0 \<Longrightarrow> q = - 1 \<and> qu = - 1"
    using ops(1,3) by (auto simp: op_mul_def)
  ultimately show ?thesis
    using op_mul_div_rem [OF ops(1,2)] op_mul_rem_range [OF ops(2)] by auto
qed

end
