(* ===== verification/Timer.thy ===== *)
theory Timer
  imports Hart
begin

text \<open>
  The emulator's time base (\<^verbatim>\<open>src/utils.c\<close>). Until the guest has booted, time is a counter of
  type \<^verbatim>\<open>double\<close> that grows with every reading; then it is the host clock minus an offset that is
  computed at the first reading after the switch.

  The host clock is a stream of readings in nanoseconds. Floating-point arithmetic is a parameter:
  \<open>boot_ticks n\<close> is the boot counter after \<open>n\<close> increments, converted to an integer, and
  \<open>ticks_minus_boot t n\<close> is \<open>t\<close> minus that counter, converted. The static variables of
  \<^verbatim>\<open>semu_timer_clocksource\<close> and the globals of the file are the other fields.
\<close>

record clock_t =
  boot_complete :: bool
  host_ns :: "nat \<Rightarrow> u64"
  host_calls :: nat
  boot_ticks :: "nat \<Rightarrow> u64"
  ticks_minus_boot :: "u64 \<Rightarrow> nat \<Rightarrow> u64"
  timer_call_count :: nat
  ticks_offset :: u64
  first_switch :: bool

text \<open>Every caller passes \<open>d\<close> = \<open>10 ^ 9\<close>; a division by zero would be undefined.\<close>

definition mult_frac :: "u64 \<Rightarrow> u64 \<Rightarrow> u64 \<Rightarrow> u64" where
  "mult_frac x n d = (let q = x div d; r = x mod d in q * n + r * n div d)"

definition host_time_ns :: "clock_t \<Rightarrow> u64 \<times> clock_t" where
  "host_time_ns clk = (host_ns clk (host_calls clk), clk\<lparr>host_calls := Suc (host_calls clk)\<rparr>)"

definition semu_timer_clocksource :: "semu_timer_t \<Rightarrow> clock_t \<Rightarrow> u64 \<times> clock_t" where
  "semu_timer_clocksource timer clk =
     (if \<not> boot_complete clk then
        let clk = clk\<lparr>timer_call_count := Suc (timer_call_count clk)\<rparr>
        in (boot_ticks clk (timer_call_count clk), clk)
      else
        let (ns, clk) = host_time_ns clk;
            real_ticks = mult_frac ns (tm_freq timer) 1000000000;
            clk = (if first_switch clk
                   then clk\<lparr>first_switch := False,
                            ticks_offset := ticks_minus_boot clk real_ticks (timer_call_count clk)\<rparr>
                   else clk)
        in (real_ticks - ticks_offset clk, clk))"

definition semu_timer_get :: "semu_timer_t \<Rightarrow> clock_t \<Rightarrow> u64 \<times> clock_t" where
  "semu_timer_get timer clk =
     (let (now, clk) = semu_timer_clocksource timer clk in (now - tm_begin timer, clk))"

definition semu_timer_rebase :: "semu_timer_t \<Rightarrow> u64 \<Rightarrow> clock_t \<Rightarrow> semu_timer_t \<times> clock_t" where
  "semu_timer_rebase timer t clk =
     (let (now, clk) = semu_timer_clocksource timer clk in (timer\<lparr>tm_begin := now - t\<rparr>, clk))"

text \<open>
  \<^verbatim>\<open>semu_timer_init\<close> also computes the start and the increment of the boot counter, which the
  parameter \<open>boot_ticks\<close> stands for.
\<close>

definition semu_timer_init :: "u64 \<Rightarrow> clock_t \<Rightarrow> semu_timer_t \<times> clock_t" where
  "semu_timer_init freq clk =
     (let (ns, clk) = host_time_ns clk in (\<lparr>tm_begin = mult_frac ns freq 1000000000, tm_freq = freq\<rparr>, clk))"

lemma clocksource_boot_complete [simp]:
  "boot_complete (snd (semu_timer_clocksource timer clk)) = boot_complete clk"
  by (simp add: semu_timer_clocksource_def host_time_ns_def Let_def)

text \<open>A clock for the examples: booting, with a counter that stands still.\<close>

definition still_clock :: "u64 \<Rightarrow> clock_t" where
  "still_clock c = \<lparr>boot_complete = False, host_ns = (\<lambda>_. 0), host_calls = 0, boot_ticks = (\<lambda>_. c),
     ticks_minus_boot = (\<lambda>t _. t - c), timer_call_count = 0, ticks_offset = 0, first_switch = True\<rparr>"

text \<open>
  \<^verbatim>\<open>mult_frac\<close> computes \<open>x * n / d\<close> exactly, rounded down, when the result and the
  product of the remainder with \<open>n\<close> fit in 64 bits: the full product \<open>x * n\<close> may overflow.
\<close>

theorem mult_frac_exact:
  assumes "d \<noteq> 0" and "unat (x mod d) * unat n < 2 ^ 64" and "unat x * unat n div unat d < 2 ^ 64"
  shows "unat (mult_frac x n d) = unat x * unat n div unat d"
proof -
  let ?q = "unat x div unat d" and ?r = "unat x mod unat d"
  have d: "unat d > 0" using assms(1) by (simp add: unat_gt_0)
  have rn: "unat (x mod d * n) = ?r * unat n"
    using assms(2) unat_mult_lem [of "x mod d" n] by (simp add: unat_mod)
  have "unat x * unat n = (?q * unat d + ?r) * unat n" by simp
  also have "\<dots> = (?q * unat n) * unat d + ?r * unat n"
    by (simp only: distrib_left distrib_right mult.assoc mult.commute mult.left_commute)
  finally have split: "unat x * unat n div unat d = ?q * unat n + ?r * unat n div unat d"
    using d by simp
  then have small: "?q * unat n + ?r * unat n div unat d < 2 ^ 64" using assms(3) by simp
  then have qn: "unat (x div d * n) = ?q * unat n"
    using unat_mult_lem [of "x div d" n] by (simp add: unat_div)
  have "unat (x div d * n + x mod d * n div d) = ?q * unat n + ?r * unat n div unat d"
    using small by (subst unat_add_lem [THEN iffD1]) (simp_all add: qn unat_div rn)
  then show ?thesis using split by (simp add: mult_frac_def Let_def)
qed

theorem mult_frac_exact_witness:
  "unat (mult_frac 0xFFFFFFFFFFFFFFFF 65000000 1000000000) =
     unat (0xFFFFFFFFFFFFFFFF :: u64) * unat (65000000 :: u64) div unat (1000000000 :: u64)"
  using mult_frac_exact [of 1000000000 "0xFFFFFFFFFFFFFFFF" 65000000] by simp



end
