(* ===== verification/Device.thy ===== *)
theory Device
  imports Hart
begin

text \<open>
  What the bus relies on from a memory-mapped device: a read or a write of the guest may change
  the device and may raise an exception on the accessing hart, and changes nothing else of the
  hart; the part of the device state that its configuration fixes (array sizes, the disk) stays.
  Every device theory interprets the locale on its own read and write functions.
\<close>

datatype access = Load u32 u8 u32 | Store u32 u8 u32

fun run_accesses ::
  "('s \<Rightarrow> u32 \<Rightarrow> u8 \<Rightarrow> u32 \<Rightarrow> hart_t \<Rightarrow> (u32 \<times> 's \<times> hart_t) option) \<Rightarrow>
   ('s \<Rightarrow> u32 \<Rightarrow> u8 \<Rightarrow> u32 \<Rightarrow> hart_t \<Rightarrow> ('s \<times> hart_t) option) \<Rightarrow>
   access list \<Rightarrow> 's \<Rightarrow> hart_t \<Rightarrow> ('s \<times> hart_t) option" where
  "run_accesses rd wr [] s h = Some (s, h)"
| "run_accesses rd wr (Load addr width val # as) s h =
     do { (_, s', h') \<leftarrow> rd s addr width val h; run_accesses rd wr as s' h' }"
| "run_accesses rd wr (Store addr width val # as) s h =
     do { (s', h') \<leftarrow> wr s addr width val h; run_accesses rd wr as s' h' }"

locale mmio_device =
  fixes dev_read :: "'s \<Rightarrow> u32 \<Rightarrow> u8 \<Rightarrow> u32 \<Rightarrow> hart_t \<Rightarrow> (u32 \<times> 's \<times> hart_t) option"
    and dev_write :: "'s \<Rightarrow> u32 \<Rightarrow> u8 \<Rightarrow> u32 \<Rightarrow> hart_t \<Rightarrow> ('s \<times> hart_t) option"
    and config :: "'s \<Rightarrow> 'c"
  assumes read_raises: "dev_read s addr width val h = Some (v, s', h') \<Longrightarrow> raises h h'"
    and write_raises: "dev_write s addr width val h = Some (s', h') \<Longrightarrow> raises h h'"
    and read_config: "dev_read s addr width val h = Some (v, s', h') \<Longrightarrow> config s' = config s"
    and write_config: "dev_write s addr width val h = Some (s', h') \<Longrightarrow> config s' = config s"
begin

lemma accesses_raise:
  "run_accesses dev_read dev_write as s h = Some (s', h') \<Longrightarrow> raises h h' \<and> config s' = config s"
proof (induction as arbitrary: s h)
  case Nil
  then show ?case by simp
next
  case (Cons a as)
  show ?case
  proof (cases a)
    case (Load addr width val)
    with Cons.prems obtain v s1 h1 where *: "dev_read s addr width val h = Some (v, s1, h1)"
      "run_accesses dev_read dev_write as s1 h1 = Some (s', h')"
      by (auto split: bind_splits)
    then show ?thesis
      using Cons.IH [OF *(2)] read_raises [OF *(1)] read_config [OF *(1)] raises_trans by metis
  next
    case (Store addr width val)
    with Cons.prems obtain s1 h1 where *: "dev_write s addr width val h = Some (s1, h1)"
      "run_accesses dev_read dev_write as s1 h1 = Some (s', h')"
      by (auto split: bind_splits)
    then show ?thesis
      using Cons.IH [OF *(2)] write_raises [OF *(1)] write_config [OF *(1)] raises_trans by metis
  qed
qed

end

end
