(* ===== verification/Aclint.thy ===== *)
theory Aclint
  imports Timer Device
begin

text \<open>
  The ACLINT devices of \<^verbatim>\<open>src/aclint.c\<close>: the timer (MTIMER) and the two software-interrupt
  devices (MSWI, SSWI). The arrays \<^verbatim>\<open>mtimecmp\<close>, \<^verbatim>\<open>msip\<close> and \<^verbatim>\<open>ssip\<close> have one
  entry for each hart; an access beyond them is undefined. An access of the guest is shifted by
  \<^verbatim>\<open>RV_MEM_SW - width\<close>, which C leaves undefined for the unsigned load widths, where it
  is negative.
\<close>

section \<open>State\<close>

record mtimer_state_t =
  mtimecmp :: "u32 \<Rightarrow> u64"
  mtimer_n_hart :: u32
  mtime :: semu_timer_t

record mswi_state_t =
  msip :: "u32 \<Rightarrow> u32"
  mswi_n_hart :: u32

record sswi_state_t =
  ssip :: "u32 \<Rightarrow> u32"
  sswi_n_hart :: u32

section \<open>Operations\<close>

definition aclint_mtimer_update_interrupts ::
  "mtimer_state_t \<Rightarrow> clock_t \<Rightarrow> hart_t \<Rightarrow> (clock_t \<times> hart_t) option" where
  "aclint_mtimer_update_interrupts mtimer clk h =
     (if mhartid h < mtimer_n_hart mtimer then
        let (now, clk') = semu_timer_get (mtime mtimer) clk
        in Some (clk', irq_line RV_INT_STI_BIT (mtimecmp mtimer (mhartid h) \<le> now) h)
      else None)"

definition half64 :: "u32 \<Rightarrow> u64 \<Rightarrow> u32" where
  "half64 addr x = ucast (drop_bit (if addr AND 0x4 \<noteq> 0 then 32 else 0) x)"

definition set_half64 :: "u32 \<Rightarrow> u32 \<Rightarrow> u64 \<Rightarrow> u64" where
  "set_half64 addr val x =
     (if addr AND 0x4 \<noteq> 0 then (x AND 0xFFFFFFFF) OR push_bit 32 (ucast val)
      else (x AND 0xFFFFFFFF00000000) OR ucast val)"

definition aclint_mtimer_reg_read ::
  "mtimer_state_t \<Rightarrow> clock_t \<Rightarrow> u32 \<Rightarrow> u32 \<Rightarrow> bool \<times> u32 \<times> clock_t" where
  "aclint_mtimer_reg_read mtimer clk addr val =
     (if addr < 0x7FF8 then
        if drop_bit 3 addr \<ge> mtimer_n_hart mtimer then (False, val, clk)
        else (True, half64 addr (mtimecmp mtimer (drop_bit 3 addr)), clk)
      else if addr < 0x8000 then
        let (now, clk') = semu_timer_get (mtime mtimer) clk
        in (True, half64 addr now, clk')
      else (False, val, clk))"

definition aclint_mtimer_reg_write ::
  "mtimer_state_t \<Rightarrow> clock_t \<Rightarrow> u32 \<Rightarrow> u32 \<Rightarrow> bool \<times> mtimer_state_t \<times> clock_t" where
  "aclint_mtimer_reg_write mtimer clk addr val =
     (if addr < 0x7FF8 then
        if drop_bit 3 addr \<ge> mtimer_n_hart mtimer then (False, mtimer, clk)
        else
          (let i = drop_bit 3 addr
           in (True, mtimer\<lparr>mtimecmp := (mtimecmp mtimer)
                              (i := set_half64 addr val (mtimecmp mtimer i))\<rparr>, clk))
      else if addr < 0x8000 then
        let mtime_val = set_half64 addr val (tm_begin (mtime mtimer));
            (mt, clk') = semu_timer_rebase (mtime mtimer) mtime_val clk
        in (True, mtimer\<lparr>mtime := mt\<rparr>, clk')
      else (False, mtimer, clk))"

text \<open>The shift count \<^verbatim>\<open>RV_MEM_SW - width\<close>, where C defines it.\<close>

definition width_shift :: "u8 \<Rightarrow> nat option" where
  "width_shift width = (if width \<le> RV_MEM_SW then Some (2 - unat width) else None)"

definition aclint_mtimer_read ::
  "mtimer_state_t \<Rightarrow> clock_t \<Rightarrow> u32 \<Rightarrow> u8 \<Rightarrow> u32 \<Rightarrow> hart_t \<Rightarrow> (u32 \<times> clock_t \<times> hart_t) option" where
  "aclint_mtimer_read mtimer clk addr width val h =
     (let (ok, val, clk) = aclint_mtimer_reg_read mtimer clk addr val;
          h = (if ok then h else vm_set_exception RV_EXC_LOAD_FAULT (exc_val h) h)
      in do { s \<leftarrow> width_shift width; Some (drop_bit s val, clk, h) })"

definition aclint_mtimer_write ::
  "mtimer_state_t \<Rightarrow> clock_t \<Rightarrow> u32 \<Rightarrow> u8 \<Rightarrow> u32 \<Rightarrow> hart_t \<Rightarrow>
     (mtimer_state_t \<times> clock_t \<times> hart_t) option" where
  "aclint_mtimer_write mtimer clk addr width val h =
     do { s \<leftarrow> width_shift width;
          let (ok, mtimer, clk) = aclint_mtimer_reg_write mtimer clk addr (push_bit s val);
          Some (mtimer, clk,
                if ok then h else vm_set_exception RV_EXC_STORE_FAULT (exc_val h) h) }"

definition aclint_mswi_update_interrupts :: "mswi_state_t \<Rightarrow> hart_t \<Rightarrow> hart_t option" where
  "aclint_mswi_update_interrupts mswi h =
     (if mhartid h < mswi_n_hart mswi
      then Some (irq_line RV_INT_SSI_BIT (msip mswi (mhartid h) \<noteq> 0) h) else None)"

definition aclint_mswi_reg_read :: "mswi_state_t \<Rightarrow> u32 \<Rightarrow> u32 \<Rightarrow> bool \<times> u32" where
  "aclint_mswi_reg_read mswi addr val =
     (if addr < 0x4000 then
        if drop_bit 2 addr \<ge> mswi_n_hart mswi then (False, val)
        else (True, msip mswi (drop_bit 2 addr))
      else (False, val))"

definition aclint_mswi_reg_write :: "mswi_state_t \<Rightarrow> u32 \<Rightarrow> u32 \<Rightarrow> bool \<times> mswi_state_t" where
  "aclint_mswi_reg_write mswi addr val =
     (if addr < 0x4000 then
        if drop_bit 2 addr \<ge> mswi_n_hart mswi then (False, mswi)
        else (True, mswi\<lparr>msip := (msip mswi)(drop_bit 2 addr := val AND 0x1)\<rparr>)
      else (False, mswi))"

definition aclint_mswi_read ::
  "mswi_state_t \<Rightarrow> u32 \<Rightarrow> u8 \<Rightarrow> u32 \<Rightarrow> hart_t \<Rightarrow> (u32 \<times> hart_t) option" where
  "aclint_mswi_read mswi addr width val h =
     (let (ok, val) = aclint_mswi_reg_read mswi addr val;
          h = (if ok then h else vm_set_exception RV_EXC_LOAD_FAULT (exc_val h) h)
      in do { s \<leftarrow> width_shift width; Some (drop_bit s val, h) })"

definition aclint_mswi_write ::
  "mswi_state_t \<Rightarrow> u32 \<Rightarrow> u8 \<Rightarrow> u32 \<Rightarrow> hart_t \<Rightarrow> (mswi_state_t \<times> hart_t) option" where
  "aclint_mswi_write mswi addr width val h =
     do { s \<leftarrow> width_shift width;
          let (ok, mswi) = aclint_mswi_reg_write mswi addr (push_bit s val);
          Some (mswi, if ok then h else vm_set_exception RV_EXC_STORE_FAULT (exc_val h) h) }"

definition aclint_sswi_update_interrupts :: "sswi_state_t \<Rightarrow> hart_t \<Rightarrow> hart_t option" where
  "aclint_sswi_update_interrupts sswi h =
     (if mhartid h < sswi_n_hart sswi
      then Some (irq_line RV_INT_SSI_BIT (ssip sswi (mhartid h) \<noteq> 0) h) else None)"

definition aclint_sswi_reg_read :: "sswi_state_t \<Rightarrow> u32 \<Rightarrow> u32 \<Rightarrow> bool \<times> u32" where
  "aclint_sswi_reg_read sswi addr val =
     (if addr < 0x4000 then
        if drop_bit 2 addr \<ge> sswi_n_hart sswi then (False, val) else (True, 0)
      else (False, val))"

definition aclint_sswi_reg_write :: "sswi_state_t \<Rightarrow> u32 \<Rightarrow> u32 \<Rightarrow> bool \<times> sswi_state_t" where
  "aclint_sswi_reg_write sswi addr val =
     (if addr < 0x4000 then
        if drop_bit 2 addr \<ge> sswi_n_hart sswi then (False, sswi)
        else (True, sswi\<lparr>ssip := (ssip sswi)(drop_bit 2 addr := val AND 0x1)\<rparr>)
      else (False, sswi))"

definition aclint_sswi_read ::
  "sswi_state_t \<Rightarrow> u32 \<Rightarrow> u8 \<Rightarrow> u32 \<Rightarrow> hart_t \<Rightarrow> (u32 \<times> hart_t) option" where
  "aclint_sswi_read sswi addr width val h =
     (let (ok, val) = aclint_sswi_reg_read sswi addr val;
          h = (if ok then h else vm_set_exception RV_EXC_LOAD_FAULT (exc_val h) h)
      in do { s \<leftarrow> width_shift width; Some (drop_bit s val, h) })"

definition aclint_sswi_write ::
  "sswi_state_t \<Rightarrow> u32 \<Rightarrow> u8 \<Rightarrow> u32 \<Rightarrow> hart_t \<Rightarrow> (sswi_state_t \<times> hart_t) option" where
  "aclint_sswi_write sswi addr width val h =
     do { s \<leftarrow> width_shift width;
          let (ok, sswi) = aclint_sswi_reg_write sswi addr (push_bit s val);
          Some (sswi, if ok then h else vm_set_exception RV_EXC_STORE_FAULT (exc_val h) h) }"

section \<open>Lemmas\<close>

lemma set_half64_eq:
  "set_half64 addr val x =
     (if addr AND 0x4 \<noteq> 0 then (x AND mask 32) OR push_bit 32 (ucast val)
      else (x AND NOT (mask 32)) OR ucast val)"
proof -
  have "(0xFFFFFFFF :: u64) = mask 32" "(0xFFFFFFFF00000000 :: u64) = NOT (mask 32)"
    by (simp_all add: mask_eq_exp_minus_1)
  then show ?thesis by (simp only: set_half64_def)
qed

lemma half_set_half:
  "half64 a (set_half64 b v x) =
     (if (a AND 0x4 = 0) = (b AND 0x4 = 0) then v else half64 a x)"
  by (rule bit_word_eqI) (auto simp: half64_def set_half64_eq bit_simps dest: bit_imp_le_length)

lemma set_halves:
  assumes "a AND 0x4 = 0" "b AND 0x4 \<noteq> 0"
  shows "set_half64 b hi (set_half64 a lo x) = (word_cat hi lo :: u64)"
    "set_half64 a lo (set_half64 b hi x) = (word_cat hi lo :: u64)"
  by (rule bit_word_eqI; use assms in \<open>auto simp: set_half64_eq bit_simps bit_word_cat_iff
      dest: bit_imp_le_length\<close>)+

lemma half_word_cat:
  "half64 a (word_cat hi lo) = (if a AND 0x4 = 0 then lo else hi)"
  by (rule bit_word_eqI) (auto simp: half64_def bit_simps bit_word_cat_iff)

text \<open>The three devices meet the contract of the bus.\<close>

interpretation mtimer: mmio_device
  "\<lambda>(m, clk) addr width val h.
     map_option (\<lambda>(v, clk, h). (v, (m, clk), h)) (aclint_mtimer_read m clk addr width val h)"
  "\<lambda>(m, clk) addr width val h.
     map_option (\<lambda>(m, clk, h). ((m, clk), h)) (aclint_mtimer_write m clk addr width val h)"
  "\<lambda>(m, clk). (mtimer_n_hart m, boot_complete clk)"
  by unfold_locales
    (auto simp: aclint_mtimer_read_def aclint_mtimer_write_def aclint_mtimer_reg_write_def
      aclint_mtimer_reg_read_def semu_timer_rebase_def semu_timer_get_def
      Let_def
      dest: arg_cong [of _ _ "\<lambda>r. boot_complete (snd r)"] split: prod.splits bind_splits if_splits)

interpretation mswi: mmio_device
  "\<lambda>s addr width val h. map_option (\<lambda>(v, h). (v, s, h)) (aclint_mswi_read s addr width val h)"
  aclint_mswi_write mswi_n_hart
  by unfold_locales
    (auto simp: aclint_mswi_read_def aclint_mswi_write_def aclint_mswi_reg_write_def
      aclint_mswi_reg_read_def Let_def split: prod.splits bind_splits if_splits)

interpretation sswi: mmio_device
  "\<lambda>s addr width val h. map_option (\<lambda>(v, h). (v, s, h)) (aclint_sswi_read s addr width val h)"
  aclint_sswi_write sswi_n_hart
  by unfold_locales
    (auto simp: aclint_sswi_read_def aclint_sswi_write_def aclint_sswi_reg_write_def
      aclint_sswi_reg_read_def Let_def split: prod.splits bind_splits if_splits)

text \<open>Register \<open>i\<close> of the compare array occupies the eight bytes from \<open>8 * i\<close>.\<close>

lemma mtimecmp_region: "(a :: u32) < 0x7FF8 \<longleftrightarrow> drop_bit 3 a < 0xFFF"
proof -
  have "unat (drop_bit 3 a) = unat a div 8"
    by (simp only: unat_drop_bit_eq) (simp add: drop_bit_eq_div)
  then show ?thesis by (simp add: word_less_nat_alt) linarith
qed

lemma mtimecmp_high:
  assumes "(a :: u32) AND 7 = 0"
  shows "drop_bit 3 (a + 4) = drop_bit 3 a" "a AND 4 = 0" "(a + 4) AND 4 = 4"
proof -
  have seven: "(7 :: u32) = mask 3" by (simp add: mask_eq_exp_minus_1)
  show "drop_bit 3 (a + 4) = drop_bit 3 a"
    using frame_add_small(1) [of a 3 4] assms by (simp add: seven)
  have "(a AND 7) AND 4 = a AND 4" "((a + 4) AND 7) AND 4 = (a + 4) AND 4"
    by (simp_all add: and.assoc)
  then show "a AND 4 = 0" "(a + 4) AND 4 = 4"
    using frame_add_small(2) [of a 3 4] assms by (simp_all add: seven)
qed

lemma mtimecmp_store:
  assumes "a < 0x7FF8" "drop_bit 3 a < mtimer_n_hart m"
  shows "aclint_mtimer_write m clk a RV_MEM_SW v h =
     Some (m\<lparr>mtimecmp := (mtimecmp m)
             (drop_bit 3 a := set_half64 a v (mtimecmp m (drop_bit 3 a)))\<rparr>, clk, h)"
  using assms assms(2) [folded not_le]
  by (simp add: aclint_mtimer_write_def aclint_mtimer_reg_write_def width_shift_def Let_def)

lemma mtimecmp_load:
  assumes "a < 0x7FF8" "drop_bit 3 a < mtimer_n_hart m"
  shows "aclint_mtimer_read m clk a RV_MEM_LW v h =
     Some (half64 a (mtimecmp m (drop_bit 3 a)), clk, h)"
  using assms assms(2) [folded not_le]
  by (simp add: aclint_mtimer_read_def aclint_mtimer_reg_read_def width_shift_def Let_def)

section \<open>Properties\<close>

text \<open>
  A guest that stores the two words of a hart's compare register, in either order, sets the
  64-bit register to the two words, keeps the compare registers of every other hart, and reads
  both words back; no access raises an exception.
\<close>

theorem mtimecmp_write_read:
  assumes "a < 0x7FF8" "a AND 7 = 0" "drop_bit 3 a < mtimer_n_hart m"
  shows "let m' = m\<lparr>mtimecmp := (mtimecmp m)(drop_bit 3 a := word_cat hi lo)\<rparr> in
     (do { (m1, clk1, h1) \<leftarrow> aclint_mtimer_write m clk a RV_MEM_SW lo h;
           aclint_mtimer_write m1 clk1 (a + 4) RV_MEM_SW hi h1 }) = Some (m', clk, h) \<and>
     (do { (m1, clk1, h1) \<leftarrow> aclint_mtimer_write m clk (a + 4) RV_MEM_SW hi h;
           aclint_mtimer_write m1 clk1 a RV_MEM_SW lo h1 }) = Some (m', clk, h) \<and>
     aclint_mtimer_read m' clk a RV_MEM_LW v h = Some (lo, clk, h) \<and>
     aclint_mtimer_read m' clk (a + 4) RV_MEM_LW v h = Some (hi, clk, h)"
proof -
  note high = mtimecmp_high [OF assms(2)]
  have "a + 4 < 0x7FF8" using assms(1) high(1) by (simp add: mtimecmp_region)
  then show ?thesis
    using assms high
    by (simp add: mtimecmp_store mtimecmp_load set_halves half_word_cat Let_def)
qed

theorem mtimecmp_write_read_witness:
  "\<forall>h clk. (do { (m1, clk1, h1) \<leftarrow> aclint_mtimer_write
             \<lparr>mtimecmp = (\<lambda>i. 7), mtimer_n_hart = 4, mtime = \<lparr>tm_begin = 0, tm_freq = 1\<rparr>\<rparr> clk 16 RV_MEM_SW 5 h;
           aclint_mtimer_write m1 clk1 20 RV_MEM_SW 9 h1 }) =
     Some (\<lparr>mtimecmp = (\<lambda>i. 7)(2 := 0x900000005), mtimer_n_hart = 4,
             mtime = \<lparr>tm_begin = 0, tm_freq = 1\<rparr>\<rparr>, clk, h)"
proof -
  have "word_cat (9 :: u32) (5 :: u32) = (0x900000005 :: u64)"
    by (simp add: word_cat_eq' concat_bit_def)
  then show ?thesis
    using mtimecmp_write_read [of 16 "\<lparr>mtimecmp = (\<lambda>i. 7), mtimer_n_hart = 4,
      mtime = \<lparr>tm_begin = 0, tm_freq = 1\<rparr>\<rparr>" 9 5]
    by (simp add: Let_def)
qed

text \<open>
  The timer interrupt of a hart is pending exactly when the current time has reached the
  hart's compare register. Updating it wakes the hart if it is pending, changes no other
  interrupt bit and nothing else of the hart.
\<close>

theorem mtimer_interrupt_line:
  assumes "mhartid h < mtimer_n_hart m"
  shows "\<exists>clk' h'. aclint_mtimer_update_interrupts m clk h = Some (clk', h') \<and>
     bit (sip h') 5 = (mtimecmp m (mhartid h) \<le> fst (semu_timer_get (mtime m) clk)) \<and>
     (\<forall>n. n \<noteq> 5 \<longrightarrow> bit (sip h') n = bit (sip h) n) \<and>
     in_wfi h' = (in_wfi h \<and> \<not> bit (sip h') 5) \<and>
     h' = h\<lparr>sip := sip h', in_wfi := in_wfi h'\<rparr>"
  using assms irq_line_rest [of RV_INT_STI_BIT _ h]
  by (auto simp: aclint_mtimer_update_interrupts_def sip_lines in_wfi_irq_line split: prod.split)

theorem mtimer_interrupt_line_witness:
  "\<exists>clk' h'. aclint_mtimer_update_interrupts
       \<lparr>mtimecmp = (\<lambda>i. 7), mtimer_n_hart = 4, mtime = \<lparr>tm_begin = 3, tm_freq = 1\<rparr>\<rparr>
       (still_clock 20) (zero_hart\<lparr>mhartid := 1\<rparr>) = Some (clk', h') \<and>
       bit (sip h') 5 \<and> \<not> in_wfi h'"
  using mtimer_interrupt_line [of "zero_hart\<lparr>mhartid := 1\<rparr>" "\<lparr>mtimecmp = (\<lambda>i. 7), mtimer_n_hart = 4,
      mtime = \<lparr>tm_begin = 3, tm_freq = 1\<rparr>\<rparr>" "still_clock 20"]
  by (fastforce simp: semu_timer_get_def semu_timer_clocksource_def still_clock_def)

text \<open>
  The two words of \<^verbatim>\<open>mtime\<close> are not independent: a store to one word takes the other
  word from the timer's start offset and not from the current time. With the clock standing at
  \<open>c\<close>, storing the low and then the high word leaves a low word that is computed from the
  offset, in general not the one stored.
\<close>

theorem mtime_write_uses_offset:
  assumes "\<not> boot_complete clk" "\<And>i. boot_ticks clk i = c"
  shows "\<exists>clk'. do { (m1, clk1, h1) \<leftarrow> aclint_mtimer_write m clk 0x7FF8 RV_MEM_SW lo h;
           (m2, clk2, h2) \<leftarrow> aclint_mtimer_write m1 clk1 0x7FFC RV_MEM_SW hi h1;
           aclint_mtimer_read m2 clk2 0x7FF8 RV_MEM_LW v h2 } =
         Some (half64 0x7FF8 (c - set_half64 0x7FF8 lo (tm_begin (mtime m))), clk', h)"
  using assms
  by (simp add: aclint_mtimer_write_def aclint_mtimer_read_def aclint_mtimer_reg_write_def
      aclint_mtimer_reg_read_def width_shift_def semu_timer_rebase_def semu_timer_get_def
      semu_timer_clocksource_def half_set_half Let_def)

theorem mtime_write_uses_offset_witness:
  "\<forall>h. \<exists>clk'. do { (m1, clk1, h1) \<leftarrow> aclint_mtimer_write
             \<lparr>mtimecmp = (\<lambda>i. 7), mtimer_n_hart = 4, mtime = \<lparr>tm_begin = 0, tm_freq = 1\<rparr>\<rparr>
             (still_clock 0) 0x7FF8 RV_MEM_SW 5 h;
           (m2, clk2, h2) \<leftarrow> aclint_mtimer_write m1 clk1 0x7FFC RV_MEM_SW 0 h1;
           aclint_mtimer_read m2 clk2 0x7FF8 RV_MEM_LW 0 h2 } = Some (0xFFFFFFFB, clk', h)"
proof -
  have "half64 0x7FF8 (0 - set_half64 0x7FF8 5 0) = 0xFFFFFFFB"
    by (simp add: half64_def set_half64_def)
  then show ?thesis
    using mtime_write_uses_offset [of "still_clock 0" 0
      "\<lparr>mtimecmp = (\<lambda>i. 7), mtimer_n_hart = 4, mtime = \<lparr>tm_begin = 0, tm_freq = 1\<rparr>\<rparr>" 5 _ 0]
    by (simp add: still_clock_def)
qed

end
