(* ===== verification/Plic.thy ===== *)
theory Plic
  imports Device
begin

text \<open>
  The platform interrupt controller of \<^verbatim>\<open>src/plic.c\<close>: 32 level-triggered sources without
  priorities, 32 contexts. A source whose line is active becomes pending once and is then
  masked until its completion.
\<close>

section \<open>State and operations\<close>

record plic_state_t =
  masked :: u32
  ip :: u32
  ie :: "u32 \<Rightarrow> u32"
  active :: u32

abbreviation (input) N_CONTEXTS :: u32 where "N_CONTEXTS \<equiv> 32"

text \<open>The enable array has 32 entries: the loop over more harts would read past it.\<close>

definition plic_update_interrupts ::
  "u32 \<Rightarrow> (u32 \<Rightarrow> hart_t) \<Rightarrow> plic_state_t \<Rightarrow> ((u32 \<Rightarrow> hart_t) \<times> plic_state_t) option" where
  "plic_update_interrupts n harts plic =
     (let plic = plic\<lparr>ip := ip plic OR (active plic AND NOT (masked plic))\<rparr>;
          plic = plic\<lparr>masked := masked plic OR active plic\<rparr>
      in if n \<le> N_CONTEXTS then
           Some (for_upto n
                   (\<lambda>i hs. hs(i := irq_line RV_INT_SEI_BIT (ip plic AND ie plic i \<noteq> 0) (hs i))) harts,
                 plic)
         else None)"

text \<open>The address decoding that \<^verbatim>\<open>plic_reg_read\<close> and \<^verbatim>\<open>plic_reg_write\<close> share.\<close>

definition plic_addr_mask :: "u32 \<Rightarrow> u32" where
  "plic_addr_mask addr = MASK (ilog2 addr) XOR (1 AND addr)"

definition plic_context :: "u32 \<Rightarrow> u32" where
  "plic_context addr =
     (let context = plic_addr_mask addr AND addr;
          f = builtin_ffs context
      in drop_bit (f - f mod 2) context)"

definition plic_reg_read :: "plic_state_t \<Rightarrow> u32 \<Rightarrow> u32 \<Rightarrow> (bool \<times> u32 \<times> plic_state_t) option" where
  "plic_reg_read plic addr val =
     (if 1 \<le> addr \<and> addr \<le> 31 then Some (True, val, plic)
      else if addr = 0x400 then Some (True, ip plic, plic)
      else
        (let context = plic_context addr;
             reg = addr AND NOT (plic_addr_mask addr)
         in if context \<ge> N_CONTEXTS then Some (False, val, plic)
            else if reg = 0x800 then Some (True, ie plic context, plic)
            else if reg = 0x80000 then Some (True, 0, plic)
            else if reg = 0x80001 then
              let candidates = ip plic AND ie plic context
              in if candidates \<noteq> 0 then
                   do { let v = word_of_nat (ilog2 candidates);
                        b \<leftarrow> shl_1 v;
                        Some (True, v, plic\<lparr>ip := ip plic AND NOT b\<rparr>) }
                 else Some (True, 0, plic)
            else Some (False, val, plic)))"

definition plic_reg_write :: "plic_state_t \<Rightarrow> u32 \<Rightarrow> u32 \<Rightarrow> (bool \<times> plic_state_t) option" where
  "plic_reg_write plic addr val =
     (if 1 \<le> addr \<and> addr \<le> 31 then Some (True, plic)
      else
        (let context = plic_context addr;
             reg = addr AND NOT (plic_addr_mask addr)
         in if context \<ge> N_CONTEXTS then Some (False, plic)
            else if reg = 0x800 then
              Some (True, plic\<lparr>ie := (ie plic)(context := val AND NOT 1)\<rparr>)
            else if reg = 0x80000 then Some (True, plic)
            else if reg = 0x80001 then
              do { b \<leftarrow> shl_1 val;
                   Some (True, if ie plic context AND b \<noteq> 0
                               then plic\<lparr>masked := masked plic AND NOT b\<rparr> else plic) }
            else Some (False, plic)))"

definition plic_read ::
  "plic_state_t \<Rightarrow> u32 \<Rightarrow> u8 \<Rightarrow> u32 \<Rightarrow> hart_t \<Rightarrow> (u32 \<times> plic_state_t \<times> hart_t) option" where
  "plic_read plic addr width val h =
     (if width = RV_MEM_LW then
        do { (ok, v, plic) \<leftarrow> plic_reg_read plic (drop_bit 2 addr) val;
             Some (v, plic, if ok then h else vm_set_exception RV_EXC_LOAD_FAULT (exc_val h) h) }
      else if width \<in> {RV_MEM_LBU, RV_MEM_LB, RV_MEM_LHU, RV_MEM_LH} then
        Some (val, plic, vm_set_exception RV_EXC_LOAD_MISALIGN (exc_val h) h)
      else Some (val, plic, vm_set_exception RV_EXC_ILLEGAL_INSN 0 h))"

definition plic_write ::
  "plic_state_t \<Rightarrow> u32 \<Rightarrow> u8 \<Rightarrow> u32 \<Rightarrow> hart_t \<Rightarrow> (plic_state_t \<times> hart_t) option" where
  "plic_write plic addr width val h =
     (if width = RV_MEM_SW then
        do { (ok, plic) \<leftarrow> plic_reg_write plic (drop_bit 2 addr) val;
             Some (plic, if ok then h else vm_set_exception RV_EXC_STORE_FAULT (exc_val h) h) }
      else if width \<in> {RV_MEM_SB, RV_MEM_SH} then
        Some (plic, vm_set_exception RV_EXC_STORE_MISALIGN (exc_val h) h)
      else Some (plic, vm_set_exception RV_EXC_ILLEGAL_INSN 0 h))"

section \<open>Lemmas\<close>

interpretation plic: mmio_device plic_read plic_write active
  by unfold_locales
    (auto simp: plic_read_def plic_write_def plic_reg_read_def plic_reg_write_def Let_def
      split: bind_splits if_splits)

lemma plic_regs_0:
  "plic_context 0x800 = 0" "plic_addr_mask 0x800 = 0x7FF"
  "plic_context 0x80001 = 0" "plic_addr_mask 0x80001 = 0x7FFFE"
  by code_simp+

lemma shl_1_index: "n < 32 \<Longrightarrow> shl_1 (word_of_nat n) = Some (push_bit n 1)"
  by (simp add: shl_1_def word_less_nat_alt unat_index)

lemma bit_shl_1: "shl_1 v = Some b \<Longrightarrow> bit b n \<longleftrightarrow> n = unat v \<and> v < 32"
  by (auto simp: shl_1_def bit_simps word_less_nat_alt split: if_splits)

lemma claim_word:
  assumes "candidates \<noteq> 0"
  shows "shl_1 (word_of_nat (ilog2 candidates)) = Some (push_bit (ilog2 candidates) 1)"
  using ilog2_highest(1) [OF assms] by (rule shl_1_index)

lemma for_harts_SEI:
  "for_upto n (\<lambda>i hs. hs(i := irq_line RV_INT_SEI_BIT (p i) (hs i))) harts =
     (\<lambda>i. if i < n then irq_line RV_INT_SEI_BIT (p i) (harts i) else harts i)"
  by (rule for_upto_pointwise [where f = "\<lambda>i. irq_line RV_INT_SEI_BIT (p i)"])

text \<open>What the environment and the guest do to the controller, as a sequence of events.\<close>

datatype plic_event =
    Lines u32 "u32 \<Rightarrow> hart_t"
  | Read u32 u8 u32 hart_t
  | Write u32 u8 u32 hart_t

fun plic_do :: "u32 \<Rightarrow> plic_event \<Rightarrow> plic_state_t \<Rightarrow> plic_state_t option" where
  "plic_do n (Lines levels harts) plic =
     map_option snd (plic_update_interrupts n harts (plic\<lparr>active := levels\<rparr>))"
| "plic_do n (Read addr width val h) plic =
     map_option (\<lambda>(v, plic, h). plic) (plic_read plic addr width val h)"
| "plic_do n (Write addr width val h) plic = map_option fst (plic_write plic addr width val h)"

fun plic_run :: "u32 \<Rightarrow> plic_event list \<Rightarrow> plic_state_t \<Rightarrow> plic_state_t option" where
  "plic_run n [] plic = Some plic"
| "plic_run n (e # es) plic = do { plic' \<leftarrow> plic_do n e plic; plic_run n es plic' }"

definition completes :: "nat \<Rightarrow> plic_event \<Rightarrow> bool" where
  "completes src e =
     (case e of Write addr width val h \<Rightarrow>
        width = RV_MEM_SW \<and> unat val = src \<and>
        drop_bit 2 addr AND NOT (plic_addr_mask (drop_bit 2 addr)) = 0x80001
      | _ \<Rightarrow> False)"

definition in_service :: "nat \<Rightarrow> plic_state_t \<Rightarrow> bool" where
  "in_service src plic \<longleftrightarrow> bit (masked plic) src \<and> \<not> bit (ip plic) src"

lemma in_service_event:
  assumes "in_service src plic" "\<not> completes src e" "plic_do n e plic = Some plic'" "src < 32"
  shows "in_service src plic'"
proof (cases e)
  case (Lines levels harts)
  then show ?thesis
    using assms by (auto simp: plic_update_interrupts_def in_service_def bit_simps Let_def
        split: if_splits)
next
  case (Read addr width val h)
  then show ?thesis
    using assms by (auto simp: plic_read_def plic_reg_read_def in_service_def bit_simps Let_def
        claim_word split: if_splits bind_splits)
next
  case (Write addr width val h)
  then show ?thesis
    using assms
    by (auto simp: plic_write_def plic_reg_write_def in_service_def bit_simps Let_def completes_def
        bit_shl_1 split: if_splits bind_splits)
qed

lemma claim_addr:
  assumes "(w :: u32) AND NOT m = 0x80001"
  shows "\<not> w \<le> 31" "w \<noteq> 0x400"
proof -
  have "bit (w AND NOT m) 19" using assms by simp
  then have "bit w 19" by (simp add: bit_simps)
  then have "\<not> unat w < 32" "w \<noteq> 0x400"
    using word_less_2p_not_bit [of w 5 19] by (auto simp: word_less_nat_alt)
  then show "\<not> w \<le> 31" "w \<noteq> 0x400" by (simp_all add: word_le_nat_alt)
qed

section \<open>Properties\<close>

text \<open>
  C32: A claim returns the highest-numbered source that is both pending and enabled for the
  context and clears exactly its pending bit; with no such source it returns 0 and changes
  nothing. A claim never raises an exception.
\<close>

theorem plic_claim_highest:
  assumes "drop_bit 2 addr AND NOT (plic_addr_mask (drop_bit 2 addr)) = 0x80001"
    and "plic_context (drop_bit 2 addr) = c" "c < 32"
  shows "if ip plic AND ie plic c = 0 then plic_read plic addr RV_MEM_LW v h = Some (0, plic, h)
     else \<exists>s<32. bit (ip plic AND ie plic c) s \<and> (\<forall>k>s. \<not> bit (ip plic AND ie plic c) k) \<and>
       plic_read plic addr RV_MEM_LW v h =
         Some (word_of_nat s, plic\<lparr>ip := ip plic AND NOT (push_bit s 1)\<rparr>, h)"
proof -
  have "\<not> drop_bit 2 addr \<le> 31" "drop_bit 2 addr \<noteq> 0x400"
    using claim_addr [OF assms(1)] by auto
  then show ?thesis
    using assms ilog2_highest [of "ip plic AND ie plic c"]
    by (auto simp: plic_read_def plic_reg_read_def Let_def claim_word not_le
        intro!: exI [of _ "ilog2 (ip plic AND ie plic c)"])
qed

theorem plic_claim_highest_witness:
  "\<exists>s<32. bit (0x0A :: u32) s \<and> (\<forall>k>s. \<not> bit (0x0A :: u32) k) \<and>
     plic_read \<lparr>masked = 0xFF, ip = 0x8A, ie = (\<lambda>_. 0x1E), active = 0xFF\<rparr> 0x200004 RV_MEM_LW 0 zero_hart =
       Some (word_of_nat s,
         \<lparr>masked = 0xFF, ip = 0x8A AND NOT (push_bit s 1), ie = (\<lambda>_. 0x1E), active = 0xFF\<rparr>, zero_hart)"
proof -
  have "drop_bit 2 0x200004 AND NOT (plic_addr_mask (drop_bit 2 0x200004)) = 0x80001"
    "plic_context (drop_bit 2 0x200004) = 0"
    by (simp_all add: plic_regs_0)
  from plic_claim_highest [OF this, of "\<lparr>masked = 0xFF, ip = 0x8A, ie = (\<lambda>_. 0x1E), active = 0xFF\<rparr>" 0 zero_hart]
  show ?thesis by simp
qed

text \<open>
  C26: An interrupt in service is not delivered again: once a source is claimed (masked and not
  pending), no sequence of line changes, reads and writes of any harts other than a completion
  of that very source makes it pending again.
\<close>

theorem plic_in_service_until_complete:
  assumes "plic_run n es plic = Some plic'" "in_service src plic" "src < 32"
    and "\<forall>e \<in> set es. \<not> completes src e"
  shows "in_service src plic'"
  using assms
proof (induction es arbitrary: plic)
  case Nil
  then show ?case by simp
next
  case (Cons e es)
  then show ?case by (auto split: bind_splits intro: in_service_event)
qed

theorem plic_in_service_until_complete_witness:
  "\<exists>plic'. plic_run 1 [Lines 0x2 (\<lambda>_. zero_hart), Read 0x200004 RV_MEM_LW 0 zero_hart,
                  Write 0x200004 RV_MEM_SW 3 zero_hart]
     \<lparr>masked = 0x2, ip = 0, ie = (\<lambda>_. 0x1E), active = 0x2\<rparr> = Some plic' \<and> in_service 1 plic'"
proof -
  let ?es = "[Lines 0x2 (\<lambda>_. zero_hart), Read 0x200004 RV_MEM_LW 0 zero_hart,
    Write 0x200004 RV_MEM_SW 3 zero_hart]"
  let ?p = "\<lparr>masked = 0x2, ip = 0, ie = (\<lambda>_. 0x1E), active = 0x2\<rparr>"
  obtain plic' where "plic_run 1 ?es ?p = Some plic'"
    by (simp add: plic_update_interrupts_def plic_read_def plic_reg_read_def plic_write_def
        plic_reg_write_def plic_regs_0 shl_1_def)
  moreover from this have "in_service 1 plic'"
    by (rule plic_in_service_until_complete) (simp_all add: in_service_def completes_def)
  ultimately show ?thesis by blast
qed

text \<open>
  After an update the external interrupt line of every hart is up exactly when a pending
  source is enabled for its context, where a source is pending if it was, or if its line is
  active and it was not masked; every active source is masked afterwards, and no other interrupt
  bit of any hart changes.
\<close>

theorem plic_external_lines:
  assumes "n \<le> 32"
  shows "\<exists>harts' plic'. plic_update_interrupts n harts plic = Some (harts', plic') \<and>
     (\<forall>s. bit (ip plic') s \<longleftrightarrow> bit (ip plic) s \<or> (bit (active plic) s \<and> \<not> bit (masked plic) s)) \<and>
     (\<forall>s. bit (masked plic') s \<longleftrightarrow> bit (masked plic) s \<or> bit (active plic) s) \<and>
     (\<forall>i k. bit (sip (harts' i)) k \<longleftrightarrow>
        (if i < n \<and> k = 9 then (\<exists>s. bit (ip plic') s \<and> bit (ie plic i) s) else bit (sip (harts i)) k))"
proof -
  have ex: "x AND y \<noteq> 0 \<longleftrightarrow> (\<exists>s. bit x s \<and> bit y s)" for x y :: u32
    by (auto simp: bit_eq_iff bit_simps intro: bit_imp_le_length [of x, simplified])
  show ?thesis
    using assms
    by (auto simp: plic_update_interrupts_def for_harts_SEI sip_lines ex bit_simps Let_def
        dest: bit_imp_le_length)
qed

theorem plic_external_lines_witness:
  "\<exists>harts' plic'. plic_update_interrupts 2 (\<lambda>_. zero_hart)
       \<lparr>masked = 0, ip = 0, ie = (\<lambda>i. if i = 1 then 0x8 else 0), active = 0x8\<rparr> = Some (harts', plic') \<and>
     bit (ip plic') 3 \<and> bit (sip (harts' 1)) 9 \<and> \<not> bit (sip (harts' 0)) 9"
proof -
  let ?p = "\<lparr>masked = 0, ip = 0, ie = (\<lambda>i. if i = 1 then 0x8 else 0), active = 0x8\<rparr>"
  obtain harts' plic' where "plic_update_interrupts 2 (\<lambda>_. zero_hart) ?p = Some (harts', plic')"
    and "\<forall>s. bit (ip plic') s \<longleftrightarrow> bit (ip ?p) s \<or> (bit (active ?p) s \<and> \<not> bit (masked ?p) s)"
    and "\<forall>i k. bit (sip (harts' i)) k \<longleftrightarrow>
        (if i < 2 \<and> k = 9 then (\<exists>s. bit (ip plic') s \<and> bit (ie ?p i) s) else bit (sip zero_hart) k)"
    using plic_external_lines [of 2 "\<lambda>_. zero_hart" ?p] by auto
  then show ?thesis by (auto intro!: exI [of _ 3])
qed

text \<open>
  The enable registers of different contexts are not kept apart. With the register layout
  that guests use (128 bytes of enables for each context), a store to the enable register of
  context 1 replaces the enables of context 0 and leaves those of context 1, and the claim
  register of context 2 claims for context 0.
\<close>

theorem plic_context_aliasing:
  "plic_write plic (0x2000 + 0x80) RV_MEM_SW v h = Some (plic\<lparr>ie := (ie plic)(0 := v AND NOT 1)\<rparr>, h) \<and>
   plic_read plic (0x200004 + 2 * 0x1000) RV_MEM_LW x h = plic_read plic 0x200004 RV_MEM_LW x h"
proof -
  have "plic_context 0x820 = 0" "plic_addr_mask 0x820 = 0x7FF"
    "plic_context 0x80801 = 0" "plic_addr_mask 0x80801 = 0x7FFFE"
    by code_simp+
  then show ?thesis
    by (simp add: plic_write_def plic_reg_write_def plic_read_def plic_reg_read_def plic_regs_0)
qed

end
