(* ===== verification/Uart.thy ===== *)
theory Uart
  imports Device "HOL-Library.Sublist"
begin

text \<open>
  The 8250 UART of \<^verbatim>\<open>src/uart.c\<close>. The host side is a record of what the system calls
  answer: \<^verbatim>\<open>poll\<close> with a zero timeout always answers, \<^verbatim>\<open>write\<close>, \<^verbatim>\<open>read\<close> and \<^verbatim>\<open>getchar\<close>
  may block, so their answers are finite scripts and an operation whose script has run out has
  no result. A hart that waits for input yields its coroutine; no other hart uses the UART while
  it waits, so the wait itself leaves the device as it was.
\<close>

section \<open>State\<close>

datatype write_result = Wrote nat | Interrupted | Failed

record host_t =
  write_results :: "write_result list"
  sent :: "u8 list"
  polls :: "nat \<Rightarrow> bool"
  n_polls :: nat
  read_results :: "u8 option list"
  getchars :: "int list"
  exited :: bool

record u8250_state_t =
  dll :: u8
  dlh :: u8
  lcr :: u8
  ier :: u8
  current_int :: u8
  pending_ints :: u8
  mcr :: u8
  in_ready :: bool
  out_buf :: "nat \<Rightarrow> u8"
  out_buf_len :: u8
  waiting_hart_id :: u32
  has_waiting_hart :: bool

abbreviation (input) OUT_BUF_SIZE :: nat where "OUT_BUF_SIZE \<equiv> 128"

section \<open>Operations\<close>

definition u8250_update_interrupts :: "u8250_state_t \<Rightarrow> u8250_state_t" where
  "u8250_update_interrupts uart =
     (let pend = (if in_ready uart then pending_ints uart OR 1 else pending_ints uart AND NOT 1);
          pend = pend AND ier uart
      in uart\<lparr>pending_ints := pend,
              current_int := if pend \<noteq> 0 then word_of_nat (ilog2 (ucast pend))
                             else current_int uart\<rparr>)"

definition u8250_check_ready :: "u8250_state_t \<Rightarrow> host_t \<Rightarrow> u8250_state_t \<times> host_t" where
  "u8250_check_ready uart host =
     (if in_ready uart then (uart, host)
      else (uart\<lparr>in_ready := polls host (n_polls host)\<rparr>, host\<lparr>n_polls := Suc (n_polls host)\<rparr>))"

text \<open>
  The loop of \<^verbatim>\<open>u8250_flush_out\<close>: bytes \<open>done\<close> to \<open>len\<close> of the buffer are still to be written.
  The result is the number of bytes written, the rest of the script and what the host received.
  The answer \<open>Wrote n\<close> is a host that can take \<open>n\<close> bytes: \<^verbatim>\<open>write\<close> returns at most the count it
  was asked for.
\<close>

fun flush_loop ::
  "u8 \<Rightarrow> (nat \<Rightarrow> u8) \<Rightarrow> u8 \<Rightarrow> write_result list \<Rightarrow> u8 list \<Rightarrow>
     (u8 \<times> write_result list \<times> u8 list) option" where
  "flush_loop len buf written rs out =
     (if written < len then
        (case rs of
           [] \<Rightarrow> None
         | Wrote m # rs' \<Rightarrow>
             let n = min m (unat (len - written))
             in if n = 0 then Some (written, rs', out)
                else flush_loop len buf (written + word_of_nat n) rs'
                       (out @ map buf [unat written..<unat written + n])
         | Interrupted # rs' \<Rightarrow> flush_loop len buf written rs' out
         | Failed # rs' \<Rightarrow> Some (written, rs', out))
      else Some (written, rs, out))"

definition u8250_flush_out :: "u8250_state_t \<Rightarrow> host_t \<Rightarrow> (u8250_state_t \<times> host_t) option" where
  "u8250_flush_out uart host =
     do { (written, rs, out) \<leftarrow>
            flush_loop (out_buf_len uart) (out_buf uart) 0 (write_results host) (sent host);
          let host = host\<lparr>write_results := rs, sent := out\<rparr>;
          Some (if written < out_buf_len uart then
                  let len = out_buf_len uart - written
                  in (uart\<lparr>out_buf_len := len,
                           out_buf := (\<lambda>i. if i < unat len then out_buf uart (i + unat written)
                                           else out_buf uart i)\<rparr>, host)
                else (uart\<lparr>out_buf_len := 0\<rparr>, host)) }"

definition flush_trigger :: "u8 \<Rightarrow> bool" where
  "flush_trigger v \<longleftrightarrow> v \<in> {0x0A, 0x0D, 0x3A, 0x23, 0x24}"

definition u8250_handle_out ::
  "u8250_state_t \<Rightarrow> host_t \<Rightarrow> u8 \<Rightarrow> (u8250_state_t \<times> host_t) option" where
  "u8250_handle_out uart host v =
     do { (uart, host) \<leftarrow> (if OUT_BUF_SIZE \<le> unat (out_buf_len uart)
                            then u8250_flush_out uart host else Some (uart, host));
          if OUT_BUF_SIZE \<le> unat (out_buf_len uart) then Some (uart, host)
          else
            let uart = uart\<lparr>out_buf := (out_buf uart)(unat (out_buf_len uart) := v),
                            out_buf_len := out_buf_len uart + 1\<rparr>
            in if flush_trigger v then u8250_flush_out uart host else Some (uart, host) }"

definition u8250_wait_for_input :: "u32 \<Rightarrow> u8250_state_t \<Rightarrow> u8250_state_t" where
  "u8250_wait_for_input hart_id uart =
     (if hart_id = 0xFFFFFFFF then uart
      else uart\<lparr>has_waiting_hart := False, waiting_hart_id := 0xFFFFFFFF\<rparr>)"

definition u8250_handle_in ::
  "u32 \<Rightarrow> u8250_state_t \<Rightarrow> host_t \<Rightarrow> (u8 \<times> u8250_state_t \<times> host_t) option" where
  "u8250_handle_in hart_id uart host =
     do { (uart, host) \<leftarrow> u8250_flush_out uart host;
          let (uart, host) = u8250_check_ready uart host;
          let (uart, host) = (if in_ready uart then (uart, host)
                              else u8250_check_ready (u8250_wait_for_input hart_id uart) host);
          if \<not> in_ready uart then Some (0, uart, host)
          else
            (case read_results host of
               [] \<Rightarrow> None
             | r # rs \<Rightarrow>
                 let v = (case r of None \<Rightarrow> 0 | Some b \<Rightarrow> b);
                     (uart, host) =
                       u8250_check_ready (uart\<lparr>in_ready := False\<rparr>) (host\<lparr>read_results := rs\<rparr>)
                 in if v = 1 then
                      (case getchars host of
                         [] \<Rightarrow> None
                       | c # cs \<Rightarrow>
                           Some (v, uart, host\<lparr>getchars := cs, exited := exited host \<or> c = 120\<rparr>))
                    else Some (v, uart, host)) }"

abbreviation (input) U8250_INT_THRE :: u8 where "U8250_INT_THRE \<equiv> 1"

definition u8250_reg_read ::
  "u32 \<Rightarrow> u8250_state_t \<Rightarrow> host_t \<Rightarrow> u32 \<Rightarrow> (u8 \<times> u8250_state_t \<times> host_t) option" where
  "u8250_reg_read hart_id uart host addr =
     (if addr = 0 then
        if bit (lcr uart) 7 then Some (dll uart, uart, host)
        else u8250_handle_in hart_id uart host
      else if addr = 1 then
        Some (if bit (lcr uart) 7 then dlh uart else ier uart, uart, host)
      else if addr = 2 then
        Some (push_bit 1 (current_int uart) OR (if pending_ints uart \<noteq> 0 then 0 else 1),
              if current_int uart = U8250_INT_THRE
              then uart\<lparr>pending_ints := pending_ints uart AND NOT 2\<rparr> else uart,
              host)
      else if addr = 3 then Some (lcr uart, uart, host)
      else if addr = 4 then Some (mcr uart, uart, host)
      else if addr = 5 then Some (0x60 OR (if in_ready uart then 1 else 0), uart, host)
      else if addr = 6 then Some (0xb0, uart, host)
      else Some (0, uart, host))"

definition u8250_reg_write ::
  "u8250_state_t \<Rightarrow> host_t \<Rightarrow> u32 \<Rightarrow> u8 \<Rightarrow> (u8250_state_t \<times> host_t) option" where
  "u8250_reg_write uart host addr v =
     (if addr = 0 then
        if bit (lcr uart) 7 then Some (uart\<lparr>dll := v\<rparr>, host)
        else do { (uart, host) \<leftarrow> u8250_handle_out uart host v;
                  Some (uart\<lparr>pending_ints := pending_ints uart OR 2\<rparr>, host) }
      else if addr = 1 then
        Some (if bit (lcr uart) 7 then uart\<lparr>dlh := v\<rparr> else uart\<lparr>ier := v\<rparr>, host)
      else if addr = 3 then Some (uart\<lparr>lcr := v\<rparr>, host)
      else if addr = 4 then Some (uart\<lparr>mcr := v\<rparr>, host)
      else Some (uart, host))"

definition u8250_read ::
  "u32 \<Rightarrow> u8250_state_t \<times> host_t \<Rightarrow> u32 \<Rightarrow> u8 \<Rightarrow> u32 \<Rightarrow> hart_t \<Rightarrow>
     (u32 \<times> (u8250_state_t \<times> host_t) \<times> hart_t) option" where
  "u8250_read hart_id uh addr width val h =
     (if width = RV_MEM_LBU then
        do { (v, uart, host) \<leftarrow> u8250_reg_read hart_id (fst uh) (snd uh) addr;
             Some (ucast v, (uart, host), h) }
      else if width = RV_MEM_LB then
        do { (v, uart, host) \<leftarrow> u8250_reg_read hart_id (fst uh) (snd uh) addr;
             Some (scast v, (uart, host), h) }
      else if width \<in> {RV_MEM_LW, RV_MEM_LHU, RV_MEM_LH} then
        Some (val, uh, vm_set_exception RV_EXC_LOAD_MISALIGN (exc_val h) h)
      else Some (val, uh, vm_set_exception RV_EXC_ILLEGAL_INSN 0 h))"

definition u8250_write ::
  "u8250_state_t \<times> host_t \<Rightarrow> u32 \<Rightarrow> u8 \<Rightarrow> u32 \<Rightarrow> hart_t \<Rightarrow>
     ((u8250_state_t \<times> host_t) \<times> hart_t) option" where
  "u8250_write uh addr width val h =
     (if width = RV_MEM_SB then
        do { (uart, host) \<leftarrow> u8250_reg_write (fst uh) (snd uh) addr (ucast val);
             Some ((uart, host), h) }
      else if width \<in> {RV_MEM_SW, RV_MEM_SH} then
        Some (uh, vm_set_exception RV_EXC_STORE_MISALIGN (exc_val h) h)
      else Some (uh, vm_set_exception RV_EXC_ILLEGAL_INSN 0 h))"

section \<open>Lemmas\<close>

declare flush_loop.simps [simp del]

lemma upt_join: "i \<le> j \<Longrightarrow> j \<le> k \<Longrightarrow> [i..<j] @ [j..<k] = [i..<k]"
  by (metis le_add_diff_inverse upt_add_eq_append)

lemma flush_loop_done: "\<not> written < len \<Longrightarrow> flush_loop len buf written rs out = Some (written, rs, out)"
  by (simp add: flush_loop.simps)

lemma flush_loop_step:
  assumes "written < len"
  shows "flush_loop len buf written [] out = None"
    "flush_loop len buf written (Interrupted # rs) out = flush_loop len buf written rs out"
    "flush_loop len buf written (Failed # rs) out = Some (written, rs, out)"
    "flush_loop len buf written (Wrote m # rs) out =
       (if min m (unat len - unat written) = 0 then Some (written, rs, out)
        else flush_loop len buf (written + word_of_nat (min m (unat len - unat written))) rs
               (out @ map buf [unat written..<unat written + min m (unat len - unat written)]))"
  using assms unat_sub [OF less_imp_le, OF assms]
  by (simp_all add: flush_loop.simps [of len buf written] Let_def)

text \<open>A flush sends a prefix of the buffered bytes, in order.\<close>

lemma flush_loop_prefix:
  assumes "flush_loop len buf written rs out = Some (written', rs', out')" "written \<le> len"
  shows "written \<le> written' \<and> written' \<le> len \<and> out' = out @ map buf [unat written..<unat written']"
  using assms
proof (induction rs arbitrary: written out)
  case Nil
  then show ?case by (cases "written < len") (simp_all add: flush_loop_done flush_loop_step)
next
  case (Cons r rs)
  show ?case
  proof (cases "written < len")
    case False
    with Cons.prems show ?thesis by (simp add: flush_loop_done)
  next
    case less: True
    show ?thesis
    proof (cases r)
      case (Wrote m)
      define n where "n = min m (unat len - unat written)"
      have n: "unat written + n \<le> unat len"
        using less by (simp add: n_def word_less_nat_alt)
      then have w: "unat (written + word_of_nat n) = unat written + n"
        using unsigned_less [of len, where ?'a = nat] by (simp add: unat_word_ariths unat_of_nat)
      show ?thesis
      proof (cases "n = 0")
        case True
        then show ?thesis
          using Cons.prems less by (simp add: Wrote flush_loop_step n_def [symmetric])
      next
        case False
        then have "flush_loop len buf (written + word_of_nat n) rs
            (out @ map buf [unat written..<unat written + n]) = Some (written', rs', out')"
          using Cons.prems less by (simp add: Wrote flush_loop_step n_def [symmetric])
        from Cons.IH [OF this] n w show ?thesis
          by (auto simp: word_le_nat_alt upt_join simp flip: map_append)
      qed
    qed (use Cons less in \<open>simp_all add: flush_loop_step\<close>)
  qed
qed

definition uart_stream :: "u8250_state_t \<Rightarrow> host_t \<Rightarrow> u8 list" where
  "uart_stream uart host = sent host @ map (out_buf uart) [0..<unat (out_buf_len uart)]"

lemma flush_out_stream:
  assumes "u8250_flush_out uart host = Some (uart', host')"
  shows "uart_stream uart' host' = uart_stream uart host" "out_buf_len uart' \<le> out_buf_len uart"
proof -
  obtain written rs out where
    loop: "flush_loop (out_buf_len uart) (out_buf uart) 0 (write_results host) (sent host)
             = Some (written, rs, out)"
    using assms by (auto simp: u8250_flush_out_def split: bind_splits)
  note prefix = flush_loop_prefix [OF loop, simplified]
  let ?l = "unat (out_buf_len uart)" and ?w = "unat written"
  have w: "?w \<le> ?l" and out: "out = sent host @ map (out_buf uart) [0..<?w]"
    using prefix by (simp_all add: word_le_nat_alt)
  have len: "unat (out_buf_len uart - written) = ?l - ?w"
    using prefix by (simp add: unat_sub)
  have split: "map (out_buf uart) [0..<?l] =
      map (out_buf uart) [0..<?w] @ map (\<lambda>i. out_buf uart (i + ?w)) [0..<?l - ?w]"
    using w by (intro nth_equalityI) (auto simp: nth_append)
  have "uart_stream uart' host' = uart_stream uart host \<and> out_buf_len uart' \<le> out_buf_len uart"
  proof (cases "written < out_buf_len uart")
    case True
    then have "uart' = uart\<lparr>out_buf_len := out_buf_len uart - written,
        out_buf := (\<lambda>i. if i < ?l - ?w then out_buf uart (i + ?w) else out_buf uart i)\<rparr>"
      "sent host' = out"
      using assms loop len by (auto simp: u8250_flush_out_def Let_def)
    then show ?thesis
      unfolding uart_stream_def split by (simp add: len out word_le_nat_alt)
  next
    case False
    then have "uart' = uart\<lparr>out_buf_len := 0\<rparr>" "sent host' = out" "?w = ?l"
      using assms loop w by (auto simp: u8250_flush_out_def Let_def word_less_nat_alt)
    then show ?thesis by (simp add: uart_stream_def out)
  qed
  then show "uart_stream uart' host' = uart_stream uart host" "out_buf_len uart' \<le> out_buf_len uart"
    by simp_all
qed

text \<open>The buffer never overflows, and bytes once accepted are never lost or reordered.\<close>

definition uart_ok :: "u8250_state_t \<Rightarrow> bool" where
  "uart_ok uart \<longleftrightarrow> unat (out_buf_len uart) \<le> OUT_BUF_SIZE"

definition uart_grows :: "u8250_state_t \<times> host_t \<Rightarrow> u8250_state_t \<times> host_t \<Rightarrow> bool" where
  "uart_grows s s' \<longleftrightarrow>
     (uart_ok (fst s) \<longrightarrow> uart_ok (fst s') \<and>
        prefix (uart_stream (fst s) (snd s)) (uart_stream (fst s') (snd s')))"

lemma uart_grows_refl [simp]: "uart_grows s s"
  by (simp add: uart_grows_def)

lemma uart_grows_trans: "uart_grows s s' \<Longrightarrow> uart_grows s' s'' \<Longrightarrow> uart_grows s s''"
  by (auto simp: uart_grows_def)

lemma uart_grows_same:
  "out_buf uart' = out_buf uart \<Longrightarrow> out_buf_len uart' = out_buf_len uart \<Longrightarrow> sent host' = sent host \<Longrightarrow>
   uart_grows (uart, host) (uart', host')"
  by (simp add: uart_grows_def uart_ok_def uart_stream_def)

lemma flush_out_grows:
  "u8250_flush_out uart host = Some (uart', host') \<Longrightarrow> uart_grows (uart, host) (uart', host')"
  by (auto simp: uart_grows_def uart_ok_def flush_out_stream(1) word_le_nat_alt
      dest: flush_out_stream(2))

lemma handle_out_stream:
  assumes "u8250_handle_out uart host v = Some (uart', host')" "uart_ok uart"
  shows "uart_ok uart' \<and>
    (uart_stream uart' host' = uart_stream uart host @ [v] \<or>
     out_buf_len uart' = 128 \<and> uart_stream uart' host' = uart_stream uart host)"
proof -
  obtain u1 h1 where flush:
    "(if OUT_BUF_SIZE \<le> unat (out_buf_len uart) then u8250_flush_out uart host else Some (uart, host))
       = Some (u1, h1)"
    using assms by (auto simp: u8250_handle_out_def split: bind_splits)
  then have u1: "uart_ok u1" "uart_stream u1 h1 = uart_stream uart host"
    using assms(2) flush_out_grows [of uart host u1 h1] flush_out_stream(1) [of uart host u1 h1]
    by (auto simp: uart_grows_def split: if_splits)
  show ?thesis
  proof (cases "OUT_BUF_SIZE \<le> unat (out_buf_len u1)")
    case True
    then have "out_buf_len u1 = 128"
      using u1(1) by (simp add: uart_ok_def word_unat_eq_iff)
    then show ?thesis using True assms flush u1 by (auto simp: u8250_handle_out_def)
  next
    case False
    define u2 where "u2 = u1\<lparr>out_buf := (out_buf u1)(unat (out_buf_len u1) := v),
      out_buf_len := out_buf_len u1 + 1\<rparr>"
    have "unat (out_buf_len u1 + 1) = unat (out_buf_len u1) + 1"
      using False by (simp add: unat_word_ariths)
    then have u2: "uart_ok u2" "uart_stream u2 h1 = uart_stream uart host @ [v]"
      using False u1 by (simp_all add: u2_def uart_ok_def uart_stream_def)
    have "(if flush_trigger v then u8250_flush_out u2 h1 else Some (u2, h1)) = Some (uart', host')"
      using assms(1) False flush by (simp add: u8250_handle_out_def u2_def Let_def split: if_splits)
    then show ?thesis
      using u2 flush_out_grows [of u2 h1 uart' host'] flush_out_stream(1) [of u2 h1 uart' host']
      by (auto simp: uart_grows_def split: if_splits)
  qed
qed

lemma handle_out_grows:
  "u8250_handle_out uart host v = Some (uart', host') \<Longrightarrow> uart_grows (uart, host) (uart', host')"
  using handle_out_stream [of uart host v uart' host'] by (auto simp: uart_grows_def)

lemma check_ready_grows:
  "u8250_check_ready uart host = (uart', host') \<Longrightarrow> uart_grows (uart, host) (uart', host')"
  by (auto simp: u8250_check_ready_def intro: uart_grows_same split: if_splits)

lemma wait_for_input_same:
  "out_buf (u8250_wait_for_input i uart) = out_buf uart"
  "out_buf_len (u8250_wait_for_input i uart) = out_buf_len uart"
  by (simp_all add: u8250_wait_for_input_def)

lemma handle_in_grows:
  assumes "u8250_handle_in i uart host = Some (v, uart', host')"
  shows "uart_grows (uart, host) (uart', host')"
proof -
  obtain u1 h1 u2 h2 u3 h3 where
    step: "u8250_flush_out uart host = Some (u1, h1)" "u8250_check_ready u1 h1 = (u2, h2)"
    "(if in_ready u2 then (u2, h2) else u8250_check_ready (u8250_wait_for_input i u2) h2) = (u3, h3)"
    using assms by (auto simp: u8250_handle_in_def split: bind_splits) (metis surj_pair)
  have "uart_grows (u2, h2) (u3, h3)"
    using step(3) check_ready_grows [of "u8250_wait_for_input i u2" h2 u3 h3]
    by (auto simp: uart_grows_def uart_ok_def uart_stream_def wait_for_input_same split: if_splits)
  with step have first: "uart_grows (uart, host) (u3, h3)"
    by (meson flush_out_grows check_ready_grows uart_grows_trans)
  have "uart_grows (u3, h3) (uart', host')"
    using assms step
    by (auto simp: u8250_handle_in_def u8250_check_ready_def Let_def
        intro!: uart_grows_same split: if_splits list.splits option.splits)
  with first show ?thesis by (rule uart_grows_trans)
qed

lemma read_grows:
  "u8250_read i s addr width val h = Some (v, s', h') \<Longrightarrow> uart_grows s s'"
  by (cases s) (auto simp: u8250_read_def u8250_reg_read_def
      intro: uart_grows_same handle_in_grows split: bind_splits if_splits)

lemma reg_write_grows:
  assumes "u8250_reg_write uart host addr v = Some (uart', host')"
  shows "uart_grows (uart, host) (uart', host')"
proof (cases "addr = 0 \<and> \<not> bit (lcr uart) 7")
  case True
  then obtain u1 where u1: "u8250_handle_out uart host v = Some (u1, host')"
    "uart' = u1\<lparr>pending_ints := pending_ints u1 OR 2\<rparr>"
    using assms by (auto simp: u8250_reg_write_def split: bind_splits)
  show ?thesis
    using handle_out_grows [OF u1(1)] by (simp add: u1(2) uart_grows_def uart_ok_def uart_stream_def)
next
  case False
  then show ?thesis
    using assms by (auto simp: u8250_reg_write_def intro!: uart_grows_same split: if_splits)
qed

lemma write_grows:
  "u8250_write s addr width val h = Some (s', h') \<Longrightarrow> uart_grows s s'"
  by (cases s; cases s') (auto simp: u8250_write_def dest!: reg_write_grows split: bind_splits if_splits)

lemma flush_out_polls: "u8250_flush_out uart host = Some (uart', host') \<Longrightarrow> polls host' = polls host"
  by (auto simp: u8250_flush_out_def Let_def split: bind_splits if_splits)

lemma handle_in_polls:
  "u8250_handle_in i uart host = Some (v, uart', host') \<Longrightarrow> polls host' = polls host"
  by (auto simp: u8250_handle_in_def u8250_check_ready_def Let_def
      dest!: flush_out_polls split: bind_splits if_splits list.splits)

lemma handle_out_polls:
  "u8250_handle_out uart host v = Some (uart', host') \<Longrightarrow> polls host' = polls host"
  by (auto simp: u8250_handle_out_def Let_def dest!: flush_out_polls split: bind_splits if_splits)

interpretation u8250: mmio_device "u8250_read i" u8250_write "\<lambda>s. polls (snd s)"
  by unfold_locales
    (auto simp: u8250_read_def u8250_write_def u8250_reg_read_def u8250_reg_write_def
      dest: handle_in_polls handle_out_polls split: bind_splits if_splits)

lemma run_grows:
  "run_accesses (u8250_read i) u8250_write as s h = Some (s', h') \<Longrightarrow> uart_grows s s'"
proof (induction as arbitrary: s h)
  case Nil
  then show ?case by simp
next
  case (Cons a as)
  then show ?case
    by (cases a) (auto dest!: read_grows write_grows Cons.IH split: bind_splits intro: uart_grows_trans)
qed

section \<open>Properties\<close>


definition uart_example :: u8250_state_t where
  "uart_example = \<lparr>dll = 0, dlh = 0, lcr = 0, ier = 0, current_int = 0, pending_ints = 0, mcr = 0,
     in_ready = False, out_buf = (\<lambda>_. 0)(0 := 0x48), out_buf_len = 1, waiting_hart_id = 0,
     has_waiting_hart = False\<rparr>"

definition host_example :: host_t where
  "host_example = \<lparr>write_results = [Interrupted, Wrote 1, Wrote 5], sent = [], polls = (\<lambda>_. False),
     n_polls = 0, read_results = [], getchars = [], exited = False\<rparr>"


text \<open>
  No sequence of guest reads and writes of the UART loses or reorders a byte it has
  accepted, overruns the output buffer, or changes anything of the hart but a raised exception.
\<close>

theorem uart_accesses_keep_output:
  assumes "run_accesses (u8250_read i) u8250_write as (uart, host) h = Some ((uart', host'), h')"
    and "uart_ok uart"
  shows "uart_ok uart' \<and> prefix (uart_stream uart host) (uart_stream uart' host') \<and> raises h h'"
  using run_grows [OF assms(1)] u8250.accesses_raise [OF assms(1)] assms(2)
  by (simp add: uart_grows_def)

theorem uart_accesses_keep_output_witness:
  "\<exists>uart' host' h'. run_accesses (u8250_read 0) u8250_write
       [Store 0 RV_MEM_SB 0x0A, Load 5 RV_MEM_LBU 0, Store 1 RV_MEM_SW 3]
       (uart_example, host_example) zero_hart = Some ((uart', host'), h') \<and>
     prefix (uart_stream uart_example host_example) (uart_stream uart' host')"
proof -
  let ?as = "[Store 0 RV_MEM_SB 0x0A, Load 5 RV_MEM_LBU 0, Store 1 RV_MEM_SW 3]"
  obtain uart' host' h' where run: "run_accesses (u8250_read 0) u8250_write ?as
       (uart_example, host_example) zero_hart = Some ((uart', host'), h')"
    by (simp add: u8250_write_def u8250_reg_write_def u8250_handle_out_def u8250_flush_out_def
        u8250_read_def u8250_reg_read_def
        flush_trigger_def flush_loop_step flush_loop_done uart_example_def host_example_def)
  show ?thesis
    using uart_accesses_keep_output [OF run] run by (auto simp: uart_ok_def uart_example_def)
qed

text \<open>
  After an update the pending interrupts are the receive-ready bit and the remembered ones,
  restricted to the enabled ones, and the identification register names the highest of them.
\<close>

theorem uart_interrupt_identification:
  fixes uart
  defines "u \<equiv> u8250_update_interrupts uart"
  shows "(\<forall>k. bit (pending_ints u) k \<longleftrightarrow>
      bit (ier uart) k \<and> (if k = 0 then in_ready uart else bit (pending_ints uart) k)) \<and>
    (pending_ints u \<noteq> 0 \<longrightarrow>
      (\<exists>k<8. current_int u = word_of_nat k \<and> bit (pending_ints u) k \<and>
        (\<forall>j>k. \<not> bit (pending_ints u) j)))"
proof (intro conjI allI impI)
  show "bit (pending_ints u) k \<longleftrightarrow>
      bit (ier uart) k \<and> (if k = 0 then in_ready uart else bit (pending_ints uart) k)" for k
    by (auto simp: u_def u8250_update_interrupts_def Let_def bit_simps dest: bit_imp_le_length)
  assume nz: "pending_ints u \<noteq> 0"
  let ?p = "ucast (pending_ints u) :: u32"
  obtain j where "bit (pending_ints u) j" using nz by (auto simp: bit_eq_iff)
  then have "bit ?p j" by (auto simp: bit_simps dest: bit_imp_le_length)
  then have "?p \<noteq> 0" by auto
  note high = ilog2_highest [OF this]
  have "ilog2 ?p < 8" using high(2) by (auto simp: bit_simps dest: bit_imp_le_length)
  moreover have "current_int u = word_of_nat (ilog2 ?p)"
    using nz by (auto simp: u_def u8250_update_interrupts_def Let_def)
  moreover have "bit (pending_ints u) (ilog2 ?p)" "\<forall>j>ilog2 ?p. \<not> bit (pending_ints u) j"
    using high bit_imp_le_length [of "pending_ints u"] by (force simp: bit_simps)+
  ultimately show "\<exists>k<8. current_int u = word_of_nat k \<and> bit (pending_ints u) k \<and>
        (\<forall>j>k. \<not> bit (pending_ints u) j)"
    by blast
qed

theorem uart_interrupt_identification_witness:
  "let u = u8250_update_interrupts (uart_example\<lparr>ier := 3, pending_ints := 2, in_ready := True\<rparr>) in
   pending_ints u \<noteq> 0 \<and>
   (\<exists>k<8. current_int u = word_of_nat k \<and> bit (pending_ints u) k \<and>
     (\<forall>j>k. \<not> bit (pending_ints u) j))"
proof -
  let ?u = "u8250_update_interrupts (uart_example\<lparr>ier := 3, pending_ints := 2, in_ready := True\<rparr>)"
  have "pending_ints ?u \<noteq> 0" by (simp add: u8250_update_interrupts_def)
  then show ?thesis
    unfolding Let_def
    using uart_interrupt_identification [of "uart_example\<lparr>ier := 3, pending_ints := 2, in_ready := True\<rparr>"]
    by blast
qed

end
