(* ===== verification/Ram.thy ===== *)
theory Ram
  imports Hart
begin

text \<open>
  Guest RAM (\<^verbatim>\<open>src/ram.c\<close>): an array of 32-bit words that the guest reads and writes in
  bytes, halfwords and words. The array is a function from word index to word; \<^verbatim>\<open>ram_cell\<close>
  is its only reader and refuses an index outside the \<^verbatim>\<open>RAM_SIZE / 4\<close> words that
  \<^verbatim>\<open>semu_init\<close> allocates. The lemmas show that the word operations implement a
  little-endian byte memory.
\<close>

section \<open>Operations\<close>

type_synonym ram = "u32 \<Rightarrow> u32"

definition ram_cell :: "ram \<Rightarrow> u32 \<Rightarrow> u32 option" where
  "ram_cell mem i = (if i < RAM_WORDS then Some (mem i) else None)"

text \<open>
  The macro \<^verbatim>\<open>RAM_FUNC(width, code)\<close>: \<open>code\<close> sees the cell and the bit offset; \<open>dflt\<close> is what
  the target of \<open>code\<close> holds when the macro breaks out with an exception.
\<close>

definition RAM_FUNC ::
  "u32 \<Rightarrow> ram \<Rightarrow> u32 \<Rightarrow> u32 \<Rightarrow> 'a \<Rightarrow> (u32 \<Rightarrow> nat \<Rightarrow> 'a) \<Rightarrow> hart_t \<Rightarrow> ('a \<times> hart_t) option" where
  "RAM_FUNC cause mem addr wd dflt code h =
     (if addr AND (wd - 1) \<noteq> 0 then Some (dflt, vm_set_exception cause (exc_val h) h)
      else
        (let offset = unat (addr AND 0b11) * 8
         in do { cell \<leftarrow> ram_cell mem (drop_bit 2 addr); Some (code cell offset, h) }))"

definition ram_read :: "ram \<Rightarrow> u32 \<Rightarrow> u8 \<Rightarrow> u32 \<Rightarrow> hart_t \<Rightarrow> (u32 \<times> hart_t) option" where
  "ram_read mem addr width val h =
     (let exc_cause = RV_EXC_LOAD_MISALIGN
      in if width = RV_MEM_LW then RAM_FUNC exc_cause mem addr 4 val (\<lambda>cell offset. cell) h
         else if width = RV_MEM_LHU then
           RAM_FUNC exc_cause mem addr 2 val
             (\<lambda>cell offset. ucast (ucast (drop_bit offset cell) :: u16)) h
         else if width = RV_MEM_LH then
           RAM_FUNC exc_cause mem addr 2 val
             (\<lambda>cell offset. scast (ucast (drop_bit offset cell) :: u16)) h
         else if width = RV_MEM_LBU then
           RAM_FUNC exc_cause mem addr 1 val
             (\<lambda>cell offset. ucast (ucast (drop_bit offset cell) :: u8)) h
         else if width = RV_MEM_LB then
           RAM_FUNC exc_cause mem addr 1 val
             (\<lambda>cell offset. scast (ucast (drop_bit offset cell) :: u8)) h
         else Some (val, vm_set_exception RV_EXC_ILLEGAL_INSN 0 h))"

definition ram_write :: "ram \<Rightarrow> u32 \<Rightarrow> u8 \<Rightarrow> u32 \<Rightarrow> hart_t \<Rightarrow> (ram \<times> hart_t) option" where
  "ram_write mem addr width val h =
     (let exc_cause = RV_EXC_STORE_MISALIGN; i = drop_bit 2 addr
      in if width = RV_MEM_SW then
           RAM_FUNC exc_cause mem addr 4 mem (\<lambda>cell offset. mem(i := val)) h
         else if width = RV_MEM_SH then
           RAM_FUNC exc_cause mem addr 2 mem
             (\<lambda>cell offset. mem(i := (cell AND NOT (push_bit offset (MASK 16))) OR
                                     push_bit offset (val AND MASK 16))) h
         else if width = RV_MEM_SB then
           RAM_FUNC exc_cause mem addr 1 mem
             (\<lambda>cell offset. mem(i := (cell AND NOT (push_bit offset (MASK 8))) OR
                                     push_bit offset (val AND MASK 8))) h
         else Some (mem, vm_set_exception RV_EXC_ILLEGAL_INSN 0 h))"

section \<open>The byte memory\<close>

text \<open>The byte at a byte address, little-endian, and the sizes of the access widths.\<close>

definition byte_at :: "ram \<Rightarrow> u32 \<Rightarrow> u8" where
  "byte_at mem a = ucast (drop_bit (8 * unat (a AND 3)) (mem (drop_bit 2 a)))"

definition width_bytes :: "u8 \<Rightarrow> u32" where
  "width_bytes width =
     (if width = RV_MEM_LW then 4 else if width = RV_MEM_LH \<or> width = RV_MEM_LHU then 2 else 1)"

definition load_width :: "u8 \<Rightarrow> bool" where
  "load_width width \<longleftrightarrow> width \<in> {RV_MEM_LB, RV_MEM_LH, RV_MEM_LW, RV_MEM_LBU, RV_MEM_LHU}"

definition store_width :: "u8 \<Rightarrow> bool" where
  "store_width width \<longleftrightarrow> width \<in> {RV_MEM_SB, RV_MEM_SH, RV_MEM_SW}"

definition aligned :: "u32 \<Rightarrow> u8 \<Rightarrow> bool" where
  "aligned addr width \<longleftrightarrow> addr AND (width_bytes width - 1) = 0"

text \<open>What a load must return: the bytes from the lowest address up, extended to 32 bits.\<close>

definition load_bytes :: "ram \<Rightarrow> u32 \<Rightarrow> u8 \<Rightarrow> u32" where
  "load_bytes mem a width =
     (if width = RV_MEM_LBU then ucast (byte_at mem a)
      else if width = RV_MEM_LB then scast (byte_at mem a)
      else if width = RV_MEM_LHU then ucast (byte_at mem a) OR push_bit 8 (ucast (byte_at mem (a + 1)))
      else if width = RV_MEM_LH then
        scast (ucast (byte_at mem a) OR push_bit 8 (ucast (byte_at mem (a + 1))) :: u16)
      else ucast (byte_at mem a) OR push_bit 8 (ucast (byte_at mem (a + 1))) OR
           push_bit 16 (ucast (byte_at mem (a + 2))) OR push_bit 24 (ucast (byte_at mem (a + 3))))"

section \<open>Lemmas\<close>

text \<open>An address is its word index and its byte lane; lanes are 0 to 3.\<close>

lemma lane_mask: "(3::u32) = mask 2"
  by (simp add: mask_eq_exp_minus_1)

lemma lane_cases:
  obtains "(a::u32) AND 3 = 0" | "a AND 3 = 1" | "a AND 3 = 2" | "a AND 3 = 3"
proof -
  have "unat (a AND 3) < 4"
    using and_mask_less_2p [of 2 a] by (simp add: lane_mask word_less_nat_alt)
  then have "a AND 3 = 0 \<or> a AND 3 = 1 \<or> a AND 3 = 2 \<or> a AND 3 = 3"
    by (simp add: word_unat_eq_iff) linarith
  then show ?thesis using that by blast
qed

lemma same_word_plus:
  assumes "unat (a AND 3) + unat d < 4"
  shows "drop_bit 2 (a + d) = drop_bit 2 (a::u32)" "(a + d) AND 3 = (a AND 3) + d"
  using frame_add_small [of a 2 d] assms by (simp_all add: lane_mask)

lemma same_word_diff:
  assumes "drop_bit 2 b = drop_bit 2 (a::u32)"
  shows "b - a = (b AND 3) - (a AND 3)"
proof -
  have "b = push_bit 2 (drop_bit 2 a) + (b AND 3)" "a = push_bit 2 (drop_bit 2 a) + (a AND 3)"
    using not_mask_add_mask [of b 2] not_mask_add_mask [of a 2] assms
    unfolding lane_mask not_mask_eq_push_drop by simp_all
  then show ?thesis by (metis add_diff_cancel_left)
qed

text \<open>An aligned access stays in one word.\<close>

lemma aligned_lanes:
  assumes "aligned a w" "d < width_bytes w"
  shows "unat (a AND 3) + unat d < 4"
proof -
  have "unat d < unat (width_bytes w)" using assms(2) by (simp add: word_less_nat_alt)
  moreover have "unat (a AND 3) + unat (width_bytes w) \<le> 4"
  proof (cases "width_bytes w = 2")
    case True
    then have "(a AND 3) AND 1 = 0" using assms(1) by (simp add: aligned_def and.assoc)
    then show ?thesis using True by (cases a rule: lane_cases) auto
  next
    case False
    then consider "width_bytes w = 4" | "width_bytes w = 1"
      by (auto simp: width_bytes_def split: if_splits)
    then show ?thesis using assms(1) by cases (auto simp: aligned_def intro: lane_cases [of a])
  qed
  ultimately show ?thesis by linarith
qed

lemma aligned_low_lanes:
  "aligned a RV_MEM_LW \<Longrightarrow> a AND 3 = 0" "aligned a RV_MEM_LH \<Longrightarrow> a AND 1 = 0"
  "aligned a RV_MEM_LHU \<Longrightarrow> a AND 1 = 0"
  by (simp_all add: aligned_def width_bytes_def)

text \<open>The accesses that succeed, as one equation each.\<close>

lemma ram_word_index: "addr < RAM_SIZE \<Longrightarrow> drop_bit 2 addr < (RAM_WORDS :: u32)"
  using word_less_2p_iff_drop_bit [of 29 addr] word_less_2p_iff_drop_bit [of 27 "drop_bit 2 addr"]
  by simp

definition load_cell :: "u8 \<Rightarrow> u32 \<Rightarrow> nat \<Rightarrow> u32" where
  "load_cell width cell offset =
     (if width = RV_MEM_LW then cell
      else if width = RV_MEM_LHU then ucast (ucast (drop_bit offset cell) :: u16)
      else if width = RV_MEM_LH then scast (ucast (drop_bit offset cell) :: u16)
      else if width = RV_MEM_LBU then ucast (ucast (drop_bit offset cell) :: u8)
      else scast (ucast (drop_bit offset cell) :: u8))"

lemma ram_read_ok:
  assumes "load_width width" "aligned addr width" "addr < RAM_SIZE"
  shows "ram_read mem addr width v h =
           Some (load_cell width (mem (drop_bit 2 addr)) (unat (addr AND 3) * 8), h)"
  using assms ram_word_index [of addr]
  by (auto simp: ram_read_def RAM_FUNC_def ram_cell_def load_width_def aligned_def
      width_bytes_def load_cell_def)

lemma ram_read_cases:
  "ram_read mem addr width v h =
     (if \<not> load_width width then Some (v, vm_set_exception RV_EXC_ILLEGAL_INSN 0 h)
      else if \<not> aligned addr width then
        Some (v, vm_set_exception RV_EXC_LOAD_MISALIGN (exc_val h) h)
      else do { cell \<leftarrow> ram_cell mem (drop_bit 2 addr);
                Some (load_cell width cell (unat (addr AND 3) * 8), h) })"
  by (auto simp: ram_read_def RAM_FUNC_def load_width_def aligned_def
      width_bytes_def load_cell_def)

lemma load_cell_bytes:
  assumes "load_width width" "aligned a width"
  shows "load_cell width (mem (drop_bit 2 a)) (unat (a AND 3) * 8) = load_bytes mem a width"
proof -
  have plus: "drop_bit 2 (a + d) = drop_bit 2 a \<and> (a + d) AND 3 = (a AND 3) + d"
    if "d < width_bytes width" for d
    using same_word_plus aligned_lanes [OF assms(2) that] by blast
  consider "width = RV_MEM_LW" | "width = RV_MEM_LH" | "width = RV_MEM_LHU"
    | "width = RV_MEM_LB" | "width = RV_MEM_LBU"
    using assms(1) by (auto simp: load_width_def)
  then show ?thesis
  proof cases
    case 1
    have "a AND 3 = 0" using assms(2) 1 by (simp add: aligned_low_lanes)
    with plus [of 1] plus [of 2] plus [of 3] 1 show ?thesis
      by (simp add: load_cell_def load_bytes_def byte_at_def width_bytes_def)
        (simp add: word32_eq_bits bit_simps)
  next
    case 2
    with plus [of 1] show ?thesis
      by (simp add: load_cell_def load_bytes_def byte_at_def width_bytes_def)
        (cases a rule: lane_cases; simp; rule arg_cong [of _ _ scast]; rule bit_word_eqI;
          auto simp: bit_simps dest: bit_imp_le_length)
  next
    case 3
    with plus [of 1] show ?thesis
      by (simp add: load_cell_def load_bytes_def byte_at_def width_bytes_def)
        (cases a rule: lane_cases; simp; rule bit_word_eqI;
          auto simp: bit_simps dest: bit_imp_le_length)
  qed (simp_all add: load_cell_def load_bytes_def byte_at_def mult.commute)
qed

text \<open>A store's effect on the bytes.\<close>

definition store_cell :: "u8 \<Rightarrow> u32 \<Rightarrow> u32 \<Rightarrow> nat \<Rightarrow> u32" where
  "store_cell width v cell offset =
     (if width = RV_MEM_SW then v
      else if width = RV_MEM_SH then
        (cell AND NOT (push_bit offset (MASK 16))) OR push_bit offset (v AND MASK 16)
      else (cell AND NOT (push_bit offset (MASK 8))) OR push_bit offset (v AND MASK 8))"

lemma ram_write_cases:
  "ram_write mem addr width v h =
     (if \<not> store_width width then Some (mem, vm_set_exception RV_EXC_ILLEGAL_INSN 0 h)
      else if \<not> aligned addr width then
        Some (mem, vm_set_exception RV_EXC_STORE_MISALIGN (exc_val h) h)
      else do { cell \<leftarrow> ram_cell mem (drop_bit 2 addr);
                Some (mem(drop_bit 2 addr := store_cell width v cell (unat (addr AND 3) * 8)), h) })"
  by (auto simp: ram_write_def RAM_FUNC_def store_width_def aligned_def
      width_bytes_def store_cell_def Let_def)

lemma ram_write_ok:
  assumes "store_width width" "aligned addr width" "addr < RAM_SIZE"
  shows "ram_write mem addr width v h =
           Some (mem(drop_bit 2 addr :=
                   store_cell width v (mem (drop_bit 2 addr)) (unat (addr AND 3) * 8)), h)"
  using assms ram_word_index [of addr] by (simp add: ram_write_cases ram_cell_def)

lemma in_range_same_word:
  assumes "aligned a w"
  shows "b - a < width_bytes w \<longleftrightarrow>
           drop_bit 2 b = drop_bit 2 a \<and> (b AND 3) - (a AND 3) < width_bytes w"
  using same_word_plus(1) [OF aligned_lanes [OF assms, of "b - a"]] same_word_diff [of b a]
  by auto

lemma store_cell_bytes:
  fixes cell :: u32
  assumes "store_width width" "aligned a width"
  shows "(ucast (drop_bit (8 * unat (b AND 3)) (store_cell width v cell (unat (a AND 3) * 8))) :: u8)
       = (if (b AND 3) - (a AND 3) < width_bytes width
          then ucast (drop_bit (8 * unat ((b AND 3) - (a AND 3))) v)
          else ucast (drop_bit (8 * unat (b AND 3)) cell))"
proof -
  consider "width = RV_MEM_SW" "a AND 3 = 0" | "width = RV_MEM_SH" "(a AND 3) AND 1 = 0"
    | "width = RV_MEM_SB"
    using assms by (auto simp: store_width_def aligned_low_lanes and.assoc)
  then show ?thesis
  proof cases
    case 1
    then show ?thesis
      by (cases b rule: lane_cases) (simp_all add: store_cell_def width_bytes_def)
  next
    case 2
    then show ?thesis
      by (cases a rule: lane_cases; cases b rule: lane_cases; simp add: store_cell_def width_bytes_def;
          intro bit_word_eqI; simp add: bit_simps)
  next
    case 3
    then show ?thesis
      by (cases a rule: lane_cases; cases b rule: lane_cases; simp add: store_cell_def width_bytes_def;
          intro bit_word_eqI; simp add: bit_simps)
  qed
qed

section \<open>Properties\<close>

text \<open>
  C38: An aligned load inside RAM returns the little-endian value of the bytes at the address,
  zero- or sign-extended as the width says, changes nothing in the hart and never leaves the
  array.
\<close>

theorem ram_read_bytes:
  assumes "load_width width" "aligned addr width" "addr < RAM_SIZE"
  shows "ram_read mem addr width v h = Some (load_bytes mem addr width, h)"
  using assms by (simp add: ram_read_ok load_cell_bytes)

theorem ram_read_bytes_witness:
  "(\<forall>h. ram_read (\<lambda>i. 0x80FF1234 + i) 6 RV_MEM_LH 0 h =
     Some (load_bytes (\<lambda>i. 0x80FF1234 + i) 6 RV_MEM_LH, h)) \<and>
   load_bytes (\<lambda>i. 0x80FF1234 + i) 6 RV_MEM_LH = 0xFFFF80FF"
  using ram_read_bytes [of RV_MEM_LH 6 "\<lambda>i. 0x80FF1234 + i" 0]
  by (simp add: load_width_def aligned_def width_bytes_def load_bytes_def byte_at_def)

text \<open>
  C39: An aligned store inside RAM writes exactly the bytes of its range, little-endian, and
  keeps every other byte of memory and the hart.
\<close>

theorem ram_write_bytes:
  assumes "store_width width" "aligned addr width" "addr < RAM_SIZE"
  shows "\<exists>mem'. ram_write mem addr width v h = Some (mem', h) \<and>
           (\<forall>b. byte_at mem' b =
                  (if b - addr < width_bytes width then ucast (drop_bit (8 * unat (b - addr)) v)
                   else byte_at mem b))"
proof (intro exI conjI allI)
  let ?mem' = "mem(drop_bit 2 addr :=
                 store_cell width v (mem (drop_bit 2 addr)) (unat (addr AND 3) * 8))"
  show "ram_write mem addr width v h = Some (?mem', h)" using assms by (rule ram_write_ok)
  fix b
  show "byte_at ?mem' b =
          (if b - addr < width_bytes width then ucast (drop_bit (8 * unat (b - addr)) v)
           else byte_at mem b)"
  proof (cases "drop_bit 2 b = drop_bit 2 addr")
    case True
    then show ?thesis
      using store_cell_bytes [OF assms(1,2), of b v "mem (drop_bit 2 addr)"]
      by (simp add: byte_at_def in_range_same_word [OF assms(2)] same_word_diff [OF True])
  next
    case False
    then show ?thesis by (simp add: byte_at_def in_range_same_word [OF assms(2)])
  qed
qed

theorem ram_write_bytes_witness:
  "\<forall>h. \<exists>mem'. ram_write (\<lambda>i. 0) 6 RV_MEM_SH 0xABCD1234 h = Some (mem', h) \<and>
     byte_at mem' 5 = 0 \<and> byte_at mem' 6 = 0x34 \<and> byte_at mem' 7 = 0x12 \<and> byte_at mem' 8 = 0"
proof
  fix h
  obtain mem' where "ram_write (\<lambda>i. 0) 6 RV_MEM_SH 0xABCD1234 h = Some (mem', h)"
    and bytes: "\<forall>b. byte_at mem' b =
      (if b - 6 < width_bytes RV_MEM_SH then ucast (drop_bit (8 * unat (b - 6)) (0xABCD1234 :: u32))
       else byte_at (\<lambda>i. 0) b)"
    using ram_write_bytes [of RV_MEM_SH 6 "\<lambda>i. 0" "0xABCD1234" h]
    by (auto simp: store_width_def aligned_def width_bytes_def)
  moreover have "byte_at mem' 5 = 0" "byte_at mem' 6 = 0x34" "byte_at mem' 7 = 0x12" "byte_at mem' 8 = 0"
    by (simp_all add: bytes) (simp_all add: width_bytes_def byte_at_def)
  ultimately show "\<exists>mem'. ram_write (\<lambda>i. 0) 6 RV_MEM_SH 0xABCD1234 h = Some (mem', h) \<and>
     byte_at mem' 5 = 0 \<and> byte_at mem' 6 = 0x34 \<and> byte_at mem' 7 = 0x12 \<and> byte_at mem' 8 = 0"
    by blast
qed

end
