(* ===== verification/Virtio.thy ===== *)
theory Virtio
  imports Device Ram
begin

text \<open>
  What the virtio devices share (\<^verbatim>\<open>src/virtio.h\<close>, and the code that \<^verbatim>\<open>src/virtio-blk.c\<close>
  and \<^verbatim>\<open>src/virtio-rng.c\<close> have in common): the transport registers, the split queues in
  guest RAM, and byte access to guest RAM at the 64-bit addresses of descriptors, undefined
  outside the array.
\<close>

section \<open>State\<close>

record virtio_queue_t =
  QueueNum :: u32
  QueueDesc :: u32
  QueueAvail :: u32
  QueueUsed :: u32
  last_avail :: u16
  ready :: bool

record virtio_state_t =
  DeviceFeaturesSel :: u32
  DriverFeatures :: u32
  DriverFeaturesSel :: u32
  QueueSel :: u32
  queues :: "u32 \<Rightarrow> virtio_queue_t"
  Status :: u32
  InterruptStatus :: u32

record virtq_desc =
  desc_addr :: u64
  desc_len :: u32
  desc_flags :: u16
  desc_next :: u16

abbreviation (input) VIRTIO_MagicValue :: u32 where "VIRTIO_MagicValue \<equiv> 0x00"
abbreviation (input) VIRTIO_Version :: u32 where "VIRTIO_Version \<equiv> 0x01"
abbreviation (input) VIRTIO_DeviceID :: u32 where "VIRTIO_DeviceID \<equiv> 0x02"
abbreviation (input) VIRTIO_VendorID :: u32 where "VIRTIO_VendorID \<equiv> 0x03"
abbreviation (input) VIRTIO_DeviceFeatures :: u32 where "VIRTIO_DeviceFeatures \<equiv> 0x04"
abbreviation (input) VIRTIO_DeviceFeaturesSel :: u32 where "VIRTIO_DeviceFeaturesSel \<equiv> 0x05"
abbreviation (input) VIRTIO_DriverFeatures :: u32 where "VIRTIO_DriverFeatures \<equiv> 0x08"
abbreviation (input) VIRTIO_DriverFeaturesSel :: u32 where "VIRTIO_DriverFeaturesSel \<equiv> 0x09"
abbreviation (input) VIRTIO_QueueSel :: u32 where "VIRTIO_QueueSel \<equiv> 0x0C"
abbreviation (input) VIRTIO_QueueNumMax :: u32 where "VIRTIO_QueueNumMax \<equiv> 0x0D"
abbreviation (input) VIRTIO_QueueNum :: u32 where "VIRTIO_QueueNum \<equiv> 0x0E"
abbreviation (input) VIRTIO_QueueReady :: u32 where "VIRTIO_QueueReady \<equiv> 0x11"
abbreviation (input) VIRTIO_QueueNotify :: u32 where "VIRTIO_QueueNotify \<equiv> 0x14"
abbreviation (input) VIRTIO_InterruptStatus :: u32 where "VIRTIO_InterruptStatus \<equiv> 0x18"
abbreviation (input) VIRTIO_InterruptACK :: u32 where "VIRTIO_InterruptACK \<equiv> 0x19"
abbreviation (input) VIRTIO_Status :: u32 where "VIRTIO_Status \<equiv> 0x1C"
abbreviation (input) VIRTIO_QueueDescLow :: u32 where "VIRTIO_QueueDescLow \<equiv> 0x20"
abbreviation (input) VIRTIO_QueueDescHigh :: u32 where "VIRTIO_QueueDescHigh \<equiv> 0x21"
abbreviation (input) VIRTIO_QueueDriverLow :: u32 where "VIRTIO_QueueDriverLow \<equiv> 0x24"
abbreviation (input) VIRTIO_QueueDriverHigh :: u32 where "VIRTIO_QueueDriverHigh \<equiv> 0x25"
abbreviation (input) VIRTIO_QueueDeviceLow :: u32 where "VIRTIO_QueueDeviceLow \<equiv> 0x28"
abbreviation (input) VIRTIO_QueueDeviceHigh :: u32 where "VIRTIO_QueueDeviceHigh \<equiv> 0x29"
abbreviation (input) VIRTIO_ConfigGeneration :: u32 where "VIRTIO_ConfigGeneration \<equiv> 0x3F"
abbreviation (input) VIRTIO_Config :: u32 where "VIRTIO_Config \<equiv> 0x40"

abbreviation (input) VIRTIO_STATUS__DRIVER_OK :: u32 where "VIRTIO_STATUS__DRIVER_OK \<equiv> 4"
abbreviation (input) VIRTIO_STATUS__DEVICE_NEEDS_RESET :: u32 where
  "VIRTIO_STATUS__DEVICE_NEEDS_RESET \<equiv> 64"
abbreviation (input) VIRTIO_INT__USED_RING :: u32 where "VIRTIO_INT__USED_RING \<equiv> 1"
abbreviation (input) VIRTIO_INT__CONF_CHANGE :: u32 where "VIRTIO_INT__CONF_CHANGE \<equiv> 2"
abbreviation (input) VIRTIO_DESC_F_NEXT :: u16 where "VIRTIO_DESC_F_NEXT \<equiv> 1"
abbreviation (input) QUEUE_NUM_MAX :: u32 where "QUEUE_NUM_MAX \<equiv> 1024"

section \<open>Guest RAM as bytes\<close>

abbreviation (input) RAM_SIZE_64 :: u64 where "RAM_SIZE_64 \<equiv> 0x20000000"

definition ram_get_byte :: "ram \<Rightarrow> u64 \<Rightarrow> u8 option" where
  "ram_get_byte mem a = (if a < RAM_SIZE_64 then Some (byte_at mem (ucast a)) else None)"

definition put_byte :: "ram \<Rightarrow> u32 \<Rightarrow> u8 \<Rightarrow> ram" where
  "put_byte mem a v =
     (let i = drop_bit 2 a; s = unat (a AND 3) * 8
      in mem(i := (mem i AND NOT (push_bit s (MASK 8))) OR push_bit s (ucast v)))"

definition ram_put_byte :: "ram \<Rightarrow> u64 \<Rightarrow> u8 \<Rightarrow> ram option" where
  "ram_put_byte mem a v = (if a < RAM_SIZE_64 then Some (put_byte mem (ucast a) v) else None)"

definition ram_set_cell :: "ram \<Rightarrow> u32 \<Rightarrow> u32 \<Rightarrow> ram option" where
  "ram_set_cell mem i v = (if i < RAM_WORDS then Some (mem(i := v)) else None)"

text \<open>Little-endian fields of a packed structure at any byte address.\<close>

definition ram_get_u32 :: "ram \<Rightarrow> u64 \<Rightarrow> u32 option" where
  "ram_get_u32 mem a =
     do { b0 \<leftarrow> ram_get_byte mem a; b1 \<leftarrow> ram_get_byte mem (a + 1);
          b2 \<leftarrow> ram_get_byte mem (a + 2); b3 \<leftarrow> ram_get_byte mem (a + 3);
          Some (ucast b0 OR push_bit 8 (ucast b1) OR push_bit 16 (ucast b2) OR push_bit 24 (ucast b3)) }"

text \<open>\<^verbatim>\<open>memcpy\<close> into guest RAM from a list of bytes, and the bytes of a range of guest RAM.\<close>

fun ram_put_bytes :: "ram \<Rightarrow> u64 \<Rightarrow> u8 list \<Rightarrow> ram option" where
  "ram_put_bytes mem a [] = Some mem"
| "ram_put_bytes mem a (b # bs) = do { mem' \<leftarrow> ram_put_byte mem a b; ram_put_bytes mem' (a + 1) bs }"

fun ram_get_bytes :: "ram \<Rightarrow> u64 \<Rightarrow> nat \<Rightarrow> u8 list option" where
  "ram_get_bytes mem a 0 = Some []"
| "ram_get_bytes mem a (Suc n) =
     do { b \<leftarrow> ram_get_byte mem a; bs \<leftarrow> ram_get_bytes mem (a + 1) n; Some (b # bs) }"

section \<open>Transport\<close>

definition virtio_set_fail :: "'a virtio_state_t_scheme \<Rightarrow> 'a virtio_state_t_scheme" where
  "virtio_set_fail v =
     (let v = v\<lparr>Status := Status v OR VIRTIO_STATUS__DEVICE_NEEDS_RESET\<rparr>
      in if Status v AND VIRTIO_STATUS__DRIVER_OK \<noteq> 0
         then v\<lparr>InterruptStatus := InterruptStatus v OR VIRTIO_INT__CONF_CHANGE\<rparr> else v)"

definition virtio_preprocess ::
  "'a virtio_state_t_scheme \<Rightarrow> u32 \<Rightarrow> u32 \<times> 'a virtio_state_t_scheme" where
  "virtio_preprocess v addr =
     (if addr \<ge> RAM_SIZE \<or> addr AND 0b11 \<noteq> 0 then (0, virtio_set_fail v) else (drop_bit 2 addr, v))"

text \<open>The queue that \<^verbatim>\<open>QueueSel\<close> selects, in an array of \<open>n\<close> queues.\<close>

definition sel_queue :: "u32 \<Rightarrow> 'a virtio_state_t_scheme \<Rightarrow> virtio_queue_t option" where
  "sel_queue n v = (if QueueSel v < n then Some (queues v (QueueSel v)) else None)"

definition upd_queue ::
  "u32 \<Rightarrow> (virtio_queue_t \<Rightarrow> virtio_queue_t) \<Rightarrow> 'a virtio_state_t_scheme \<Rightarrow> 'a virtio_state_t_scheme" where
  "upd_queue i f v = v\<lparr>queues := (queues v)(i := f (queues v i))\<rparr>"

definition features_read :: "'a virtio_state_t_scheme \<Rightarrow> u32" where
  "features_read v = (if DeviceFeaturesSel v = 0 then 0 else if DeviceFeaturesSel v = 1 then 1 else 0)"

text \<open>
  The readable registers that every device has; \<open>None\<close> inside the result is a register that the
  device handles itself.
\<close>

definition virtio_reg_read ::
  "u32 \<Rightarrow> u32 \<Rightarrow> 'a virtio_state_t_scheme \<Rightarrow> u32 \<Rightarrow> u32 option option" where
  "virtio_reg_read n device_id v addr =
     (if addr = VIRTIO_MagicValue then Some (Some 0x74726976)
      else if addr = VIRTIO_Version then Some (Some 2)
      else if addr = VIRTIO_DeviceID then Some (Some device_id)
      else if addr = VIRTIO_VendorID then Some (Some 0x12345678)
      else if addr = VIRTIO_DeviceFeatures then Some (Some (features_read v))
      else if addr = VIRTIO_QueueNumMax then Some (Some QUEUE_NUM_MAX)
      else if addr = VIRTIO_QueueReady then
        do { q \<leftarrow> sel_queue n v; Some (Some (if ready q then 1 else 0)) }
      else if addr = VIRTIO_InterruptStatus then Some (Some (InterruptStatus v))
      else if addr = VIRTIO_Status then Some (Some (Status v))
      else if addr = VIRTIO_ConfigGeneration then Some (Some 0)
      else Some None)"

definition virtio_set_queue_addr ::
  "u32 \<Rightarrow> (u32 \<Rightarrow> virtio_queue_t \<Rightarrow> virtio_queue_t) \<Rightarrow> u32 \<Rightarrow> 'a virtio_state_t_scheme \<Rightarrow>
     'a virtio_state_t_scheme option" where
  "virtio_set_queue_addr n f val v =
     do { _ \<leftarrow> sel_queue n v;
          let (i, v) = virtio_preprocess v val;
          Some (upd_queue (QueueSel v) (f i) v) }"

text \<open>The writable registers that every device has; \<open>None\<close> inside the result as above.\<close>

definition virtio_reg_write ::
  "u32 \<Rightarrow> ram \<Rightarrow> 'a virtio_state_t_scheme \<Rightarrow> u32 \<Rightarrow> u32 \<Rightarrow>
     'a virtio_state_t_scheme option option" where
  "virtio_reg_write n mem v addr val =
     (if addr = VIRTIO_DeviceFeaturesSel then Some (Some (v\<lparr>DeviceFeaturesSel := val\<rparr>))
      else if addr = VIRTIO_DriverFeatures then
        Some (Some (if DriverFeaturesSel v = 0 then v\<lparr>DriverFeatures := val\<rparr> else v))
      else if addr = VIRTIO_DriverFeaturesSel then Some (Some (v\<lparr>DriverFeaturesSel := val\<rparr>))
      else if addr = VIRTIO_QueueSel then
        Some (Some (if val < n then v\<lparr>QueueSel := val\<rparr> else virtio_set_fail v))
      else if addr = VIRTIO_QueueNum then
        if 0 < val \<and> val \<le> QUEUE_NUM_MAX then
          do { _ \<leftarrow> sel_queue n v;
               Some (Some (upd_queue (QueueSel v) (\<lambda>q. q\<lparr>QueueNum := val\<rparr>) v)) }
        else Some (Some (virtio_set_fail v))
      else if addr = VIRTIO_QueueReady then
        do { q \<leftarrow> sel_queue n v;
             if val AND 1 \<noteq> 0 then
               do { w \<leftarrow> ram_cell mem (QueueAvail q);
                    Some (Some (upd_queue (QueueSel v)
                       (\<lambda>q. q\<lparr>ready := True, last_avail := ucast (drop_bit 16 w)\<rparr>) v)) }
             else Some (Some (upd_queue (QueueSel v) (\<lambda>q. q\<lparr>ready := False\<rparr>) v)) }
      else if addr = VIRTIO_QueueDescLow then
        map_option Some (virtio_set_queue_addr n (\<lambda>i q. q\<lparr>QueueDesc := i\<rparr>) val v)
      else if addr = VIRTIO_QueueDriverLow then
        map_option Some (virtio_set_queue_addr n (\<lambda>i q. q\<lparr>QueueAvail := i\<rparr>) val v)
      else if addr = VIRTIO_QueueDeviceLow then
        map_option Some (virtio_set_queue_addr n (\<lambda>i q. q\<lparr>QueueUsed := i\<rparr>) val v)
      else if addr \<in> {VIRTIO_QueueDescHigh, VIRTIO_QueueDriverHigh, VIRTIO_QueueDeviceHigh} then
        Some (Some (if val \<noteq> 0 then virtio_set_fail v else v))
      else if addr = VIRTIO_InterruptACK then
        Some (Some (v\<lparr>InterruptStatus := InterruptStatus v AND NOT val\<rparr>))
      else Some None)"

section \<open>Queues\<close>

text \<open>
  Entry \<open>i\<close> of the available ring (two 16-bit entries in a word), the descriptor of an index,
  and the used ring. A queue of size 0 divides by zero.
\<close>

definition ring_index :: "u16 \<Rightarrow> virtio_queue_t \<Rightarrow> u32 option" where
  "ring_index i q = (if QueueNum q = 0 then None else Some (ucast i mod QueueNum q))"

definition avail_entry :: "ram \<Rightarrow> virtio_queue_t \<Rightarrow> u16 option" where
  "avail_entry mem q =
     do { r \<leftarrow> ring_index (last_avail q) q;
          let queue_idx = (ucast r :: u16);
          w \<leftarrow> ram_cell mem (QueueAvail q + 1 + ucast (queue_idx div 2));
          Some (ucast (drop_bit (16 * unat (queue_idx mod 2)) w)) }"

definition fetch_desc :: "ram \<Rightarrow> virtio_queue_t \<Rightarrow> u32 \<Rightarrow> virtq_desc option" where
  "fetch_desc mem q desc_idx =
     (let i = QueueDesc q + desc_idx * 4
      in do { w0 \<leftarrow> ram_cell mem i; w1 \<leftarrow> ram_cell mem (i + 1);
              w2 \<leftarrow> ram_cell mem (i + 2); w3 \<leftarrow> ram_cell mem (i + 3);
              Some \<lparr>desc_addr = ucast w0 OR push_bit 32 (ucast w1), desc_len = w2,
                    desc_flags = ucast w3, desc_next = ucast (drop_bit 16 w3)\<rparr> })"

definition put_used :: "ram \<Rightarrow> virtio_queue_t \<Rightarrow> u16 \<Rightarrow> u32 \<Rightarrow> u32 \<Rightarrow> ram option" where
  "put_used mem q used ident len =
     do { r \<leftarrow> ring_index used q;
          let a = QueueUsed q + 1 + r * 2;
          mem \<leftarrow> ram_set_cell mem a ident;
          ram_set_cell mem (a + 1) len }"

definition set_used_idx :: "ram \<Rightarrow> virtio_queue_t \<Rightarrow> u16 \<Rightarrow> ram option" where
  "set_used_idx mem q used =
     do { w \<leftarrow> ram_cell mem (QueueUsed q);
          ram_set_cell mem (QueueUsed q) ((w AND MASK 16) OR push_bit 16 (ucast used)) }"

section \<open>Lemmas\<close>

text \<open>
  The invariant that the register writes keep: the selected queue exists, queues are no longer
  than the maximum, and every ring starts inside guest RAM. It makes every register access
  defined.
\<close>

definition queue_ok :: "virtio_queue_t \<Rightarrow> bool" where
  "queue_ok q \<longleftrightarrow> QueueNum q \<le> QUEUE_NUM_MAX \<and> QueueDesc q < RAM_WORDS \<and>
     QueueAvail q < RAM_WORDS \<and> QueueUsed q < RAM_WORDS"

definition virtio_ok :: "u32 \<Rightarrow> 'a virtio_state_t_scheme \<Rightarrow> bool" where
  "virtio_ok n v \<longleftrightarrow> QueueSel v < n \<and> (\<forall>i. queue_ok (queues v i))"

lemma set_fail_fields [simp]:
  "QueueSel (virtio_set_fail v) = QueueSel v" "queues (virtio_set_fail v) = queues v"
  "virtio_state_t.more (virtio_set_fail v) = virtio_state_t.more v"
  by (simp_all add: virtio_set_fail_def Let_def)

lemma virtio_ok_set_fail [simp]: "virtio_ok n (virtio_set_fail v) = virtio_ok n v"
  by (simp add: virtio_ok_def)

lemma virtio_ok_upd_queue:
  "virtio_ok n v \<Longrightarrow> queue_ok (f (queues v i)) \<Longrightarrow> virtio_ok n (upd_queue i f v)"
  by (simp add: virtio_ok_def upd_queue_def)

lemma preprocess_ok:
  "virtio_preprocess v a = (i, v') \<Longrightarrow> i < RAM_WORDS \<and> QueueSel v' = QueueSel v \<and> queues v' = queues v"
  using ram_word_index [of a] by (auto simp: virtio_preprocess_def not_le split: if_splits)

lemma sel_queue_ok: "virtio_ok n v \<Longrightarrow> sel_queue n v = Some (queues v (QueueSel v))"
  by (simp add: virtio_ok_def sel_queue_def)

lemma virtio_reg_read_total: "virtio_ok n v \<Longrightarrow> virtio_reg_read n d v addr \<noteq> None"
  by (simp add: virtio_reg_read_def sel_queue_ok)

lemma set_queue_addr_ok:
  assumes "virtio_ok n v" "\<And>i q. i < RAM_WORDS \<Longrightarrow> queue_ok q \<Longrightarrow> queue_ok (f i q)"
  shows "\<exists>v'. virtio_set_queue_addr n f val v = Some v' \<and> virtio_ok n v'"
proof -
  obtain i v' where p: "virtio_preprocess v val = (i, v')" by fastforce
  then have "virtio_ok n v'" using preprocess_ok [OF p] assms(1) by (simp add: virtio_ok_def)
  moreover from this have "queue_ok (f i (queues v' (QueueSel v')))"
    using preprocess_ok [OF p] assms(2) by (simp add: virtio_ok_def)
  ultimately show ?thesis
    using assms(1) p by (simp add: virtio_set_queue_addr_def sel_queue_ok virtio_ok_upd_queue)
qed

lemma virtio_reg_write_ok:
  assumes "virtio_ok n v"
  shows "\<exists>r. virtio_reg_write n mem v addr val = Some r \<and> (\<forall>v'. r = Some v' \<longrightarrow> virtio_ok n v')"
proof -
  have q: "queue_ok (queues v i)" for i using assms by (simp add: virtio_ok_def)
  have addr: "\<exists>v'. virtio_set_queue_addr n (\<lambda>i q. q\<lparr>QueueDesc := i\<rparr>) val v = Some v' \<and> virtio_ok n v'"
    "\<exists>v'. virtio_set_queue_addr n (\<lambda>i q. q\<lparr>QueueAvail := i\<rparr>) val v = Some v' \<and> virtio_ok n v'"
    "\<exists>v'. virtio_set_queue_addr n (\<lambda>i q. q\<lparr>QueueUsed := i\<rparr>) val v = Some v' \<and> virtio_ok n v'"
    by (rule set_queue_addr_ok [OF assms]; simp add: queue_ok_def)+
  have "virtio_ok n (v\<lparr>DeviceFeaturesSel := val\<rparr>)" "virtio_ok n (v\<lparr>DriverFeatures := val\<rparr>)"
    "virtio_ok n (v\<lparr>DriverFeaturesSel := val\<rparr>)" "val < n \<Longrightarrow> virtio_ok n (v\<lparr>QueueSel := val\<rparr>)"
    "virtio_ok n (v\<lparr>InterruptStatus := x\<rparr>)" for x
    using assms by (simp_all add: virtio_ok_def)
  moreover have "val \<le> QUEUE_NUM_MAX \<Longrightarrow> virtio_ok n (upd_queue i (\<lambda>q. q\<lparr>QueueNum := val\<rparr>) v)"
    "virtio_ok n (upd_queue i (\<lambda>q. q\<lparr>ready := b\<rparr>) v)"
    "virtio_ok n (upd_queue i (\<lambda>q. q\<lparr>ready := b, last_avail := w\<rparr>) v)" for i b w
    using q [of i] by (auto intro!: virtio_ok_upd_queue [OF assms] simp: queue_ok_def)
  moreover have "ram_cell mem (QueueAvail (queues v i)) = Some (mem (QueueAvail (queues v i)))" for i
    using q [of i] by (simp add: ram_cell_def queue_ok_def)
  ultimately show ?thesis
    using assms addr by (auto simp: virtio_reg_write_def sel_queue_ok)
qed

text \<open>The indices of a ring wrap at 16 bits; a step of the device brings it closer to the driver.\<close>

lemma u16_distance_decreases:
  assumes "(a :: u16) \<noteq> b"
  shows "unat (b - (a + 1)) < unat (b - a)"
  using assms unat_minus_one [of "b - a"] by (simp add: unat_gt_0 flip: diff_diff_add)

text \<open>Copies into guest RAM, byte by byte.\<close>

lemma put_byte_store: "put_byte mem a v = mem(drop_bit 2 a := store_cell RV_MEM_SB (ucast v) (mem (drop_bit 2 a)) (unat (a AND 3) * 8))"
proof -
  have "(ucast v :: u32) AND mask 8 = ucast v"
    by (rule bit_word_eqI) (auto simp: bit_simps dest: bit_imp_le_length)
  then show ?thesis by (simp add: put_byte_def store_cell_def Let_def)
qed

lemma byte_at_put_byte: "byte_at (put_byte mem a v) b = (if b = a then v else byte_at mem b)"
proof -
  have sb: "store_width RV_MEM_SB" "aligned a RV_MEM_SB"
    by (simp_all add: store_width_def aligned_def width_bytes_def)
  have v: "(ucast (ucast v :: u32) :: u8) = v" by (rule bit_word_eqI) (simp add: bit_simps)
  have one: "b - a < width_bytes RV_MEM_SB \<longleftrightarrow> b = a"
    by (simp add: width_bytes_def)
  show ?thesis
  proof (cases "drop_bit 2 b = drop_bit 2 a")
    case True
    then show ?thesis
      using store_cell_bytes [OF sb, of b "ucast v" "mem (drop_bit 2 a)"] one
        in_range_same_word [OF sb(2), of b] same_word_diff [OF True]
      by (auto simp: put_byte_store byte_at_def v)
  next
    case False
    then show ?thesis by (auto simp: put_byte_store byte_at_def)
  qed
qed

lemma ram_put_bytes_spec:
  assumes "unat a + length bs \<le> 0x20000000"
  shows "\<exists>mem'. ram_put_bytes mem a bs = Some mem' \<and>
    (\<forall>b. byte_at mem' b =
       (if unat a \<le> unat b \<and> unat b < unat a + length bs then bs ! (unat b - unat a) else byte_at mem b))"
  using assms
proof (induction bs arbitrary: mem a)
  case Nil
  then show ?case by auto
next
  case (Cons v bs)
  have a: "a < RAM_SIZE_64" "unat (a + 1) = unat a + 1" "unat (ucast a :: u32) = unat a"
    using Cons.prems by (simp_all add: word_less_nat_alt unat_word_ariths unsigned_ucast_eq take_bit_eq_mod)
  obtain mem' where "ram_put_bytes (put_byte mem (ucast a) v) (a + 1) bs = Some mem'"
    and bytes: "\<forall>b. byte_at mem' b =
       (if unat (a + 1) \<le> unat b \<and> unat b < unat (a + 1) + length bs
        then bs ! (unat b - unat (a + 1)) else byte_at (put_byte mem (ucast a) v) b)"
    using Cons.IH [of "a + 1" "put_byte mem (ucast a) v"] Cons.prems a by auto
  moreover have "byte_at mem' b =
       (if unat a \<le> unat b \<and> unat b < unat a + length (v # bs) then (v # bs) ! (unat b - unat a)
        else byte_at mem b)" for b
    using bytes a by (auto simp: byte_at_put_byte nth_Cons' word_unat_eq_iff)
  ultimately show ?case using a by (auto simp: ram_put_byte_def)
qed

end
