(* ===== verification/Virtio_Blk.thy ===== *)
theory Virtio_Blk
  imports Virtio
begin

text \<open>
  The virtio block device of \<^verbatim>\<open>src/virtio-blk.c\<close>. The disk is the memory mapping of the image:
  \<open>disk_len\<close> bytes, undefined outside. The configuration structure that \<^verbatim>\<open>priv\<close> points to is an
  array of 15 words, whose first two are the capacity.
\<close>

section \<open>State\<close>

record virtio_blk_state_t = virtio_state_t +
  priv :: "u32 \<Rightarrow> u32"
  disk :: "u64 \<Rightarrow> u8"
  disk_len :: u64

abbreviation (input) CONFIG_WORDS :: u32 where "CONFIG_WORDS \<equiv> 15"
abbreviation (input) CONFIG_BYTES :: u32 where "CONFIG_BYTES \<equiv> 60"
abbreviation (input) VBLK_QUEUES :: u32 where "VBLK_QUEUES \<equiv> 2"
abbreviation (input) DISK_BLK_SIZE :: u64 where "DISK_BLK_SIZE \<equiv> 512"

definition capacity :: "virtio_blk_state_t \<Rightarrow> u64" where
  "capacity vblk = ucast (priv vblk 0) OR push_bit 32 (ucast (priv vblk 1))"

definition zero_queue :: virtio_queue_t where
  "zero_queue = \<lparr>QueueNum = 0, QueueDesc = 0, QueueAvail = 0, QueueUsed = 0, last_avail = 0, ready = False\<rparr>"

section \<open>Operations\<close>

definition virtio_blk_update_status :: "virtio_blk_state_t \<Rightarrow> u32 \<Rightarrow> virtio_blk_state_t" where
  "virtio_blk_update_status vblk status =
     (let vblk = vblk\<lparr>Status := Status vblk OR status\<rparr>
      in if status \<noteq> 0 then vblk
         else
           let cap = (ucast (capacity vblk) :: u32)
           in \<lparr>DeviceFeaturesSel = 0, DriverFeatures = 0, DriverFeaturesSel = 0, QueueSel = 0,
               queues = (\<lambda>_. zero_queue), Status = 0, InterruptStatus = 0,
               priv = (priv vblk)(0 := cap, 1 := 0), disk = disk vblk, disk_len = disk_len vblk\<rparr>)"

fun disk_put_bytes :: "u64 \<Rightarrow> u8 list \<Rightarrow> virtio_blk_state_t \<Rightarrow> virtio_blk_state_t option" where
  "disk_put_bytes a [] vblk = Some vblk"
| "disk_put_bytes a (b # bs) vblk =
     (if a < disk_len vblk then disk_put_bytes (a + 1) bs (vblk\<lparr>disk := (disk vblk)(a := b)\<rparr>) else None)"

fun disk_get_bytes :: "u64 \<Rightarrow> nat \<Rightarrow> virtio_blk_state_t \<Rightarrow> u8 list option" where
  "disk_get_bytes a 0 vblk = Some []"
| "disk_get_bytes a (Suc n) vblk =
     (if a < disk_len vblk then map_option ((#) (disk vblk a)) (disk_get_bytes (a + 1) n vblk) else None)"

definition virtio_blk_write_handler ::
  "virtio_blk_state_t \<Rightarrow> ram \<Rightarrow> u64 \<Rightarrow> u64 \<Rightarrow> u32 \<Rightarrow> virtio_blk_state_t option" where
  "virtio_blk_write_handler vblk mem sector addr len =
     do { bs \<leftarrow> ram_get_bytes mem addr (unat len);
          disk_put_bytes (sector * DISK_BLK_SIZE) bs vblk }"

definition virtio_blk_read_handler ::
  "virtio_blk_state_t \<Rightarrow> ram \<Rightarrow> u64 \<Rightarrow> u64 \<Rightarrow> u32 \<Rightarrow> ram option" where
  "virtio_blk_read_handler vblk mem sector addr len =
     do { bs \<leftarrow> disk_get_bytes (sector * DISK_BLK_SIZE) (unat len) vblk;
          ram_put_bytes mem addr bs }"

text \<open>The loop that collects three descriptors; \<open>None\<close> inside the result is its early return.\<close>

fun collect_descs :: "nat \<Rightarrow> ram \<Rightarrow> virtio_queue_t \<Rightarrow> u32 \<Rightarrow> virtq_desc list option option" where
  "collect_descs 0 mem q desc_idx = Some (Some [])"
| "collect_descs (Suc n) mem q desc_idx =
     (if desc_idx \<ge> QueueNum q then Some None
      else do { d \<leftarrow> fetch_desc mem q desc_idx;
                r \<leftarrow> collect_descs n mem q (ucast (desc_next d));
                Some (map_option ((#) d) r) })"

definition has_next :: "virtq_desc \<Rightarrow> bool" where
  "has_next d \<longleftrightarrow> desc_flags d AND VIRTIO_DESC_F_NEXT \<noteq> 0"

text \<open>The result is \<open>True\<close> for a return value of 0, the length and the new states.\<close>

definition virtio_blk_desc_handler ::
  "virtio_blk_state_t \<Rightarrow> ram \<Rightarrow> virtio_queue_t \<Rightarrow> u32 \<Rightarrow> u32 \<Rightarrow>
     (bool \<times> u32 \<times> virtio_blk_state_t \<times> ram) option" where
  "virtio_blk_desc_handler vblk mem q desc_idx plen =
     do { r \<leftarrow> collect_descs 3 mem q desc_idx;
          case r of
            None \<Rightarrow> Some (False, plen, virtio_set_fail vblk, mem)
          | Some ds \<Rightarrow>
              if \<not> has_next (ds ! 0) \<or> \<not> has_next (ds ! 1) \<or> has_next (ds ! 2)
              then Some (False, plen, virtio_set_fail vblk, mem)
              else do {
                ty \<leftarrow> ram_get_u32 mem (desc_addr (ds ! 0));
                lo \<leftarrow> ram_get_u32 mem (desc_addr (ds ! 0) + 8);
                hi \<leftarrow> ram_get_u32 mem (desc_addr (ds ! 0) + 12);
                let sector = ucast lo OR push_bit 32 (ucast hi);
                let status = desc_addr (ds ! 2);
                let len = desc_len (ds ! 1);
                if sector \<ge> capacity vblk \<or>
                   ucast len > capacity vblk * DISK_BLK_SIZE - sector * DISK_BLK_SIZE
                then do { mem \<leftarrow> ram_put_byte mem status 1; Some (False, plen, vblk, mem) }
                else if ty = 0 then
                  do { mem \<leftarrow> virtio_blk_read_handler vblk mem sector (desc_addr (ds ! 1)) len;
                       mem \<leftarrow> ram_put_byte mem status 0;
                       Some (True, len, vblk, mem) }
                else if ty = 1 then
                  do { vblk \<leftarrow> virtio_blk_write_handler vblk mem sector (desc_addr (ds ! 1)) len;
                       mem \<leftarrow> ram_put_byte mem status 0;
                       Some (True, len, vblk, mem) }
                else do { mem \<leftarrow> ram_put_byte mem status 2; Some (False, plen, vblk, mem) } } }"

text \<open>The disk and guest RAM change under a request; the queues do not.\<close>

lemma disk_put_fields:
  "disk_put_bytes a bs vblk = Some vblk' \<Longrightarrow>
     queues vblk' = queues vblk \<and> QueueSel vblk' = QueueSel vblk \<and> priv vblk' = priv vblk \<and>
     disk_len vblk' = disk_len vblk"
  by (induction a bs vblk rule: disk_put_bytes.induct) (auto split: if_splits)

lemma desc_handler_fields:
  assumes "virtio_blk_desc_handler vblk mem q i plen = Some (ok, len, vblk', mem')"
  shows "queues vblk' = queues vblk \<and> QueueSel vblk' = QueueSel vblk \<and> priv vblk' = priv vblk \<and>
     disk_len vblk' = disk_len vblk"
  using assms
  by (auto simp: virtio_blk_desc_handler_def virtio_blk_write_handler_def virtio_set_fail_def Let_def
      dest: disk_put_fields split: bind_splits option.splits if_splits)

text \<open>
  The \<^verbatim>\<open>while\<close> loop of the notify handler. The result is \<open>None\<close> inside when the loop returns
  early from the handler.
\<close>

function notify_loop ::
  "u32 \<Rightarrow> u16 \<Rightarrow> u16 \<Rightarrow> virtio_blk_state_t \<Rightarrow> ram \<Rightarrow>
     ((u16 option) \<times> virtio_blk_state_t \<times> ram) option" where
  "notify_loop index new_avail new_used vblk mem =
     (if last_avail (queues vblk index) = new_avail then Some (Some new_used, vblk, mem)
      else do {
        let q = queues vblk index;
        buffer_idx \<leftarrow> avail_entry mem q;
        (ok, len, vblk', mem') \<leftarrow> virtio_blk_desc_handler vblk mem q (ucast buffer_idx) 0;
        if \<not> ok then Some (None, virtio_set_fail vblk', mem')
        else do {
          mem'' \<leftarrow> put_used mem' q new_used (ucast buffer_idx) len;
          notify_loop index new_avail (new_used + 1)
            (upd_queue index (\<lambda>q. q\<lparr>last_avail := last_avail q + 1\<rparr>) vblk') mem'' } })"
  by pat_completeness auto

termination
  by (relation "measure (\<lambda>(index, new_avail, _, vblk, _). unat (new_avail - last_avail (queues vblk index)))")
    (auto simp: upd_queue_def u16_distance_decreases dest!: desc_handler_fields)

declare notify_loop.simps [simp del]

definition virtio_blk_queue_notify_handler ::
  "virtio_blk_state_t \<Rightarrow> ram \<Rightarrow> u32 \<Rightarrow> (virtio_blk_state_t \<times> ram) option" where
  "virtio_blk_queue_notify_handler vblk mem index =
     (let q = queues vblk index
      in if Status vblk AND VIRTIO_STATUS__DEVICE_NEEDS_RESET \<noteq> 0 then Some (vblk, mem)
         else if \<not> (Status vblk AND VIRTIO_STATUS__DRIVER_OK \<noteq> 0 \<and> ready q)
         then Some (virtio_set_fail vblk, mem)
         else do {
           w \<leftarrow> ram_cell mem (QueueAvail q);
           let new_avail = (ucast (drop_bit 16 w) :: u16);
           if int (unat new_avail) - int (unat (last_avail q)) > int (unat (ucast (QueueNum q) :: u16))
           then Some (virtio_set_fail vblk, mem)
           else if last_avail q = new_avail then Some (vblk, mem)
           else do {
             u \<leftarrow> ram_cell mem (QueueUsed q);
             (r, vblk, mem) \<leftarrow> notify_loop index new_avail (ucast (drop_bit 16 u)) vblk mem;
             case r of
               None \<Rightarrow> Some (vblk, mem)
             | Some new_used \<Rightarrow> do {
                 mem \<leftarrow> set_used_idx mem (queues vblk index) new_used;
                 a \<leftarrow> ram_cell mem (QueueAvail (queues vblk index));
                 Some (if a AND 1 = 0
                       then vblk\<lparr>InterruptStatus := InterruptStatus vblk OR VIRTIO_INT__USED_RING\<rparr>
                       else vblk, mem) } } })"

text \<open>The range check admits 60 word indices for the 15 words of the structure.\<close>

definition virtio_blk_reg_read :: "virtio_blk_state_t \<Rightarrow> u32 \<Rightarrow> u32 \<Rightarrow> (bool \<times> u32) option" where
  "virtio_blk_reg_read vblk addr val =
     do { r \<leftarrow> virtio_reg_read VBLK_QUEUES 2 vblk addr;
          case r of
            Some v \<Rightarrow> Some (True, v)
          | None \<Rightarrow>
              if \<not> RANGE_CHECK addr VIRTIO_Config CONFIG_BYTES then Some (False, val)
              else if addr - VIRTIO_Config < CONFIG_WORDS then Some (True, priv vblk (addr - VIRTIO_Config))
              else None }"

definition virtio_blk_reg_write ::
  "virtio_blk_state_t \<Rightarrow> ram \<Rightarrow> u32 \<Rightarrow> u32 \<Rightarrow> (bool \<times> virtio_blk_state_t \<times> ram) option" where
  "virtio_blk_reg_write vblk mem addr val =
     (if addr = VIRTIO_QueueNotify then
        if val < VBLK_QUEUES then
          map_option (\<lambda>(vblk, mem). (True, vblk, mem)) (virtio_blk_queue_notify_handler vblk mem val)
        else Some (True, virtio_set_fail vblk, mem)
      else if addr = VIRTIO_Status then Some (True, virtio_blk_update_status vblk val, mem)
      else do {
        r \<leftarrow> virtio_reg_write VBLK_QUEUES mem vblk addr val;
        case r of
          Some vblk \<Rightarrow> Some (True, vblk, mem)
        | None \<Rightarrow>
            if \<not> RANGE_CHECK addr VIRTIO_Config CONFIG_BYTES then Some (False, vblk, mem)
            else if addr - VIRTIO_Config < CONFIG_WORDS then
              Some (True, vblk\<lparr>priv := (priv vblk)(addr - VIRTIO_Config := val)\<rparr>, mem)
            else None })"

definition virtio_blk_read ::
  "virtio_blk_state_t \<Rightarrow> u32 \<Rightarrow> u8 \<Rightarrow> u32 \<Rightarrow> hart_t \<Rightarrow> (u32 \<times> hart_t) option" where
  "virtio_blk_read vblk addr width val h =
     (if width = RV_MEM_LW then
        do { (ok, v) \<leftarrow> virtio_blk_reg_read vblk (drop_bit 2 addr) val;
             Some (v, if ok then h else vm_set_exception RV_EXC_LOAD_FAULT (exc_val h) h) }
      else if width \<in> {RV_MEM_LBU, RV_MEM_LB, RV_MEM_LHU, RV_MEM_LH} then
        Some (val, vm_set_exception RV_EXC_LOAD_MISALIGN (exc_val h) h)
      else Some (val, vm_set_exception RV_EXC_ILLEGAL_INSN 0 h))"

definition virtio_blk_write ::
  "virtio_blk_state_t \<Rightarrow> ram \<Rightarrow> u32 \<Rightarrow> u8 \<Rightarrow> u32 \<Rightarrow> hart_t \<Rightarrow>
     (virtio_blk_state_t \<times> ram \<times> hart_t) option" where
  "virtio_blk_write vblk mem addr width val h =
     (if width = RV_MEM_SW then
        do { (ok, vblk, mem) \<leftarrow> virtio_blk_reg_write vblk mem (drop_bit 2 addr) val;
             Some (vblk, mem, if ok then h else vm_set_exception RV_EXC_STORE_FAULT (exc_val h) h) }
      else if width \<in> {RV_MEM_SB, RV_MEM_SH} then
        Some (vblk, mem, vm_set_exception RV_EXC_STORE_MISALIGN (exc_val h) h)
      else Some (vblk, mem, vm_set_exception RV_EXC_ILLEGAL_INSN 0 h))"

text \<open>
  What \<^verbatim>\<open>virtio_blk_init\<close> stores for an image of \<open>sz\<close> bytes, and without an image (\<open>sz = 0\<close>). The
  mapping of the file extends with zeros to the end of its last page, so the whole last sector
  can be accessed.
\<close>

definition virtio_blk_init :: "(u64 \<Rightarrow> u8) \<Rightarrow> u64 \<Rightarrow> virtio_blk_state_t \<Rightarrow> virtio_blk_state_t" where
  "virtio_blk_init img sz vblk =
     (let cap = (if sz = 0 then 0 else (sz - 1) div DISK_BLK_SIZE + 1)
      in vblk\<lparr>disk := img, disk_len := cap * DISK_BLK_SIZE,
              priv := (priv vblk)(0 := ucast cap, 1 := ucast (drop_bit 32 cap))\<rparr>)"

section \<open>Lemmas\<close>

lemma reg_write_disk_len:
  "virtio_reg_write n mem v addr val = Some (Some v') \<Longrightarrow>
   virtio_state_t.more v' = virtio_state_t.more v"
  by (auto simp: virtio_reg_write_def virtio_set_queue_addr_def virtio_preprocess_def upd_queue_def
      virtio_set_fail_def Let_def split: if_splits bind_splits prod.splits)

text \<open>One rule for what the notify loop does, by computation induction.\<close>

abbreviation next_avail :: "u32 \<Rightarrow> virtio_blk_state_t \<Rightarrow> virtio_blk_state_t" where
  "next_avail index v \<equiv> upd_queue index (\<lambda>q. q\<lparr>last_avail := last_avail q + 1\<rparr>) v"

lemma notify_loop_rule [consumes 1, case_names finished refused served]:
  assumes "notify_loop index new_avail new_used vblk mem = Some (r, vblk', mem')"
    and "\<And>u v m. last_avail (queues v index) = new_avail \<Longrightarrow> P u v m (Some u) v m"
    and "\<And>u v m b len v1 m1. last_avail (queues v index) \<noteq> new_avail \<Longrightarrow>
      avail_entry m (queues v index) = Some b \<Longrightarrow>
      virtio_blk_desc_handler v m (queues v index) (ucast b) 0 = Some (False, len, v1, m1) \<Longrightarrow>
      P u v m None (virtio_set_fail v1) m1"
    and "\<And>u v m b len v1 m1 m2 r v' m'. last_avail (queues v index) \<noteq> new_avail \<Longrightarrow>
      avail_entry m (queues v index) = Some b \<Longrightarrow>
      virtio_blk_desc_handler v m (queues v index) (ucast b) 0 = Some (True, len, v1, m1) \<Longrightarrow>
      put_used m1 (queues v index) u (ucast b) len = Some m2 \<Longrightarrow>
      P (u + 1) (next_avail index v1) m2 r v' m' \<Longrightarrow> P u v m r v' m'"
  shows "P new_used vblk mem r vblk' mem'"
  using assms(1)
proof (induction "unat (new_avail - last_avail (queues vblk index))"
    arbitrary: new_used vblk mem r vblk' mem' rule: less_induct)
  case less
  show ?case
  proof (cases "last_avail (queues vblk index) = new_avail")
    case True
    then show ?thesis using less.prems assms(2) by (auto simp: notify_loop.simps [of index])
  next
    case more: False
    then obtain b ok len v1 m1 where step: "avail_entry mem (queues vblk index) = Some b"
      "virtio_blk_desc_handler vblk mem (queues vblk index) (ucast b) 0 = Some (ok, len, v1, m1)"
      using less.prems by (auto simp: notify_loop.simps [of index] Let_def split: bind_splits)
    show ?thesis
    proof (cases ok)
      case False
      then show ?thesis
        using less.prems step assms(3) [OF more step(1)] more by (simp add: notify_loop.simps [of index])
    next
      case True
      then obtain m2 where m2: "put_used m1 (queues vblk index) new_used (ucast b) len = Some m2"
        "notify_loop index new_avail (new_used + 1) (next_avail index v1) m2 = Some (r, vblk', mem')"
        using less.prems more step
        by (auto simp: notify_loop.simps [of index new_avail new_used vblk] Let_def split: bind_splits)
      have "last_avail (queues (next_avail index v1) index) = last_avail (queues vblk index) + 1"
        using desc_handler_fields [OF step(2)] by (simp add: upd_queue_def)
      then have "unat (new_avail - last_avail (queues (next_avail index v1) index))
          < unat (new_avail - last_avail (queues vblk index))"
        using u16_distance_decreases [OF more] by simp
      note rest = less.hyps [OF this m2(2)]
      have "virtio_blk_desc_handler vblk mem (queues vblk index) (ucast b) 0 = Some (True, len, v1, m1)"
        using step(2) True by simp
      from assms(4) [OF more step(1) this m2(1) rest] show ?thesis .
    qed
  qed
qed

definition same_rings :: "virtio_queue_t \<Rightarrow> virtio_queue_t \<Rightarrow> bool" where
  "same_rings q q' \<longleftrightarrow> QueueNum q' = QueueNum q \<and> QueueDesc q' = QueueDesc q \<and>
     QueueAvail q' = QueueAvail q \<and> QueueUsed q' = QueueUsed q \<and> ready q' = ready q"

lemma notify_loop_fields:
  assumes "notify_loop index new_avail new_used vblk mem = Some (r, vblk', mem')"
  shows "disk_len vblk' = disk_len vblk \<and> priv vblk' = priv vblk \<and> QueueSel vblk' = QueueSel vblk \<and>
    (\<forall>i. same_rings (queues vblk i) (queues vblk' i))"
  using assms
proof (induction rule: notify_loop_rule)
  case (finished u v m)
  show ?case by (simp add: same_rings_def)
next
  case (refused u v m b len v1 m1)
  from desc_handler_fields [OF this(3)] show ?case
    by (simp add: virtio_set_fail_def Let_def same_rings_def)
next
  case (served u v m b len v1 m1 m2 r v' m')
  have "same_rings (queues v i) (queues v' i)" for i
    using desc_handler_fields [OF served(3)] served(5)
    by (cases "i = index") (simp_all add: upd_queue_def same_rings_def)
  with desc_handler_fields [OF served(3)] served(5) show ?case by (simp add: upd_queue_def)
qed

lemma notify_loop_counts:
  assumes "notify_loop index new_avail new_used vblk mem = Some (r, vblk', mem')"
  shows "case r of None \<Rightarrow> Status vblk' AND VIRTIO_STATUS__DEVICE_NEEDS_RESET \<noteq> 0
    | Some u \<Rightarrow> last_avail (queues vblk' index) = new_avail \<and>
        u - new_used = new_avail - last_avail (queues vblk index)"
  using assms
proof (induction rule: notify_loop_rule)
  case (finished u v m)
  then show ?case by simp
next
  case (refused u v m b len v1 m1)
  show ?case
    by (simp add: virtio_set_fail_def Let_def and.commute word_ao_dist)
next
  case (served u v m b len v1 m1 m2 r v' m')
  from desc_handler_fields [OF served(3)] served(5) show ?case
    by (auto simp: upd_queue_def algebra_simps split: option.splits)
qed

lemma queue_notify_fields:
  "virtio_blk_queue_notify_handler vblk mem index = Some (vblk', mem') \<Longrightarrow>
     disk_len vblk' = disk_len vblk \<and> priv vblk' = priv vblk \<and> QueueSel vblk' = QueueSel vblk \<and>
     (\<forall>i. same_rings (queues vblk i) (queues vblk' i))"
  by (auto simp: virtio_blk_queue_notify_handler_def virtio_set_fail_def same_rings_def Let_def
      dest!: notify_loop_fields split: if_splits bind_splits option.splits)

lemma blk_reg_write_disk_len:
  assumes "virtio_blk_reg_write vblk mem addr val = Some (ok, vblk', mem')"
  shows "disk_len vblk' = disk_len vblk"
proof -
  have more: "disk_len v = disk_len w" if "virtio_state_t.more v = virtio_state_t.more w" for v w
    using that by (cases v; cases w) simp
  show ?thesis
    using assms queue_notify_fields [of vblk mem val vblk' mem']
      reg_write_disk_len [of VBLK_QUEUES mem vblk addr val vblk', THEN more]
    by (auto simp: virtio_blk_reg_write_def virtio_blk_update_status_def virtio_set_fail_def Let_def
        split: if_splits bind_splits option.splits)
qed

interpretation vblk: mmio_device
  "\<lambda>s addr width val h. map_option (\<lambda>(v, h). (v, s, h)) (virtio_blk_read (fst s) addr width val h)"
  "\<lambda>s addr width val h.
     map_option (\<lambda>(v, mem, h). ((v, mem), h)) (virtio_blk_write (fst s) (snd s) addr width val h)"
  "\<lambda>s. disk_len (fst s)"
  by unfold_locales
    (auto simp: virtio_blk_read_def virtio_blk_write_def
      dest: blk_reg_write_disk_len split: if_splits bind_splits)

text \<open>Ranges of the disk.\<close>

lemma disk_get_bytes_spec:
  "unat a + n \<le> unat (disk_len vblk) \<Longrightarrow>
   disk_get_bytes a n vblk = Some (map (\<lambda>i. disk vblk (a + word_of_nat i)) [0..<n])"
proof (induction n arbitrary: a)
  case 0
  then show ?case by simp
next
  case (Suc n)
  have "unat (a + 1) = unat a + 1"
    using Suc.prems unsigned_less [of "disk_len vblk", where ?'a = nat] by (simp add: unat_word_ariths)
  moreover have "a < disk_len vblk" using Suc.prems by (simp add: word_less_nat_alt)
  ultimately show ?case
    using Suc by (simp add: map_upt_Suc add.assoc del: upt_Suc)
qed

lemma disk_put_bytes_spec:
  "unat a + length bs \<le> unat (disk_len vblk) \<Longrightarrow>
   \<exists>d. disk_put_bytes a bs vblk = Some (vblk\<lparr>disk := d\<rparr>) \<and>
     (\<forall>x. d x = (if unat a \<le> unat x \<and> unat x < unat a + length bs then bs ! (unat x - unat a) else disk vblk x))"
proof (induction bs arbitrary: a vblk)
  case Nil
  show ?case by (rule exI [of _ "disk vblk"]) auto
next
  case (Cons b bs)
  let ?v = "vblk\<lparr>disk := (disk vblk)(a := b)\<rparr>"
  have a: "unat (a + 1) = unat a + 1"
    using Cons.prems unsigned_less [of "disk_len vblk", where ?'a = nat] by (simp add: unat_word_ariths)
  have less: "a < disk_len vblk" using Cons.prems by (simp add: word_less_nat_alt)
  obtain d where "disk_put_bytes (a + 1) bs ?v = Some (?v\<lparr>disk := d\<rparr>)" and
    d: "\<forall>x. d x = (if unat (a + 1) \<le> unat x \<and> unat x < unat (a + 1) + length bs
             then bs ! (unat x - unat (a + 1)) else disk ?v x)"
    using Cons.IH [of "a + 1" ?v] Cons.prems a by auto
  moreover have "d x = (if unat a \<le> unat x \<and> unat x < unat a + length (b # bs)
      then (b # bs) ! (unat x - unat a) else disk vblk x)" for x
    using d a by (auto simp: nth_Cons' word_unat_eq_iff)
  ultimately show ?case using less by auto
qed

lemma ram_get_bytes_spec:
  "unat a + n \<le> 0x20000000 \<Longrightarrow>
   ram_get_bytes mem a n = Some (map (\<lambda>i. byte_at mem (ucast a + word_of_nat i)) [0..<n])"
proof (induction n arbitrary: a)
  case 0
  then show ?case by simp
next
  case (Suc n)
  have "unat (a + 1) = unat a + 1" "a < RAM_SIZE_64"
    using Suc.prems by (simp_all add: unat_word_ariths word_less_nat_alt)
  moreover have "(ucast (a + 1) :: u32) = ucast a + 1"
    using Suc.prems
    by (simp add: word_unat_eq_iff unat_word_ariths unsigned_ucast_eq take_bit_eq_mod)
  ultimately show ?case
    using Suc by (simp add: ram_get_byte_def map_upt_Suc add.assoc del: upt_Suc)
qed

text \<open>
  A well-formed request: three chained descriptors whose header holds the type and the sector,
  whose data and status lie in guest RAM, with the status byte outside the data.
\<close>

definition blk_request ::
  "ram \<Rightarrow> virtio_queue_t \<Rightarrow> u32 \<Rightarrow> u32 \<Rightarrow> u64 \<Rightarrow> u64 \<Rightarrow> u32 \<Rightarrow> u64 \<Rightarrow> bool" where
  "blk_request mem q idx ty sector data len status \<longleftrightarrow>
     (\<exists>d0 d1 d2. collect_descs 3 mem q idx = Some (Some [d0, d1, d2]) \<and>
        has_next d0 \<and> has_next d1 \<and> \<not> has_next d2 \<and>
        ram_get_u32 mem (desc_addr d0) = Some ty \<and>
        ram_get_u32 mem (desc_addr d0 + 8) = Some (ucast sector) \<and>
        ram_get_u32 mem (desc_addr d0 + 12) = Some (ucast (drop_bit 32 sector)) \<and>
        desc_addr d1 = data \<and> desc_len d1 = len \<and> desc_addr d2 = status) \<and>
     unat data + unat len \<le> 0x20000000 \<and> unat status < 0x20000000 \<and>
     \<not> (unat data \<le> unat status \<and> unat status < unat data + unat len)"

definition in_disk :: "virtio_blk_state_t \<Rightarrow> u64 \<Rightarrow> u32 \<Rightarrow> bool" where
  "in_disk vblk sector len \<longleftrightarrow>
     unat sector < unat (capacity vblk) \<and> 512 * unat sector + unat len \<le> 512 * unat (capacity vblk)"

definition disk_ok :: "virtio_blk_state_t \<Rightarrow> bool" where
  "disk_ok vblk \<longleftrightarrow> 512 * unat (capacity vblk) \<le> unat (disk_len vblk)"

lemma sector_join: "ucast (ucast (x :: u64) :: u32) OR push_bit 32 (ucast (ucast (drop_bit 32 x) :: u32)) = x"
  by (rule bit_word_eqI) (auto simp: bit_simps)

lemma sector_offset:
  assumes "disk_ok vblk"
  shows "unat (capacity vblk * DISK_BLK_SIZE) = 512 * unat (capacity vblk)"
    "unat sector < unat (capacity vblk) \<Longrightarrow> unat (sector * DISK_BLK_SIZE) = 512 * unat sector"
  using assms unsigned_less [of "disk_len vblk", where ?'a = nat]
  by (simp_all add: disk_ok_def unat_word_ariths mult.commute)

lemma in_disk_iff:
  assumes "disk_ok vblk"
  shows "in_disk vblk sector len \<longleftrightarrow>
    \<not> (sector \<ge> capacity vblk \<or>
       ucast len > capacity vblk * DISK_BLK_SIZE - sector * DISK_BLK_SIZE)"
proof (cases "unat sector < unat (capacity vblk)")
  case True
  note off = sector_offset(1) [OF assms] sector_offset(2) [OF assms True]
  have "unat (capacity vblk * DISK_BLK_SIZE - sector * DISK_BLK_SIZE)
      = 512 * unat (capacity vblk) - 512 * unat sector"
    using True off by (subst unat_sub) (simp_all add: word_le_nat_alt)
  moreover have "unat (ucast len :: u64) = unat len"
    using unsigned_less [of len, where ?'a = nat] by (simp add: unsigned_ucast_eq take_bit_eq_mod)
  ultimately show ?thesis
    using True by (auto simp: in_disk_def word_le_nat_alt word_less_nat_alt)
next
  case False
  then show ?thesis by (simp add: in_disk_def word_le_nat_alt)
qed

lemma put_status:
  assumes "unat status < 0x20000000"
  shows "\<exists>mem'. ram_put_byte mem status v = Some mem' \<and>
    (\<forall>b. byte_at mem' b = (if unat b = unat status then v else byte_at mem b))"
proof -
  have "unat (ucast status :: u32) = unat status" "status < RAM_SIZE_64"
    using assms by (simp_all add: unsigned_ucast_eq take_bit_eq_mod word_less_nat_alt)
  then show ?thesis by (auto simp: ram_put_byte_def byte_at_put_byte word_unat_eq_iff)
qed

section \<open>Properties\<close>

text \<open>
  C28: A read request inside the disk succeeds: the data bytes in guest RAM become the bytes of
  the disk from the sector on, the status byte becomes 0, every other byte of guest RAM and the
  device keep their value, and the reported length is the length of the data.
\<close>

theorem vblk_read_request:
  assumes "blk_request mem q idx 0 sector data len status"
    and "in_disk vblk sector len" "disk_ok vblk"
  shows "\<exists>mem'. virtio_blk_desc_handler vblk mem q idx plen = Some (True, len, vblk, mem') \<and>
    (\<forall>b. byte_at mem' b =
       (if unat b = unat status then 0
        else if unat data \<le> unat b \<and> unat b < unat data + unat len
        then disk vblk (sector * 512 + word_of_nat (unat b - unat data)) else byte_at mem b))"
proof -
  from assms(1) obtain d0 d1 d2 where
    chain: "collect_descs 3 mem q idx = Some (Some [d0, d1, d2])"
    "has_next d0" "has_next d1" "\<not> has_next d2"
    "ram_get_u32 mem (desc_addr d0) = Some 0"
    "ram_get_u32 mem (desc_addr d0 + 8) = Some (ucast sector)"
    "ram_get_u32 mem (desc_addr d0 + 12) = Some (ucast (drop_bit 32 sector))"
    "desc_addr d1 = data" "desc_len d1 = len" "desc_addr d2 = status"
    and place: "unat data + unat len \<le> 0x20000000" "unat status < 0x20000000"
    "\<not> (unat data \<le> unat status \<and> unat status < unat data + unat len)"
    unfolding blk_request_def by blast
  let ?bs = "map (\<lambda>i. disk vblk (sector * 512 + word_of_nat i)) [0..<unat len]"
  have "unat (sector * 512) + unat len \<le> unat (disk_len vblk)"
    using assms(2,3) sector_offset(2) [OF assms(3)] by (simp add: in_disk_def disk_ok_def)
  note get = disk_get_bytes_spec [OF this]
  obtain m1 where m1: "ram_put_bytes mem data ?bs = Some m1"
    "\<forall>b. byte_at m1 b = (if unat data \<le> unat b \<and> unat b < unat data + length ?bs
       then ?bs ! (unat b - unat data) else byte_at mem b)"
    using ram_put_bytes_spec [of data ?bs mem] place(1) by auto
  obtain m2 where m2: "ram_put_byte m1 status 0 = Some m2"
    "\<forall>b. byte_at m2 b = (if unat b = unat status then 0 else byte_at m1 b)"
    using put_status [OF place(2)] by blast
  have "virtio_blk_desc_handler vblk mem q idx plen = Some (True, len, vblk, m2)"
    using chain get m1(1) m2(1) assms(2) in_disk_iff [OF assms(3)]
    by (simp add: virtio_blk_desc_handler_def virtio_blk_read_handler_def sector_join Let_def)
  with m1(2) m2(2) show ?thesis by auto
qed

text \<open>A request with a header at 0x1000, 2 bytes of data at 0x2000 and the status at 0x3000.\<close>

definition example_queue :: virtio_queue_t where
  "example_queue = \<lparr>QueueNum = 4, QueueDesc = 0x100, QueueAvail = 0x200, QueueUsed = 0x300,
     last_avail = 0, ready = True\<rparr>"

definition example_ram :: "u32 \<Rightarrow> u32 \<Rightarrow> ram" where
  "example_ram ty sector =
     (\<lambda>_. 0)(0x100 := 0x1000, 0x102 := 16, 0x103 := 0x10001,
             0x104 := 0x2000, 0x106 := 2, 0x107 := 0x20001,
             0x108 := 0x3000, 0x10A := 1, 0x10B := 2,
             0x200 := 0x10000, 0x400 := ty, 0x402 := sector, 0x800 := 0xBEEF)"

definition example_blk :: virtio_blk_state_t where
  "example_blk = \<lparr>DeviceFeaturesSel = 0, DriverFeatures = 0, DriverFeaturesSel = 0, QueueSel = 0,
     queues = (\<lambda>_. example_queue), Status = 4, InterruptStatus = 0,
     priv = (\<lambda>_. 0)(0 := 2), disk = (\<lambda>i. ucast i), disk_len = 1024\<rparr>"

lemma example_header:
  "ram_get_u32 (example_ram ty sector) 0x1000 = Some ty"
  "ram_get_u32 (example_ram ty sector) 0x1008 = Some sector"
  "ram_get_u32 (example_ram ty sector) 0x100C = Some 0"
  by (simp_all add: ram_get_u32_def ram_get_byte_def byte_at_def example_ram_def)
    (simp_all add: word32_eq_bits bit_simps)

lemma example_chain:
  "collect_descs 3 (example_ram ty sector) example_queue 0 = Some (Some
    [\<lparr>desc_addr = 0x1000, desc_len = 16, desc_flags = 1, desc_next = 1\<rparr>,
     \<lparr>desc_addr = 0x2000, desc_len = 2, desc_flags = 1, desc_next = 2\<rparr>,
     \<lparr>desc_addr = 0x3000, desc_len = 1, desc_flags = 2, desc_next = 0\<rparr>])"
  by (simp add: numeral_3_eq_3 fetch_desc_def ram_cell_def example_ram_def example_queue_def
      word_le_nat_alt)

lemma example_request:
  "blk_request (example_ram ty sector) example_queue 0 ty (ucast sector) 0x2000 2 0x3000"
proof -
  have "(ucast (drop_bit 32 (ucast sector :: u64)) :: u32) = 0" "(ucast (ucast sector :: u64) :: u32) = sector"
    by (rule bit_word_eqI; auto simp: bit_simps dest: bit_imp_le_length)+
  then show ?thesis
    unfolding blk_request_def
    by (simp add: example_chain has_next_def example_header)
qed

lemma example_disk: "disk_ok example_blk" "in_disk example_blk 1 2" "\<not> in_disk example_blk 2 2"
  by (simp_all add: disk_ok_def in_disk_def capacity_def example_blk_def)

theorem vblk_read_request_witness:
  "\<exists>mem'. virtio_blk_desc_handler example_blk (example_ram 0 1) example_queue 0 0 =
      Some (True, 2, example_blk, mem') \<and>
    byte_at mem' 0x2001 = 1 \<and> byte_at mem' 0x3000 = 0 \<and> byte_at mem' 0x1008 = 1"
proof -
  have "blk_request (example_ram 0 1) example_queue 0 0 1 0x2000 2 0x3000"
    using example_request [of 0 1] by simp
  from vblk_read_request [OF this example_disk(2,1), of 0]
  obtain mem' where "virtio_blk_desc_handler example_blk (example_ram 0 1) example_queue 0 0 =
      Some (True, 2, example_blk, mem')"
    and b: "\<forall>b. byte_at mem' b =
       (if unat b = unat (0x3000 :: u64) then 0
        else if unat (0x2000 :: u64) \<le> unat b \<and> unat b < unat (0x2000 :: u64) + unat (2 :: u32)
        then disk example_blk (1 * 512 + word_of_nat (unat b - unat (0x2000 :: u64)))
        else byte_at (example_ram 0 1) b)"
    by blast
  moreover have "byte_at mem' 0x2001 = 1" "byte_at mem' 0x3000 = 0" "byte_at mem' 0x1008 = 1"
    by (simp_all only: b) (simp_all add: example_blk_def byte_at_def example_ram_def)
  ultimately show ?thesis by blast
qed

text \<open>
  C29: A write request inside the disk succeeds: the bytes of the disk from the sector on become
  the data bytes of guest RAM, every other byte of the disk stays, and of guest RAM only the
  status byte changes, to 0.
\<close>

theorem vblk_write_request:
  assumes "blk_request mem q idx 1 sector data len status"
    and "in_disk vblk sector len" "disk_ok vblk"
  shows "\<exists>d mem'. virtio_blk_desc_handler vblk mem q idx plen =
      Some (True, len, vblk\<lparr>disk := d\<rparr>, mem') \<and>
    (\<forall>x. d x = (if 512 * unat sector \<le> unat x \<and> unat x < 512 * unat sector + unat len
       then byte_at mem (ucast data + word_of_nat (unat x - 512 * unat sector)) else disk vblk x)) \<and>
    (\<forall>b. byte_at mem' b = (if unat b = unat status then 0 else byte_at mem b))"
proof -
  from assms(1) obtain d0 d1 d2 where
    chain: "collect_descs 3 mem q idx = Some (Some [d0, d1, d2])"
    "has_next d0" "has_next d1" "\<not> has_next d2"
    "ram_get_u32 mem (desc_addr d0) = Some 1"
    "ram_get_u32 mem (desc_addr d0 + 8) = Some (ucast sector)"
    "ram_get_u32 mem (desc_addr d0 + 12) = Some (ucast (drop_bit 32 sector))"
    "desc_addr d1 = data" "desc_len d1 = len" "desc_addr d2 = status"
    and place: "unat data + unat len \<le> 0x20000000" "unat status < 0x20000000"
    unfolding blk_request_def by blast
  let ?bs = "map (\<lambda>i. byte_at mem (ucast data + word_of_nat i)) [0..<unat len]"
  note off = sector_offset(2) [OF assms(3), of sector]
  have "unat (sector * 512) + length ?bs \<le> unat (disk_len vblk)"
    using assms(2,3) off by (simp add: in_disk_def disk_ok_def)
  from disk_put_bytes_spec [OF this] obtain d where
    d: "disk_put_bytes (sector * 512) ?bs vblk = Some (vblk\<lparr>disk := d\<rparr>)"
    "\<forall>x. d x = (if unat (sector * 512) \<le> unat x \<and> unat x < unat (sector * 512) + length ?bs
       then ?bs ! (unat x - unat (sector * 512)) else disk vblk x)"
    by blast
  obtain m2 where m2: "ram_put_byte mem status 0 = Some m2"
    "\<forall>b. byte_at m2 b = (if unat b = unat status then 0 else byte_at mem b)"
    using put_status [OF place(2)] by blast
  have "virtio_blk_desc_handler vblk mem q idx plen = Some (True, len, vblk\<lparr>disk := d\<rparr>, m2)"
    using chain ram_get_bytes_spec [OF place(1)] d(1) m2(1) assms(2) in_disk_iff [OF assms(3)]
    by (simp add: virtio_blk_desc_handler_def virtio_blk_write_handler_def sector_join Let_def)
  with d(2) m2(2) off assms(2) show ?thesis by (auto simp: in_disk_def)
qed

theorem vblk_write_request_witness:
  "\<exists>d mem'. virtio_blk_desc_handler example_blk (example_ram 1 1) example_queue 0 0 =
      Some (True, 2, example_blk\<lparr>disk := d\<rparr>, mem') \<and> d 512 = 0xEF \<and> d 513 = 0xBE \<and> d 514 = 2"
proof -
  have "blk_request (example_ram 1 1) example_queue 0 1 1 0x2000 2 0x3000"
    using example_request [of 1 1] by simp
  from vblk_write_request [OF this example_disk(2,1), of 0]
  obtain d mem' where "virtio_blk_desc_handler example_blk (example_ram 1 1) example_queue 0 0 =
      Some (True, 2, example_blk\<lparr>disk := d\<rparr>, mem')"
    and d: "\<forall>x. d x = (if 512 * unat (1 :: u64) \<le> unat x \<and> unat x < 512 * unat (1 :: u64) + unat (2 :: u32)
       then byte_at (example_ram 1 1) (ucast (0x2000 :: u64) + word_of_nat (unat x - 512 * unat (1 :: u64)))
       else disk example_blk x)"
    by blast
  moreover have "d 512 = 0xEF" "d 513 = 0xBE" "d 514 = 2"
    by (simp_all only: d) (simp_all add: example_blk_def byte_at_def example_ram_def)
  ultimately show ?thesis by blast
qed

text \<open>
  C30: A request that starts beyond the last sector or runs past it is refused: only the status
  byte of guest RAM changes, to the I/O error code, and the disk is not touched.
\<close>

theorem vblk_out_of_range_refused:
  assumes "blk_request mem q idx ty sector data len status"
    and "\<not> in_disk vblk sector len" "disk_ok vblk"
  shows "\<exists>mem'. virtio_blk_desc_handler vblk mem q idx plen = Some (False, plen, vblk, mem') \<and>
    (\<forall>b. byte_at mem' b = (if unat b = unat status then 1 else byte_at mem b))"
proof -
  obtain m2 where "ram_put_byte mem status 1 = Some m2"
    "\<forall>b. byte_at m2 b = (if unat b = unat status then 1 else byte_at mem b)"
    using put_status [of status mem 1] assms(1) unfolding blk_request_def by blast
  then show ?thesis
    using assms(1,2) in_disk_iff [OF assms(3), of sector len]
    by (auto simp: blk_request_def virtio_blk_desc_handler_def sector_join Let_def)
qed

theorem vblk_out_of_range_refused_witness:
  "\<exists>mem'. virtio_blk_desc_handler example_blk (example_ram 1 2) example_queue 0 0 =
      Some (False, 0, example_blk, mem') \<and> byte_at mem' 0x3000 = 1"
proof -
  have "blk_request (example_ram 1 2) example_queue 0 1 2 0x2000 2 0x3000"
    using example_request [of 1 2] by simp
  from vblk_out_of_range_refused [OF this example_disk(3,1), of 0] show ?thesis by auto
qed

definition avail_idx :: "ram \<Rightarrow> virtio_queue_t \<Rightarrow> u16" where
  "avail_idx mem q = ucast (drop_bit 16 (mem (QueueAvail q)))"

definition used_idx :: "ram \<Rightarrow> virtio_queue_t \<Rightarrow> u16" where
  "used_idx mem q = ucast (drop_bit 16 (mem (QueueUsed q)))"

lemma used_idx_set:
  "set_used_idx mem q u = Some mem' \<Longrightarrow> used_idx mem' q = u"
  by (auto simp: set_used_idx_def used_idx_def ram_set_cell_def ram_cell_def split: if_splits)
    (rule bit_word_eqI; auto simp: bit_simps)

text \<open>
  C23: A notification serves every request the driver has made available, once: unless the device
  ends in the failed state, it has caught up with the driver's index, the used index has advanced
  by exactly the number of requests that were pending, the rings stay where they are, and the
  interrupt is raised unless the driver has suppressed it.
\<close>

theorem vblk_notify_serves_all:
  assumes "virtio_blk_queue_notify_handler vblk mem i = Some (vblk', mem')"
    and "Status vblk' AND VIRTIO_STATUS__DEVICE_NEEDS_RESET = 0"
    and "last_avail (queues vblk i) \<noteq> avail_idx mem (queues vblk i)"
  shows "last_avail (queues vblk' i) = avail_idx mem (queues vblk i) \<and>
    used_idx mem' (queues vblk' i) - used_idx mem (queues vblk i) =
      avail_idx mem (queues vblk i) - last_avail (queues vblk i) \<and>
    same_rings (queues vblk i) (queues vblk' i) \<and>
    (mem' (QueueAvail (queues vblk i)) AND 1 = 0 \<longrightarrow> InterruptStatus vblk' AND VIRTIO_INT__USED_RING \<noteq> 0)"
proof -
  let ?q = "queues vblk i"
  have fail: "Status (virtio_set_fail v) AND VIRTIO_STATUS__DEVICE_NEEDS_RESET \<noteq> 0" for v :: virtio_blk_state_t
    by (simp add: virtio_set_fail_def Let_def word_ao_dist)
  obtain r v1 m1 where loop:
    "notify_loop i (avail_idx mem ?q) (used_idx mem ?q) vblk mem = Some (r, v1, m1)"
    and rest: "(case r of None \<Rightarrow> Some (v1, m1)
      | Some new_used \<Rightarrow> do {
          mem \<leftarrow> set_used_idx m1 (queues v1 i) new_used;
          a \<leftarrow> ram_cell mem (QueueAvail (queues v1 i));
          Some (if a AND 1 = 0 then v1\<lparr>InterruptStatus := InterruptStatus v1 OR VIRTIO_INT__USED_RING\<rparr>
                else v1, mem) }) = Some (vblk', mem')"
    using assms fail
    by (auto simp: virtio_blk_queue_notify_handler_def ram_cell_def avail_idx_def used_idx_def Let_def
        split: if_splits bind_splits)
  note counts = notify_loop_counts [OF loop] and fields = notify_loop_fields [OF loop]
  show ?thesis
  proof (cases r)
    case None
    then show ?thesis using rest counts assms(2) by simp
  next
    case (Some u)
    then obtain m2 a where m2: "set_used_idx m1 (queues v1 i) u = Some m2" "mem' = m2"
      "ram_cell m2 (QueueAvail (queues v1 i)) = Some a"
      "vblk' = (if a AND 1 = 0 then v1\<lparr>InterruptStatus := InterruptStatus v1 OR VIRTIO_INT__USED_RING\<rparr> else v1)"
      using rest by (auto split: bind_splits if_splits)
    have "queues vblk' i = queues v1 i" "a = m2 (QueueAvail ?q)"
      using m2 fields by (auto simp: ram_cell_def same_rings_def split: if_splits)
    then show ?thesis
      using counts fields m2 used_idx_set [OF m2(1)] Some by (auto simp: word_ao_dist)
  qed
qed

theorem vblk_notify_serves_all_witness:
  "\<exists>vblk' mem'. virtio_blk_queue_notify_handler example_blk (example_ram 0 0) 0 =
      Some (vblk', mem') \<and> last_avail (queues vblk' 0) = 1 \<and> used_idx mem' (queues vblk' 0) = 1"
proof -
  let ?m = "example_ram 0 0"
  have q: "queues example_blk i = example_queue" "Status example_blk = 4" for i
    by (simp_all add: example_blk_def)
  have idx: "avail_entry ?m example_queue = Some 0" "avail_idx ?m example_queue = 1"
    "used_idx ?m example_queue = 0"
    by (simp_all add: avail_entry_def avail_idx_def used_idx_def ring_index_def ram_cell_def
        example_queue_def example_ram_def)
  obtain m1 where h: "virtio_blk_desc_handler example_blk ?m example_queue 0 0 = Some (True, 2, example_blk, m1)"
  proof -
    let ?bs = "map (\<lambda>i. disk example_blk (0 + word_of_nat i)) [0..<2]"
    have "disk_get_bytes 0 2 example_blk = Some ?bs"
      by (rule disk_get_bytes_spec) (simp add: example_blk_def)
    moreover obtain m0 where "ram_put_bytes ?m 0x2000 ?bs = Some m0"
      using ram_put_bytes_spec [of "0x2000" ?bs ?m] by auto
    moreover obtain m1 where "ram_put_byte m0 0x3000 0 = Some m1"
      using put_status [of "0x3000" m0 0] by auto
    moreover have "capacity example_blk = 2" by (simp add: capacity_def example_blk_def)
    ultimately show ?thesis
      using that
      by (simp add: virtio_blk_desc_handler_def example_chain example_header has_next_def
          virtio_blk_read_handler_def)
  qed
  obtain m2 where u: "put_used m1 example_queue 0 0 2 = Some m2"
    by (simp add: put_used_def ring_index_def ram_set_cell_def example_queue_def)
  let ?v = "next_avail 0 example_blk"
  have v: "queues ?v 0 = example_queue\<lparr>last_avail := 1\<rparr>" "Status ?v = 4"
    by (simp_all add: upd_queue_def q example_queue_def)
  have loop: "notify_loop 0 1 0 example_blk ?m = Some (Some 1, ?v, m2)"
    using idx h u v
    by (simp add: notify_loop.simps [of 0 1 0] notify_loop.simps [of 0 1 1 ?v] q example_queue_def)
  have w: "ram_cell ?m 0x200 = Some 0x10000" "ram_cell ?m 0x300 = Some 0"
    by (simp_all add: ram_cell_def example_ram_def)
  have done_: "set_used_idx m2 (example_queue\<lparr>last_avail := 1\<rparr>) 1 =
      Some (m2(0x300 := (m2 0x300 AND MASK 16) OR 0x10000))"
    by (simp add: set_used_idx_def ram_cell_def ram_set_cell_def example_queue_def)
  obtain vblk' mem' where n: "virtio_blk_queue_notify_handler example_blk ?m 0 = Some (vblk', mem')"
    and s: "Status vblk' = 4"
    using loop w done_ v q
    by (simp add: virtio_blk_queue_notify_handler_def example_queue_def ram_cell_def)
  from vblk_notify_serves_all [OF n] idx q s n show ?thesis
    by (simp add: example_queue_def)
qed

text \<open>
  The configuration space is not protected. A store to its first word changes the capacity
  that bounds all requests, whatever the size of the disk; and an access to the words after the
  15 words of the structure, which the range check lets through, is outside the structure.
\<close>

theorem vblk_config_not_protected:
  "virtio_blk_write vblk mem 0x100 RV_MEM_SW x h =
     Some (vblk\<lparr>priv := (priv vblk)(0 := x)\<rparr>, mem, h) \<and>
   ucast (capacity (vblk\<lparr>priv := (priv vblk)(0 := x)\<rparr>)) = x \<and>
   virtio_blk_read vblk 0x13C RV_MEM_LW v h = None \<and> virtio_blk_write vblk mem 0x13C RV_MEM_SW x h = None"
proof -
  have "ucast (capacity (vblk\<lparr>priv := (priv vblk)(0 := x)\<rparr>)) = x"
    by (rule bit_word_eqI) (auto simp: capacity_def bit_simps)
  then show ?thesis
    by (simp add: virtio_blk_write_def virtio_blk_read_def virtio_blk_reg_write_def
        virtio_blk_reg_read_def virtio_reg_write_def virtio_reg_read_def RANGE_CHECK_def)
qed

end
