(* ===== verification/Virtio_Rng.thy ===== *)
theory Virtio_Rng
  imports Virtio
begin

text \<open>
  The virtio entropy device of \<^verbatim>\<open>src/virtio-rng.c\<close>. The host's random device is a script of
  answers to \<^verbatim>\<open>read\<close>: an error, or bytes of which at most the requested number is delivered; an
  exhausted script is a \<^verbatim>\<open>read\<close> that blocks.
\<close>

section \<open>Operations\<close>

type_synonym virtio_rng_state_t = virtio_state_t
type_synonym entropy = "u8 list option list"

abbreviation (input) VRNG_QUEUES :: u32 where "VRNG_QUEUES \<equiv> 1"

definition virtio_rng_update_status :: "virtio_rng_state_t \<Rightarrow> u32 \<Rightarrow> virtio_rng_state_t" where
  "virtio_rng_update_status vrng status =
     (let vrng = vrng\<lparr>Status := Status vrng OR status\<rparr>
      in if status \<noteq> 0 then vrng
         else \<lparr>DeviceFeaturesSel = 0, DriverFeatures = 0, DriverFeaturesSel = 0, QueueSel = 0,
               queues = (\<lambda>_. \<lparr>QueueNum = 0, QueueDesc = 0, QueueAvail = 0, QueueUsed = 0,
                               last_avail = 0, ready = False\<rparr>),
               Status = 0, InterruptStatus = 0\<rparr>)"

text \<open>The 16-bit flags field of a descriptor is the low half of its last word.\<close>

definition clear_desc_flags :: "ram \<Rightarrow> virtio_queue_t \<Rightarrow> u32 \<Rightarrow> ram option" where
  "clear_desc_flags mem q desc_idx =
     (let i = QueueDesc q + desc_idx * 4 + 3
      in do { w \<leftarrow> ram_cell mem i; ram_set_cell mem i (w AND NOT (MASK 16)) })"

definition virtio_rng_queue_notify_handler ::
  "virtio_rng_state_t \<Rightarrow> ram \<Rightarrow> entropy \<Rightarrow> (virtio_rng_state_t \<times> ram \<times> entropy) option" where
  "virtio_rng_queue_notify_handler vrng mem ent =
     do { q \<leftarrow> sel_queue VRNG_QUEUES vrng;
          buffer_idx \<leftarrow> avail_entry mem q;
          let vrng = upd_queue (QueueSel vrng) (\<lambda>q. q\<lparr>last_avail := last_avail q + 1\<rparr>) vrng;
          d \<leftarrow> fetch_desc mem q (ucast buffer_idx);
          (bs, ent) \<leftarrow> (case ent of [] \<Rightarrow> None
                         | r # rs \<Rightarrow> Some (case r of None \<Rightarrow> [] | Some bs \<Rightarrow> take (unat (desc_len d)) bs, rs));
          mem \<leftarrow> ram_put_bytes mem (desc_addr d) bs;
          mem \<leftarrow> clear_desc_flags mem q (ucast buffer_idx);
          u \<leftarrow> ram_cell mem (QueueUsed q);
          let used = (ucast (drop_bit 16 u) :: u16);
          mem \<leftarrow> put_used mem q used (ucast buffer_idx) (word_of_nat (length bs));
          mem \<leftarrow> set_used_idx mem q (used + 1);
          a \<leftarrow> ram_cell mem (QueueAvail q);
          Some (if a AND 1 = 0
                then vrng\<lparr>InterruptStatus := InterruptStatus vrng OR VIRTIO_INT__USED_RING\<rparr> else vrng,
                mem, ent) }"

definition virtio_rng_reg_read :: "virtio_rng_state_t \<Rightarrow> u32 \<Rightarrow> u32 \<Rightarrow> (bool \<times> u32) option" where
  "virtio_rng_reg_read vrng addr val =
     do { r \<leftarrow> virtio_reg_read VRNG_QUEUES 4 vrng addr;
          Some (case r of Some v \<Rightarrow> (True, v) | None \<Rightarrow> (False, val)) }"

definition virtio_rng_reg_write ::
  "virtio_rng_state_t \<Rightarrow> ram \<Rightarrow> entropy \<Rightarrow> u32 \<Rightarrow> u32 \<Rightarrow>
     (bool \<times> virtio_rng_state_t \<times> ram \<times> entropy) option" where
  "virtio_rng_reg_write vrng mem ent addr val =
     (if addr = VIRTIO_QueueNotify then
        if val < VRNG_QUEUES then map_option (Pair True) (virtio_rng_queue_notify_handler vrng mem ent)
        else Some (True, virtio_set_fail vrng, mem, ent)
      else if addr = VIRTIO_Status then Some (True, virtio_rng_update_status vrng val, mem, ent)
      else do {
        r \<leftarrow> virtio_reg_write VRNG_QUEUES mem vrng addr val;
        Some (case r of Some vrng \<Rightarrow> (True, vrng, mem, ent) | None \<Rightarrow> (False, vrng, mem, ent)) })"

definition virtio_rng_read ::
  "virtio_rng_state_t \<Rightarrow> u32 \<Rightarrow> u8 \<Rightarrow> u32 \<Rightarrow> hart_t \<Rightarrow> (u32 \<times> hart_t) option" where
  "virtio_rng_read vrng addr width val h =
     (if width = RV_MEM_LW then
        do { (ok, v) \<leftarrow> virtio_rng_reg_read vrng (drop_bit 2 addr) val;
             Some (v, if ok then h else vm_set_exception RV_EXC_LOAD_FAULT (exc_val h) h) }
      else if width \<in> {RV_MEM_LBU, RV_MEM_LB, RV_MEM_LHU, RV_MEM_LH} then
        Some (val, vm_set_exception RV_EXC_LOAD_MISALIGN (exc_val h) h)
      else Some (val, vm_set_exception RV_EXC_ILLEGAL_INSN 0 h))"

definition virtio_rng_write ::
  "virtio_rng_state_t \<Rightarrow> ram \<Rightarrow> entropy \<Rightarrow> u32 \<Rightarrow> u8 \<Rightarrow> u32 \<Rightarrow> hart_t \<Rightarrow>
     (virtio_rng_state_t \<times> ram \<times> entropy \<times> hart_t) option" where
  "virtio_rng_write vrng mem ent addr width val h =
     (if width = RV_MEM_SW then
        do { (ok, vrng, mem, ent) \<leftarrow> virtio_rng_reg_write vrng mem ent (drop_bit 2 addr) val;
             Some (vrng, mem, ent,
                   if ok then h else vm_set_exception RV_EXC_STORE_FAULT (exc_val h) h) }
      else if width \<in> {RV_MEM_SB, RV_MEM_SH} then
        Some (vrng, mem, ent, vm_set_exception RV_EXC_STORE_MISALIGN (exc_val h) h)
      else Some (vrng, mem, ent, vm_set_exception RV_EXC_ILLEGAL_INSN 0 h))"

section \<open>Lemmas\<close>

interpretation vrng: mmio_device
  "\<lambda>s addr width val h. map_option (\<lambda>(v, h). (v, s, h)) (virtio_rng_read (fst s) addr width val h)"
  "\<lambda>s addr width val h.
     map_option (\<lambda>(v, mem, ent, h). ((v, mem, ent), h))
       (virtio_rng_write (fst s) (fst (snd s)) (snd (snd s)) addr width val h)"
  "\<lambda>s. ()"
  by unfold_locales
    (auto simp: virtio_rng_read_def virtio_rng_write_def split: if_splits bind_splits)

lemma rng_update_status_ok:
  "virtio_ok VRNG_QUEUES vrng \<Longrightarrow> virtio_ok VRNG_QUEUES (virtio_rng_update_status vrng s)"
  by (simp add: virtio_rng_update_status_def virtio_ok_def queue_ok_def Let_def)

lemma rng_notify_ok:
  "virtio_rng_queue_notify_handler vrng mem ent = Some (vrng', mem', ent') \<Longrightarrow>
   virtio_ok VRNG_QUEUES vrng \<Longrightarrow> virtio_ok VRNG_QUEUES vrng'"
  by (auto simp: virtio_rng_queue_notify_handler_def virtio_ok_def queue_ok_def upd_queue_def Let_def
      split: bind_splits if_splits)

lemma rng_write_ok:
  assumes "virtio_rng_write vrng mem ent addr width val h = Some (vrng', mem', ent', h')"
    and "virtio_ok VRNG_QUEUES vrng"
  shows "virtio_ok VRNG_QUEUES vrng'"
  using assms(1) rng_notify_ok [of vrng mem ent vrng' mem' ent', OF _ assms(2)]
    virtio_reg_write_ok [OF assms(2), of mem "drop_bit 2 addr" val] rng_update_status_ok [OF assms(2)]
    assms(2)
  by (auto simp: virtio_rng_write_def virtio_rng_reg_write_def
      split: if_splits bind_splits option.splits)

lemma rng_read_total: "virtio_ok VRNG_QUEUES vrng \<Longrightarrow> \<exists>r. virtio_rng_read vrng addr width v h = Some r"
  using virtio_reg_read_total [of VRNG_QUEUES vrng 4 "drop_bit 2 addr"]
  by (auto simp: virtio_rng_read_def virtio_rng_reg_read_def split: option.splits)

lemma rng_write_total:
  "virtio_ok VRNG_QUEUES vrng \<Longrightarrow> drop_bit 2 addr \<noteq> VIRTIO_QueueNotify \<Longrightarrow>
   \<exists>r. virtio_rng_write vrng mem ent addr width val h = Some r"
  using virtio_reg_write_ok [of VRNG_QUEUES vrng mem "drop_bit 2 addr" val]
  by (auto simp: virtio_rng_write_def virtio_rng_reg_write_def split: option.splits)

section \<open>Properties\<close>

text \<open>
  C31: The transport state stays well-formed under every write of the guest: the selected queue
  exists, its size is at most the maximum and its rings start inside guest RAM. In such a state
  every register read and every write but a notification is defined.
\<close>

theorem vrng_transport_safe:
  assumes "virtio_ok 1 vrng"
  shows "(\<exists>r. virtio_rng_read vrng addr width v h = Some r) \<and>
    (drop_bit 2 addr \<noteq> VIRTIO_QueueNotify \<longrightarrow> (\<exists>r. virtio_rng_write vrng mem ent addr width val h = Some r)) \<and>
    (\<forall>vrng' mem' ent' h'. virtio_rng_write vrng mem ent addr width val h = Some (vrng', mem', ent', h') \<longrightarrow>
       virtio_ok 1 vrng')"
proof (intro conjI impI allI)
  show "\<exists>r. virtio_rng_read vrng addr width v h = Some r" by (rule rng_read_total [OF assms])
  show "\<exists>r. virtio_rng_write vrng mem ent addr width val h = Some r"
    if "drop_bit 2 addr \<noteq> VIRTIO_QueueNotify"
    using that by (rule rng_write_total [OF assms])
  show "virtio_ok 1 vrng'"
    if "virtio_rng_write vrng mem ent addr width val h = Some (vrng', mem', ent', h')" for vrng' mem' ent' h'
    using that assms by (rule rng_write_ok)
qed

theorem vrng_transport_safe_witness:
  "let vrng = virtio_rng_update_status \<lparr>DeviceFeaturesSel = 0, DriverFeatures = 0, DriverFeaturesSel = 0,
      QueueSel = 7, queues = (\<lambda>_. \<lparr>QueueNum = 0, QueueDesc = 0, QueueAvail = 0, QueueUsed = 0,
      last_avail = 0, ready = False\<rparr>), Status = 0, InterruptStatus = 0\<rparr> 0 in
   virtio_ok 1 vrng \<and> (\<exists>r. virtio_rng_write vrng (\<lambda>_. 0) [] 0x38 RV_MEM_SW 2000 zero_hart = Some r) \<and>
   (\<exists>r. virtio_rng_read vrng 0x44 RV_MEM_LW 0 zero_hart = Some r)"
proof -
  let ?v = "virtio_rng_update_status \<lparr>DeviceFeaturesSel = 0, DriverFeatures = 0, DriverFeaturesSel = 0,
      QueueSel = 7, queues = (\<lambda>_. \<lparr>QueueNum = 0, QueueDesc = 0, QueueAvail = 0, QueueUsed = 0,
      last_avail = 0, ready = False\<rparr>), Status = 0, InterruptStatus = 0\<rparr> 0"
  have ok: "virtio_ok 1 ?v" by (simp add: virtio_rng_update_status_def virtio_ok_def queue_ok_def)
  show ?thesis
    using vrng_transport_safe [OF ok, of "0x38" RV_MEM_SW 0 zero_hart "\<lambda>_. 0" "[]" 2000]
      vrng_transport_safe [OF ok, of "0x44" RV_MEM_LW 0 zero_hart "\<lambda>_. 0" "[]" 0] ok
    by (simp add: Let_def)
qed

text \<open>
  A notification is not guarded: after a device reset the queue has size 0, and a guest that
  stores 0 to the notify register makes the handler divide by zero.
\<close>

theorem vrng_notify_after_reset:
  "virtio_rng_write (virtio_rng_update_status vrng 0) mem ent 0x50 RV_MEM_SW 0 h = None"
  by (simp add: virtio_rng_write_def virtio_rng_reg_write_def virtio_rng_update_status_def
      virtio_rng_queue_notify_handler_def sel_queue_def avail_entry_def ring_index_def)

end
