(* ===== verification/Machine.thy ===== *)
theory Machine
  imports Aclint Plic Uart Virtio_Blk Virtio_Rng
begin

text \<open>
  The emulator state (\<^verbatim>\<open>emu_state_t\<close> of \<^verbatim>\<open>src/device.h\<close>) and the bus of \<^verbatim>\<open>src/main.c\<close>: the
  callbacks \<^verbatim>\<open>mem_fetch\<close>, \<^verbatim>\<open>mem_page_table\<close>, \<^verbatim>\<open>mem_load\<close>, \<^verbatim>\<open>mem_store\<close> of a hart and the
  propagation of device interrupts. The build modelled has virtio-blk and virtio-rng and no other
  optional device. A \<^verbatim>\<open>hart_t *\<close> is the index of the hart; \<^verbatim>\<open>host_base\<close> is the host address
  of the RAM array, and \<^verbatim>\<open>coro_hart\<close> what \<^verbatim>\<open>coro_current_hart_id\<close> answers.
\<close>

section \<open>State\<close>

record emu_state_t =
  stopped :: bool
  emu_ram :: ram
  host_base :: u64
  n_hart :: u32
  harts :: "u32 \<Rightarrow> hart_t"
  plic :: plic_state_t
  uart :: u8250_state_t
  host :: host_t
  vblk :: virtio_blk_state_t
  vrng :: virtio_rng_state_t
  entropy :: entropy
  mtimer :: mtimer_state_t
  mswi :: mswi_state_t
  sswi :: sswi_state_t
  clk :: clock_t
  peripheral_update_ctr :: u32
  coro_hart :: u32

definition set_hart :: "u32 \<Rightarrow> hart_t \<Rightarrow> emu_state_t \<Rightarrow> emu_state_t" where
  "set_hart i h e = e\<lparr>harts := (harts e)(i := h)\<rparr>"

abbreviation (input) IRQ_UART_BIT :: u32 where "IRQ_UART_BIT \<equiv> 2"
abbreviation (input) IRQ_VBLK_BIT :: u32 where "IRQ_VBLK_BIT \<equiv> 8"
abbreviation (input) IRQ_VRNG_BIT :: u32 where "IRQ_VRNG_BIT \<equiv> 16"
abbreviation (input) RAM_PAGES :: u32 where "RAM_PAGES \<equiv> 0x20000"

section \<open>Fetch and page-table callbacks\<close>

definition mem_fetch :: "u32 \<Rightarrow> u32 \<Rightarrow> u32 option \<Rightarrow> emu_state_t \<Rightarrow> u32 option \<times> emu_state_t" where
  "mem_fetch i np page_addr e =
     (if np \<ge> RAM_PAGES
      then (page_addr,
            set_hart i (vm_set_exception RV_EXC_FETCH_FAULT (exc_val (harts e i)) (harts e i)) e)
      else (Some (push_bit (RV_PAGE_SHIFT - 2) np), e))"

definition mem_page_table :: "u32 \<Rightarrow> u32 option" where
  "mem_page_table ppn = (if ppn < RAM_PAGES then Some (push_bit (RV_PAGE_SHIFT - 2) ppn) else None)"

section \<open>Interrupt propagation\<close>

definition emu_plic_update :: "emu_state_t \<Rightarrow> emu_state_t option" where
  "emu_plic_update e =
     do { (hs, p) \<leftarrow> plic_update_interrupts (n_hart e) (harts e) (plic e);
          Some (e\<lparr>harts := hs, plic := p\<rparr>) }"

definition set_active :: "u32 \<Rightarrow> bool \<Rightarrow> emu_state_t \<Rightarrow> emu_state_t" where
  "set_active irq level e =
     e\<lparr>plic := (plic e)\<lparr>active := if level then active (plic e) OR irq
                                  else active (plic e) AND NOT irq\<rparr>\<rparr>"

definition emu_update_uart_interrupts :: "emu_state_t \<Rightarrow> emu_state_t option" where
  "emu_update_uart_interrupts e =
     (let e = e\<lparr>uart := u8250_update_interrupts (uart e)\<rparr>
      in emu_plic_update (set_active IRQ_UART_BIT (pending_ints (uart e) \<noteq> 0) e))"

definition emu_update_vblk_interrupts :: "emu_state_t \<Rightarrow> emu_state_t option" where
  "emu_update_vblk_interrupts e =
     emu_plic_update (set_active IRQ_VBLK_BIT (InterruptStatus (vblk e) \<noteq> 0) e)"

definition emu_update_vrng_interrupts :: "emu_state_t \<Rightarrow> emu_state_t option" where
  "emu_update_vrng_interrupts e =
     emu_plic_update (set_active IRQ_VRNG_BIT (InterruptStatus (vrng e) \<noteq> 0) e)"

definition emu_mtimer_update :: "u32 \<Rightarrow> emu_state_t \<Rightarrow> emu_state_t option" where
  "emu_mtimer_update i e =
     do { (c, h) \<leftarrow> aclint_mtimer_update_interrupts (mtimer e) (clk e) (harts e i);
          Some (set_hart i h (e\<lparr>clk := c\<rparr>)) }"

definition emu_mswi_update :: "u32 \<Rightarrow> emu_state_t \<Rightarrow> emu_state_t option" where
  "emu_mswi_update i e =
     map_option (\<lambda>h. set_hart i h e) (aclint_mswi_update_interrupts (mswi e) (harts e i))"

definition emu_sswi_update :: "u32 \<Rightarrow> emu_state_t \<Rightarrow> emu_state_t option" where
  "emu_sswi_update i e =
     map_option (\<lambda>h. set_hart i h e) (aclint_sswi_update_interrupts (sswi e) (harts e i))"

definition emu_update_timer_interrupt :: "u32 \<Rightarrow> emu_state_t \<Rightarrow> emu_state_t option" where
  "emu_update_timer_interrupt i e =
     emu_mtimer_update i (set_hart i ((harts e i)\<lparr>time := mtime (mtimer e)\<rparr>) e)"

definition emu_update_swi_interrupt :: "u32 \<Rightarrow> emu_state_t \<Rightarrow> emu_state_t option" where
  "emu_update_swi_interrupt i e = do { e \<leftarrow> emu_mswi_update i e; emu_sswi_update i e }"

text \<open>
  The counter is decremented in the test; when it was 0 it is set to 64, so the peripherals are
  polled on every 65th call.
\<close>

definition emu_tick_peripherals :: "emu_state_t \<Rightarrow> emu_state_t option" where
  "emu_tick_peripherals e =
     (if peripheral_update_ctr e = 0 then
        do { let e = e\<lparr>peripheral_update_ctr := 64\<rparr>;
             let (u, hs) = u8250_check_ready (uart e) (host e);
             (u, hs) \<leftarrow> u8250_flush_out u hs;
             let e = e\<lparr>uart := u, host := hs\<rparr>;
             e \<leftarrow> (if in_ready (uart e) then emu_update_uart_interrupts e else Some e);
             e \<leftarrow> (if InterruptStatus (vblk e) \<noteq> 0 then emu_update_vblk_interrupts e else Some e);
             (if InterruptStatus (vrng e) \<noteq> 0 then emu_update_vrng_interrupts e else Some e) }
      else Some (e\<lparr>peripheral_update_ctr := peripheral_update_ctr e - 1\<rparr>))"

section \<open>The bus\<close>

definition mem_load ::
  "u32 \<Rightarrow> u32 \<Rightarrow> u8 \<Rightarrow> u32 \<Rightarrow> emu_state_t \<Rightarrow> (u32 \<times> emu_state_t) option" where
  "mem_load i addr width val e =
     (let h = harts e i;
          region = drop_bit 20 addr AND MASK 8;
          ofs = addr AND 0xFFFFF;
          fault = Some (val, set_hart i (vm_set_exception RV_EXC_LOAD_FAULT (exc_val h) h) e)
      in if addr < RAM_SIZE then
           do { (v, h) \<leftarrow> ram_read (emu_ram e) addr width val h; Some (v, set_hart i h e) }
         else if drop_bit 28 addr \<noteq> 0xF then fault
         else if region = 0x00 \<or> region = 0x02 then
           do { (v, p, h) \<leftarrow> plic_read (plic e) (addr AND 0x3FFFFFF) width val h;
                Some (v, set_hart i h (e\<lparr>plic := p\<rparr>)) }
         else if region = 0x40 then
           do { (v, (u, hs), h) \<leftarrow> u8250_read (coro_hart e) (uart e, host e) ofs width val h;
                e \<leftarrow> emu_update_uart_interrupts (set_hart i h (e\<lparr>uart := u, host := hs\<rparr>));
                Some (v, e) }
         else if region = 0x42 then
           do { (v, h) \<leftarrow> virtio_blk_read (vblk e) ofs width val h; Some (v, set_hart i h e) }
         else if region = 0x43 then
           do { (v, c, h) \<leftarrow> aclint_mtimer_read (mtimer e) (clk e) ofs width val h;
                Some (v, set_hart i h (e\<lparr>clk := c\<rparr>)) }
         else if region = 0x44 then
           do { (v, h) \<leftarrow> aclint_mswi_read (mswi e) ofs width val h; Some (v, set_hart i h e) }
         else if region = 0x45 then
           do { (v, h) \<leftarrow> aclint_sswi_read (sswi e) ofs width val h; Some (v, set_hart i h e) }
         else if region = 0x46 then
           do { (v, h) \<leftarrow> virtio_rng_read (vrng e) ofs width val h; Some (v, set_hart i h e) }
         else fault)"

definition mem_store :: "u32 \<Rightarrow> u32 \<Rightarrow> u8 \<Rightarrow> u32 \<Rightarrow> emu_state_t \<Rightarrow> emu_state_t option" where
  "mem_store i addr width val e =
     (let h = harts e i;
          region = drop_bit 20 addr AND MASK 8;
          ofs = addr AND 0xFFFFF;
          fault = Some (set_hart i (vm_set_exception RV_EXC_STORE_FAULT (exc_val h) h) e)
      in if addr < RAM_SIZE then
           do { (mem, h) \<leftarrow> ram_write (emu_ram e) addr width val h;
                Some (set_hart i h (e\<lparr>emu_ram := mem\<rparr>)) }
         else if drop_bit 28 addr \<noteq> 0xF then fault
         else if region = 0x00 \<or> region = 0x02 then
           do { (p, h) \<leftarrow> plic_write (plic e) (addr AND 0x3FFFFFF) width val h;
                emu_plic_update (set_hart i h (e\<lparr>plic := p\<rparr>)) }
         else if region = 0x40 then
           do { ((u, hs), h) \<leftarrow> u8250_write (uart e, host e) ofs width val h;
                emu_update_uart_interrupts (set_hart i h (e\<lparr>uart := u, host := hs\<rparr>)) }
         else if region = 0x42 then
           do { (v, mem, h) \<leftarrow> virtio_blk_write (vblk e) (emu_ram e) ofs width val h;
                emu_update_vblk_interrupts (set_hart i h (e\<lparr>vblk := v, emu_ram := mem\<rparr>)) }
         else if region = 0x43 then
           do { (m, c, h) \<leftarrow> aclint_mtimer_write (mtimer e) (clk e) ofs width val h;
                emu_mtimer_update i (set_hart i h (e\<lparr>mtimer := m, clk := c\<rparr>)) }
         else if region = 0x44 then
           do { (m, h) \<leftarrow> aclint_mswi_write (mswi e) ofs width val h;
                emu_mswi_update i (set_hart i h (e\<lparr>mswi := m\<rparr>)) }
         else if region = 0x45 then
           do { (s, h) \<leftarrow> aclint_sswi_write (sswi e) ofs width val h;
                emu_sswi_update i (set_hart i h (e\<lparr>sswi := s\<rparr>)) }
         else if region = 0x46 then
           do { (v, mem, ent, h) \<leftarrow> virtio_rng_write (vrng e) (emu_ram e) (entropy e) ofs width val h;
                emu_update_vrng_interrupts (set_hart i h (e\<lparr>vrng := v, emu_ram := mem, entropy := ent\<rparr>)) }
         else fault)"

section \<open>Frames\<close>

text \<open>
  What the bus may change in a hart: the exception of an access and the interrupt lines. All
  other state of a hart, its registers, its privilege, its translation caches, stays.
\<close>

definition bus_frame :: "hart_t \<Rightarrow> hart_t \<Rightarrow> bool" where
  "bus_frame h h' \<longleftrightarrow>
     h' = h\<lparr>error := error h', exc_cause := exc_cause h', exc_val := exc_val h',
            sip := sip h', in_wfi := in_wfi h'\<rparr>"

lemma bus_frame_refl [simp]: "bus_frame h h"
  by (simp add: bus_frame_def)

lemma bus_frame_trans:
  assumes "bus_frame h h'" "bus_frame h' h''"
  shows "bus_frame h h''"
proof -
  obtain a b c d f where "h' = h\<lparr>error := a, exc_cause := b, exc_val := c, sip := d, in_wfi := f\<rparr>"
    using assms(1) unfolding bus_frame_def by blast
  moreover obtain a' b' c' d' f' where
    "h'' = h'\<lparr>error := a', exc_cause := b', exc_val := c', sip := d', in_wfi := f'\<rparr>"
    using assms(2) unfolding bus_frame_def by blast
  ultimately show ?thesis by (simp add: bus_frame_def)
qed

lemma bus_frame_raises: "raises h h' \<Longrightarrow> bus_frame h h'"
  by (auto simp: raises_def bus_frame_def vm_set_exception_def)

lemma bus_frame_irq_line: "bus_frame h (irq_line line level h)"
  by (simp add: bus_frame_def irq_line_def)

text \<open>What the bus may change in the emulator state, besides guest RAM and the devices.\<close>

definition emu_frame_of :: "emu_state_t \<Rightarrow> emu_state_t \<Rightarrow> bool" where
  "emu_frame_of e e' \<longleftrightarrow>
     stopped e' = stopped e \<and> host_base e' = host_base e \<and> n_hart e' = n_hart e \<and>
     coro_hart e' = coro_hart e \<and>
     peripheral_update_ctr e' = peripheral_update_ctr e \<and>
     (\<forall>j. bus_frame (harts e j) (harts e' j))"

lemma emu_frame_refl [simp]: "emu_frame_of e e"
  by (simp add: emu_frame_of_def)

lemma emu_frame_trans: "emu_frame_of e e' \<Longrightarrow> emu_frame_of e' e'' \<Longrightarrow> emu_frame_of e e''"
  by (auto simp: emu_frame_of_def intro: bus_frame_trans)

lemma plic_update_frame:
  assumes "emu_plic_update e = Some e'"
  shows "emu_frame_of e e' \<and> emu_ram e' = emu_ram e \<and>
     e' = e\<lparr>harts := harts e', plic := plic e'\<rparr>"
  using assms
  by (auto simp: emu_plic_update_def plic_update_interrupts_def Let_def emu_frame_of_def for_harts_SEI
      bus_frame_irq_line split: if_splits)

lemma mhartid_irq_line: "mhartid (irq_line line level h) = mhartid h"
  by (simp add: irq_line_def)

lemma set_hart_frame:
  assumes "bus_frame (harts e i) h"
    and "stopped e' = stopped e" "host_base e' = host_base e" "n_hart e' = n_hart e"
    "coro_hart e' = coro_hart e"
    "peripheral_update_ctr e' = peripheral_update_ctr e" "harts e' = harts e"
  shows "emu_frame_of e (set_hart i h e')"
  using assms by (auto simp: emu_frame_of_def set_hart_def)

lemma set_hart_ram [simp]: "emu_ram (set_hart i h e) = emu_ram e"
  by (simp add: set_hart_def)

lemma set_active_frame: "emu_frame_of e (set_active irq l e)" "emu_ram (set_active irq l e) = emu_ram e"
  by (simp_all add: set_active_def emu_frame_of_def)

lemma plic_update_after:
  assumes "emu_plic_update e1 = Some e'" "emu_frame_of e e1" "emu_ram e1 = emu_ram e"
  shows "emu_frame_of e e' \<and> emu_ram e' = emu_ram e"
  using plic_update_frame [OF assms(1)] assms(2,3) emu_frame_trans by auto

lemma device_updates_frame:
  "emu_update_uart_interrupts e = Some e' \<Longrightarrow> emu_frame_of e e' \<and> emu_ram e' = emu_ram e"
  "emu_update_vblk_interrupts e = Some e' \<Longrightarrow> emu_frame_of e e' \<and> emu_ram e' = emu_ram e"
  "emu_update_vrng_interrupts e = Some e' \<Longrightarrow> emu_frame_of e e' \<and> emu_ram e' = emu_ram e"
  unfolding emu_update_uart_interrupts_def emu_update_vblk_interrupts_def
    emu_update_vrng_interrupts_def Let_def
  by (erule plic_update_after; simp add: set_active_def emu_frame_of_def)+

lemma aclint_updates_frame:
  "emu_mtimer_update i e = Some e' \<Longrightarrow> emu_frame_of e e' \<and> emu_ram e' = emu_ram e"
  "emu_mswi_update i e = Some e' \<Longrightarrow> emu_frame_of e e' \<and> emu_ram e' = emu_ram e"
  "emu_sswi_update i e = Some e' \<Longrightarrow> emu_frame_of e e' \<and> emu_ram e' = emu_ram e"
  by (auto simp: emu_mtimer_update_def emu_mswi_update_def emu_sswi_update_def Let_def
      aclint_mtimer_update_interrupts_def aclint_mswi_update_interrupts_def
      aclint_sswi_update_interrupts_def
      intro!: set_hart_frame bus_frame_irq_line split: bind_splits if_splits prod.splits)

lemma ram_ops_raise:
  "ram_read mem a w v h = Some (v', h') \<Longrightarrow> raises h h'"
  "ram_write mem a w x h = Some (mem', h') \<Longrightarrow> raises h h'"
  by (auto simp: ram_read_cases ram_write_cases split: if_splits bind_splits)

lemma device_reads_raise:
  "plic_read p a w v h = Some (v', p', h') \<Longrightarrow> raises h h'"
  "u8250_read c u a w v h = Some (v', u', h') \<Longrightarrow> raises h h'"
  "virtio_blk_read b a w v h = Some (v', h') \<Longrightarrow> raises h h'"
  "virtio_rng_read r a w v h = Some (v', h') \<Longrightarrow> raises h h'"
  "aclint_mtimer_read m k a w v h = Some (v', k', h') \<Longrightarrow> raises h h'"
  "aclint_mswi_read m1 a w v h = Some (v', h') \<Longrightarrow> raises h h'"
  "aclint_sswi_read m2 a w v h = Some (v', h') \<Longrightarrow> raises h h'"
  subgoal by (rule plic.read_raises)
  subgoal by (rule u8250.read_raises)
  subgoal using vblk.read_raises [of "(b, undefined)" a w v h v' "(b, undefined)" h'] by simp
  subgoal using vrng.read_raises [of "(r, undefined)" a w v h v' "(r, undefined)" h'] by simp
  subgoal using mtimer.read_raises [of "(m, k)" a w v h v' "(m, k')" h'] by simp
  subgoal using mswi.read_raises [of m1 a w v h v' m1 h'] by simp
  subgoal using sswi.read_raises [of m2 a w v h v' m2 h'] by simp
  done

lemma device_writes_raise:
  "plic_write p a w v h = Some (p', h') \<Longrightarrow> raises h h'"
  "u8250_write u a w v h = Some (u', h') \<Longrightarrow> raises h h'"
  "virtio_blk_write b mem a w v h = Some (b', mem', h') \<Longrightarrow> raises h h'"
  "virtio_rng_write r mem ent a w v h = Some (r', mem', ent', h') \<Longrightarrow> raises h h'"
  "aclint_mtimer_write m k a w v h = Some (m', k', h') \<Longrightarrow> raises h h'"
  "aclint_mswi_write m1 a w v h = Some (m1', h') \<Longrightarrow> raises h h'"
  "aclint_sswi_write m2 a w v h = Some (m2', h') \<Longrightarrow> raises h h'"
  subgoal by (rule plic.write_raises)
  subgoal by (rule u8250.write_raises)
  subgoal using vblk.write_raises [of "(b, mem)" a w v h "(b', mem')" h'] by simp
  subgoal using vrng.write_raises [of "(r, mem, ent)" a w v h "(r', mem', ent')" h'] by simp
  subgoal using mtimer.write_raises [of "(m, k)" a w v h "(m', k')" h'] by simp
  subgoal by (rule mswi.write_raises)
  subgoal by (rule sswi.write_raises)
  done

lemma set_hart_raises:
  assumes "raises (harts e i) h"
    and "stopped e' = stopped e" "host_base e' = host_base e" "n_hart e' = n_hart e"
    "coro_hart e' = coro_hart e"
    "peripheral_update_ctr e' = peripheral_update_ctr e" "harts e' = harts e"
  shows "emu_frame_of e (set_hart i h e')"
  using set_hart_frame [OF bus_frame_raises [OF assms(1)] assms(2-)] .

lemma set_hart_then:
  assumes "emu_frame_of (set_hart i h e1) e'" "raises (harts e i) h"
    and "stopped e1 = stopped e" "host_base e1 = host_base e" "n_hart e1 = n_hart e"
    "coro_hart e1 = coro_hart e"
    "peripheral_update_ctr e1 = peripheral_update_ctr e" "harts e1 = harts e"
  shows "emu_frame_of e e'"
  using set_hart_raises [OF assms(2-)] assms(1) by (rule emu_frame_trans)

lemma mem_load_frame:
  assumes "mem_load i addr width v e = Some (v', e')"
  shows "emu_frame_of e e' \<and> emu_ram e' = emu_ram e"
  using assms unfolding mem_load_def Let_def
  by (auto dest!: ram_ops_raise device_reads_raise device_updates_frame
      intro: set_hart_raises elim!: set_hart_then split: if_splits bind_splits)

lemma mem_store_frame:
  assumes "mem_store i addr width v e = Some e'"
  shows "emu_frame_of e e'"
  using assms unfolding mem_store_def Let_def
  by (auto dest!: ram_ops_raise device_writes_raise plic_update_frame device_updates_frame
      aclint_updates_frame intro: set_hart_raises elim!: set_hart_then split: if_splits bind_splits)

section \<open>Properties\<close>

text \<open>A concrete machine for the examples: two harts, zeroed devices, an empty disk.\<close>

definition zero_virtio :: virtio_state_t where
  "zero_virtio = \<lparr>DeviceFeaturesSel = 0, DriverFeatures = 0, DriverFeaturesSel = 0, QueueSel = 0,
     queues = (\<lambda>_. zero_queue), Status = 0, InterruptStatus = 0\<rparr>"

definition zero_emu :: emu_state_t where
  "zero_emu = \<lparr>stopped = False, emu_ram = (\<lambda>_. 0), host_base = 0x10000000000, n_hart = 2,
     harts = (\<lambda>i. zero_hart\<lparr>mhartid := i, ram_base := Some 0, ram_size := RAM_SIZE\<rparr>),
     plic = \<lparr>masked = 0, ip = 0, ie = (\<lambda>_. 0), active = 0\<rparr>,
     uart = \<lparr>dll = 0, dlh = 0, lcr = 0, ier = 0, current_int = 0, pending_ints = 0, mcr = 0,
       in_ready = False, out_buf = (\<lambda>_. 0), out_buf_len = 0, waiting_hart_id = 0, has_waiting_hart = False\<rparr>,
     host = \<lparr>write_results = [], sent = [], polls = (\<lambda>_. False), n_polls = 0, read_results = [],
       getchars = [], exited = False\<rparr>,
     vblk = virtio_blk_init (\<lambda>_. 0) 0 (virtio_state_t.extend zero_virtio
       (virtio_blk_state_t.fields (\<lambda>_. 0) (\<lambda>_. 0) 0)),
     vrng = zero_virtio, entropy = [],
     mtimer = \<lparr>mtimecmp = (\<lambda>_. 0), mtimer_n_hart = 2, mtime = \<lparr>tm_begin = 0, tm_freq = 65000000\<rparr>\<rparr>,
     mswi = \<lparr>msip = (\<lambda>_. 0), mswi_n_hart = 2\<rparr>, sswi = \<lparr>ssip = (\<lambda>_. 0), sswi_n_hart = 2\<rparr>,
     clk = still_clock 0,
     peripheral_update_ctr = 0, coro_hart = 0xFFFFFFFF\<rparr>"

text \<open>
  A load through the bus, to RAM or to any device, leaves guest RAM unchanged, and of every
  hart it changes at most the exception fields and the interrupt lines: no register, program
  counter, privilege or translation cache.
\<close>

theorem bus_load_isolated:
  assumes "mem_load i addr width v e = Some (v', e')"
  shows "emu_ram e' = emu_ram e \<and> n_hart e' = n_hart e \<and>
    (\<forall>j. harts e' j = (harts e j)\<lparr>error := error (harts e' j), exc_cause := exc_cause (harts e' j),
       exc_val := exc_val (harts e' j), sip := sip (harts e' j), in_wfi := in_wfi (harts e' j)\<rparr>)"
  using mem_load_frame [OF assms] by (simp add: emu_frame_of_def bus_frame_def)

theorem bus_load_isolated_witness:
  "\<exists>v' e'. mem_load 1 0xF0001000 RV_MEM_LW 7 zero_emu = Some (v', e') \<and> emu_ram e' = emu_ram zero_emu"
proof -
  obtain v' e' where l: "mem_load 1 0xF0001000 RV_MEM_LW 7 zero_emu = Some (v', e')"
    by (simp add: mem_load_def plic_read_def plic_reg_read_def mask_eq_exp_minus_1 word_le_nat_alt)
  then show ?thesis using bus_load_isolated [OF l] by blast
qed



text \<open>What a store leaves in its cell, the load of the same width reads back.\<close>

lemma load_store_cell:
  assumes "(sw, lw) \<in> {(RV_MEM_SB, RV_MEM_LBU), (RV_MEM_SH, RV_MEM_LHU), (RV_MEM_SW, RV_MEM_LW)}"
    and "aligned a sw"
  shows "load_cell lw (store_cell sw x cell (unat (a AND 3) * 8)) (unat (a AND 3) * 8) =
    x AND mask (8 * unat (width_bytes sw))"
proof -
  from assms consider "sw = RV_MEM_SB" "lw = RV_MEM_LBU" | "sw = RV_MEM_SH" "lw = RV_MEM_LHU" "(a AND 3) AND 1 = 0"
    | "sw = RV_MEM_SW" "lw = RV_MEM_LW"
    by (auto simp: aligned_low_lanes and.assoc)
  then show ?thesis
  proof cases
    case 1
    then show ?thesis
      by (cases a rule: lane_cases; simp add: load_cell_def store_cell_def width_bytes_def;
          intro bit_word_eqI; auto simp: bit_simps)
  next
    case 2
    then show ?thesis
      by (cases a rule: lane_cases; simp add: load_cell_def store_cell_def width_bytes_def;
          intro bit_word_eqI; auto simp: bit_simps)
  next
    case 3
    then show ?thesis
      by (simp add: load_cell_def store_cell_def width_bytes_def) (intro bit_word_eqI; simp add: bit_simps)
  qed
qed

text \<open>
  In RAM a load returns what was stored: after an aligned store through the bus, the
  zero-extending load of the same width returns the stored byte, halfword or word, and neither
  access raises an exception or changes a hart.
\<close>

theorem bus_ram_read_after_write:
  assumes "addr < RAM_SIZE" "aligned addr sw"
    and "(sw, lw) \<in> {(RV_MEM_SB, RV_MEM_LBU), (RV_MEM_SH, RV_MEM_LHU), (RV_MEM_SW, RV_MEM_LW)}"
  shows "\<exists>mem'. mem_store i addr sw x e = Some (e\<lparr>emu_ram := mem'\<rparr>) \<and>
    mem_load i addr lw v (e\<lparr>emu_ram := mem'\<rparr>) =
      Some (x AND mask (8 * unat (width_bytes sw)), e\<lparr>emu_ram := mem'\<rparr>)"
proof -
  have widths: "store_width sw" "load_width lw" "aligned addr lw"
    using assms(2,3) by (auto simp: store_width_def load_width_def aligned_def width_bytes_def)
  let ?m = "(emu_ram e)(drop_bit 2 addr :=
     store_cell sw x (emu_ram e (drop_bit 2 addr)) (unat (addr AND 3) * 8))"
  have "mem_store i addr sw x e = Some (e\<lparr>emu_ram := ?m\<rparr>)"
    using assms(1) by (simp add: mem_store_def ram_write_ok [OF widths(1) assms(2,1)] set_hart_def)
  moreover have "mem_load i addr lw v (e\<lparr>emu_ram := ?m\<rparr>) =
      Some (x AND mask (8 * unat (width_bytes sw)), e\<lparr>emu_ram := ?m\<rparr>)"
    using assms(1) load_store_cell [OF assms(3,2)]
    by (simp add: mem_load_def ram_read_ok [OF widths(2,3) assms(1)] set_hart_def)
  ultimately show ?thesis by blast
qed

theorem bus_ram_read_after_write_witness:
  "\<exists>mem'. mem_store 0 0x1002 RV_MEM_SH 0x12345678 zero_emu = Some (zero_emu\<lparr>emu_ram := mem'\<rparr>) \<and>
    mem_load 0 0x1002 RV_MEM_LHU 0 (zero_emu\<lparr>emu_ram := mem'\<rparr>) = Some (0x5678, zero_emu\<lparr>emu_ram := mem'\<rparr>)"
proof -
  have "(0x12345678 :: u32) AND mask (8 * unat (width_bytes RV_MEM_SH)) = 0x5678"
    by (simp add: width_bytes_def mask_eq_exp_minus_1)
  then show ?thesis
    using bus_ram_read_after_write [of "0x1002" RV_MEM_SH RV_MEM_LHU 0 "0x12345678" zero_emu 0]
    by (simp add: aligned_def width_bytes_def)
qed

text \<open>
  The two software-interrupt devices drive the same interrupt line one after the other:
  after the update the line follows the supervisor device alone, and a machine software
  interrupt that is pending in the MSWI device is lost.
\<close>

theorem swi_line_follows_sswi:
  assumes "emu_update_swi_interrupt i e = Some e'"
  shows "bit (sip (harts e' i)) 1 = (ssip (sswi e) (mhartid (harts e i)) \<noteq> 0)"
  using assms
  by (auto simp: emu_update_swi_interrupt_def emu_mswi_update_def emu_sswi_update_def
      aclint_mswi_update_interrupts_def aclint_sswi_update_interrupts_def set_hart_def sip_lines
      mhartid_irq_line split: if_splits)

theorem swi_line_follows_sswi_witness:
  "\<exists>e'. emu_update_swi_interrupt 0 (zero_emu\<lparr>mswi := (mswi zero_emu)\<lparr>msip := (\<lambda>_. 1)\<rparr>\<rparr>) = Some e' \<and>
     \<not> bit (sip (harts e' 0)) 1"
proof -
  let ?e = "zero_emu\<lparr>mswi := (mswi zero_emu)\<lparr>msip := (\<lambda>_. 1)\<rparr>\<rparr>"
  obtain e' where u: "emu_update_swi_interrupt 0 ?e = Some e'"
    by (simp add: emu_update_swi_interrupt_def emu_mswi_update_def emu_sswi_update_def
        aclint_mswi_update_interrupts_def aclint_sswi_update_interrupts_def set_hart_def irq_line_def
        zero_emu_def zero_hart_def)
  show ?thesis using swi_line_follows_sswi [OF u] u by (simp add: zero_emu_def)
qed

end
