(* ===== verification/Mmu.thy ===== *)
theory Mmu
  imports Machine
begin

text \<open>
  Address translation of \<^verbatim>\<open>src/riscv.c\<close>: the page-table walk, the translation caches of loads,
  stores and fetches, the instruction cache, and the direct accesses to RAM through host pointers.

  A host pointer is a 64-bit address; the RAM array starts at \<^verbatim>\<open>host_base\<close> and dereferencing an
  address outside it, or not aligned to the type, is undefined.
\<close>

section \<open>Invalidation\<close>

definition icache_invalidate_all :: "hart_t \<Rightarrow> hart_t" where
  "icache_invalidate_all h =
     (let h = h\<lparr>icache_epoch := icache_epoch h + 1\<rparr>;
          h = (if icache_epoch h = 0 then h\<lparr>icache := (\<lambda>_. zero_block), icache_epoch := 1\<rparr> else h)
      in h\<lparr>seq_fetch_block := None, seq_fetch_next_pc := 0xFFFFFFFF\<rparr>)"

definition icache_block_valid :: "hart_t \<Rightarrow> icache_block_t \<Rightarrow> bool" where
  "icache_block_valid h blk \<longleftrightarrow> valid blk \<and> epoch blk = icache_epoch h"

definition vm_fence_i :: "hart_t \<Rightarrow> hart_t" where
  "vm_fence_i h = icache_invalidate_all h"

definition clear_ways :: "(mmu_addr_cache_t \<Rightarrow> bool) \<Rightarrow> mmu_cache_set_t \<Rightarrow> mmu_cache_set_t" where
  "clear_ways p s =
     s\<lparr>ways := (\<lambda>w. if w < 2 \<and> p (ways s w) then (ways s w)\<lparr>n_pages := NO_PAGE\<rparr> else ways s w)\<rparr>"

definition mmu_invalidate :: "hart_t \<Rightarrow> hart_t" where
  "mmu_invalidate h =
     (let h = h\<lparr>cache_fetch := for_upto 16
                 (\<lambda>i c. c(i := (c i)\<lparr>fc_n_pages := NO_PAGE, fc_page_addr := None\<rparr>)) (cache_fetch h)\<rparr>;
          h = h\<lparr>cache_load := for_upto 32
                 (\<lambda>i c. c(i := (clear_ways (\<lambda>_. True) (c i))\<lparr>lru := 0\<rparr>)) (cache_load h)\<rparr>;
          h = h\<lparr>cache_store := for_upto 32
                 (\<lambda>i c. c(i := (clear_ways (\<lambda>_. True) (c i))\<lparr>lru := 0\<rparr>)) (cache_store h)\<rparr>;
          h = h\<lparr>cache_load_last_vpn := NO_PAGE, cache_load_last_data_minus_addr := 0,
                cache_store_last_vpn := NO_PAGE, cache_store_last_data_minus_addr := 0\<rparr>;
          h = icache_invalidate_all h
      in h\<lparr>ram_load_last_page := NO_PAGE, ram_store_last_page := NO_PAGE,
           ram_load_last_ptr := None, ram_store_last_ptr := None\<rparr>)"

definition in_vpn_range :: "u32 \<Rightarrow> u32 \<Rightarrow> u32 \<Rightarrow> bool" where
  "in_vpn_range start_vpn end_vpn vpn \<longleftrightarrow> start_vpn \<le> vpn \<and> vpn \<le> end_vpn"

definition end_vpn_of :: "u32 \<Rightarrow> u32 \<Rightarrow> u32" where
  "end_vpn_of start_addr sz =
     (let end_addr = (ucast start_addr + ucast sz - 1 :: u64);
          end_addr = (if end_addr > 0xFFFFFFFF then 0xFFFFFFFF else end_addr)
      in drop_bit RV_PAGE_SHIFT (ucast end_addr))"

definition icache_vpn :: "u32 \<Rightarrow> icache_block_t \<Rightarrow> u32" where
  "icache_vpn i blk =
     drop_bit (RV_PAGE_SHIFT - ICACHE_OFFSET_BITS) (push_bit ICACHE_INDEX_BITS (tag blk) OR i)"

definition mmu_invalidate_range :: "u32 \<Rightarrow> u32 \<Rightarrow> hart_t \<Rightarrow> hart_t" where
  "mmu_invalidate_range start_addr sz h =
     (if sz = 0 \<or> sz = 0xFFFFFFFF then mmu_invalidate h
      else
        let start_vpn = drop_bit RV_PAGE_SHIFT start_addr;
            end_vpn = end_vpn_of start_addr sz;
            hit = in_vpn_range start_vpn end_vpn;
            h = h\<lparr>cache_fetch := for_upto 16
                   (\<lambda>i c. c(i := if hit (fc_n_pages (c i))
                                 then (c i)\<lparr>fc_n_pages := NO_PAGE, fc_page_addr := None\<rparr> else c i))
                   (cache_fetch h)\<rparr>;
            h = h\<lparr>icache := for_upto ICACHE_BLOCKS
                   (\<lambda>i c. c(i := if icache_block_valid h (c i) \<and> hit (icache_vpn i (c i))
                                 then (c i)\<lparr>valid := False\<rparr> else c i))
                   (icache h)\<rparr>;
            h = h\<lparr>cache_load := for_upto 32
                   (\<lambda>i c. c(i := clear_ways (\<lambda>w. hit (n_pages w)) (c i))) (cache_load h)\<rparr>;
            h = h\<lparr>cache_store := for_upto 32
                   (\<lambda>i c. c(i := clear_ways (\<lambda>w. hit (n_pages w)) (c i))) (cache_store h)\<rparr>;
            h = (if hit (cache_load_last_vpn h)
                 then h\<lparr>cache_load_last_vpn := NO_PAGE, cache_load_last_data_minus_addr := 0\<rparr> else h)
        in if hit (cache_store_last_vpn h)
           then h\<lparr>cache_store_last_vpn := NO_PAGE, cache_store_last_data_minus_addr := 0\<rparr> else h)"

section \<open>Page tables\<close>

definition mmu_set :: "u32 \<Rightarrow> hart_t \<Rightarrow> hart_t" where
  "mmu_set new_satp h =
     (let h = mmu_invalidate h
      in if drop_bit 31 new_satp \<noteq> 0 then
           case mem_page_table (new_satp AND MASK 22) of
             None \<Rightarrow> h
           | Some pt \<Rightarrow> h\<lparr>page_table := Some pt, satp := new_satp AND NOT (push_bit 22 (MASK 9))\<rparr>
         else h\<lparr>page_table := None, satp := 0\<rparr>)"

datatype pte_class = Pointer | Leaf | Invalid

definition pte_kind :: "u32 \<Rightarrow> pte_class" where
  "pte_kind pte =
     (let b = pte AND MASK 4
      in if b = 0b0001 then Pointer
         else if b \<in> {0b0011, 0b0111, 0b1001, 0b1011, 0b1111} then Leaf
         else Invalid)"

text \<open>
  The result is what the function returns, the entry (\<open>None\<close> is the null pointer: no valid leaf)
  and the page number, which is left as it was passed when no leaf is reached.
\<close>

definition mmu_lookup :: "ram \<Rightarrow> hart_t \<Rightarrow> u32 \<Rightarrow> u32 \<Rightarrow> (bool \<times> u32 option \<times> u32) option" where
  "mmu_lookup mem h vpn ppn =
     do { pt \<leftarrow> page_table h;
          let p = pt + drop_bit 10 vpn;
          pte \<leftarrow> ram_cell mem p;
          case pte_kind pte of
            Invalid \<Rightarrow> Some (True, None, ppn)
          | Leaf \<Rightarrow>
              (let ppn = drop_bit 10 pte
               in if ppn AND MASK 10 \<noteq> 0 then Some (True, None, ppn)
                  else Some (True, Some p, ppn OR (vpn AND MASK 10)))
          | Pointer \<Rightarrow>
              (case mem_page_table (drop_bit 10 pte) of
                 None \<Rightarrow> Some (False, Some p, ppn)
               | Some pt2 \<Rightarrow> do {
                   let p = pt2 + (vpn AND MASK 10);
                   pte \<leftarrow> ram_cell mem p;
                   Some (case pte_kind pte of
                           Leaf \<Rightarrow> (True, Some p, drop_bit 10 pte)
                         | _ \<Rightarrow> (True, None, ppn)) }) }"

definition mmu_translate ::
  "ram \<Rightarrow> hart_t \<Rightarrow> u32 \<Rightarrow> u32 \<Rightarrow> u32 \<Rightarrow> bool \<Rightarrow> u32 \<Rightarrow> u32 \<Rightarrow> (u32 \<times> ram \<times> hart_t) option" where
  "mmu_translate mem h addr access_bits set_bits skip_privilege_test fault pfault =
     (let h = h\<lparr>exc_val := addr\<rparr>
      in if page_table h = None then Some (addr, mem, h)
         else do {
           (ok, pte_ref, ppn) \<leftarrow> mmu_lookup mem h (drop_bit RV_PAGE_SHIFT addr) 0;
           if \<not> ok then Some (addr, mem, vm_set_exception fault addr h)
           else
             (case pte_ref of
                None \<Rightarrow> Some (addr, mem, vm_set_exception pfault addr h)
              | Some p \<Rightarrow> do {
                  pte \<leftarrow> ram_cell mem p;
                  if \<not> (drop_bit 20 ppn = 0 \<and> pte AND access_bits \<noteq> 0 \<and>
                         ((pte AND 0x10 = 0) = s_mode h \<or> skip_privilege_test))
                  then Some (addr, mem, vm_set_exception pfault addr h)
                  else
                    Some ((addr AND MASK RV_PAGE_SHIFT) OR push_bit RV_PAGE_SHIFT ppn,
                          if pte OR set_bits \<noteq> pte then mem(p := pte OR set_bits) else mem,
                          h) }) })"

definition mmu_fence :: "u32 \<Rightarrow> hart_t \<Rightarrow> hart_t" where
  "mmu_fence insn h = mmu_invalidate h"

section \<open>Direct accesses to RAM\<close>

text \<open>
  The page pointers are word indices into the RAM array. \<^verbatim>\<open>ram_cache_lookup\<close> remembers the last
  page of loads and the last page of stores.
\<close>

definition ram_cache_lookup :: "u32 \<Rightarrow> bool \<Rightarrow> hart_t \<Rightarrow> u32 option \<times> hart_t" where
  "ram_cache_lookup phys_addr is_store h =
     (let page = drop_bit RV_PAGE_SHIFT phys_addr
      in case ram_base h of
           None \<Rightarrow> (None, h)
         | Some rb \<Rightarrow>
             if phys_addr \<ge> ram_size h then (None, h)
             else if is_store \<and> ram_store_last_page h = page then (ram_store_last_ptr h, h)
             else if \<not> is_store \<and> ram_load_last_page h = page then (ram_load_last_ptr h, h)
             else
               let page_base = rb + push_bit (RV_PAGE_SHIFT - 2) page
               in if is_store
                  then (Some page_base, h\<lparr>ram_store_last_page := page, ram_store_last_ptr := Some page_base\<rparr>)
                  else (Some page_base, h\<lparr>ram_load_last_page := page, ram_load_last_ptr := Some page_base\<rparr>))"

definition host_ptr :: "u64 \<Rightarrow> u32 \<Rightarrow> u64" where
  "host_ptr hb i = hb + push_bit 2 (ucast i)"

definition ram_data_minus_addr :: "u64 \<Rightarrow> u32 \<Rightarrow> u32 \<Rightarrow> bool \<Rightarrow> hart_t \<Rightarrow> u64 \<times> hart_t" where
  "ram_data_minus_addr hb guest_addr phys_addr is_store h =
     (case ram_cache_lookup phys_addr is_store h of
        (None, h) \<Rightarrow> (0, h)
      | (Some page_ptr, h) \<Rightarrow> (host_ptr hb page_ptr - ucast (guest_addr AND NOT RV_PAGE_MASK), h))"

text \<open>The word index behind a host address: defined inside the RAM array only.\<close>

definition host_cell :: "u64 \<Rightarrow> u64 \<Rightarrow> u32 option" where
  "host_cell hb a =
     (let d = a - hb in if d < 0x20000000 \<and> d AND 3 = 0 then Some (ucast (drop_bit 2 d)) else None)"

text \<open>
  The bodies that \<^verbatim>\<open>ram_read_host_fast\<close> and \<^verbatim>\<open>ram_read_fast\<close> (and the two stores) share, over the
  byte lane and the pointer to the cell; the cell is read only by the widths that read it.
\<close>

definition fast_read ::
  "ram \<Rightarrow> u32 \<Rightarrow> u32 option \<Rightarrow> u8 \<Rightarrow> u32 \<Rightarrow> hart_t \<Rightarrow> (u32 \<times> hart_t) option" where
  "fast_read mem lane cell width val h =
     (let shift = unat lane * 8;
          misaligned = Some (val, vm_set_exception RV_EXC_LOAD_MISALIGN (exc_val h) h);
          get = (\<lambda>f. do { p \<leftarrow> cell; c \<leftarrow> ram_cell mem p; Some (f c, h) })
      in if width = RV_MEM_LW then if lane \<noteq> 0 then misaligned else get (\<lambda>c. c)
         else if width = RV_MEM_LHU then
           if lane AND 1 \<noteq> 0 then misaligned else get (\<lambda>c. ucast (ucast (drop_bit shift c) :: u16))
         else if width = RV_MEM_LH then
           if lane AND 1 \<noteq> 0 then misaligned else get (\<lambda>c. scast (ucast (drop_bit shift c) :: u16))
         else if width = RV_MEM_LBU then get (\<lambda>c. ucast (ucast (drop_bit shift c) :: u8))
         else if width = RV_MEM_LB then get (\<lambda>c. scast (ucast (drop_bit shift c) :: u8))
         else Some (val, vm_set_exception RV_EXC_ILLEGAL_INSN 0 h))"

definition fast_write ::
  "ram \<Rightarrow> u32 \<Rightarrow> u32 option \<Rightarrow> u8 \<Rightarrow> u32 \<Rightarrow> hart_t \<Rightarrow> (ram \<times> hart_t) option" where
  "fast_write mem lane cell width val h =
     (let shift = unat lane * 8;
          misaligned = Some (mem, vm_set_exception RV_EXC_STORE_MISALIGN (exc_val h) h);
          put = (\<lambda>f. do { p \<leftarrow> cell; c \<leftarrow> ram_cell mem p; Some (mem(p := f c), h) })
      in if width = RV_MEM_SW then if lane \<noteq> 0 then misaligned else put (\<lambda>_. val)
         else if width = RV_MEM_SH then
           if lane AND 1 \<noteq> 0 then misaligned
           else put (\<lambda>c. (c AND NOT (push_bit shift (MASK 16))) OR push_bit shift (val AND MASK 16))
         else if width = RV_MEM_SB then
           put (\<lambda>c. (c AND NOT (push_bit shift (MASK 8))) OR push_bit shift (val AND MASK 8))
         else Some (mem, vm_set_exception RV_EXC_ILLEGAL_INSN 0 h))"

definition ram_read_host_fast ::
  "u64 \<Rightarrow> ram \<Rightarrow> u64 \<Rightarrow> u8 \<Rightarrow> u32 \<Rightarrow> hart_t \<Rightarrow> (u32 \<times> hart_t) option" where
  "ram_read_host_fast hb mem host_addr width val h =
     fast_read mem (ucast (host_addr AND 3)) (host_cell hb (host_addr AND NOT 3)) width val h"

definition ram_write_host_fast ::
  "u64 \<Rightarrow> ram \<Rightarrow> u64 \<Rightarrow> u8 \<Rightarrow> u32 \<Rightarrow> hart_t \<Rightarrow> (ram \<times> hart_t) option" where
  "ram_write_host_fast hb mem host_addr width val h =
     fast_write mem (ucast (host_addr AND 3)) (host_cell hb (host_addr AND NOT 3)) width val h"

definition ram_read_fast ::
  "ram \<Rightarrow> u32 \<Rightarrow> u32 \<Rightarrow> u8 \<Rightarrow> u32 \<Rightarrow> hart_t \<Rightarrow> (u32 \<times> hart_t) option" where
  "ram_read_fast mem page_ptr phys_addr width val h =
     (let offset = phys_addr AND RV_PAGE_MASK
      in fast_read mem (offset AND 3) (Some (page_ptr + drop_bit 2 offset)) width val h)"

definition ram_write_fast ::
  "ram \<Rightarrow> u32 \<Rightarrow> u32 \<Rightarrow> u8 \<Rightarrow> u32 \<Rightarrow> hart_t \<Rightarrow> (ram \<times> hart_t) option" where
  "ram_write_fast mem page_ptr phys_addr width val h =
     (let offset = phys_addr AND RV_PAGE_MASK
      in fast_write mem (offset AND 3) (Some (page_ptr + drop_bit 2 offset)) width val h)"

section \<open>Cached accesses\<close>

text \<open>The translations the three kinds of access ask for.\<close>

datatype access_kind = Fetching | Loading | Storing

definition translate_for :: "access_kind \<Rightarrow> ram \<Rightarrow> hart_t \<Rightarrow> u32 \<Rightarrow> (u32 \<times> ram \<times> hart_t) option" where
  "translate_for k mem h addr =
     (case k of
        Fetching \<Rightarrow> mmu_translate mem h addr 0x8 0x40 False RV_EXC_FETCH_FAULT RV_EXC_FETCH_PFAULT
      | Loading \<Rightarrow>
          mmu_translate mem h addr (0x2 OR (if sstatus_mxr h then 0x8 else 0)) 0x40
            (sstatus_sum h \<and> s_mode h) RV_EXC_LOAD_FAULT RV_EXC_LOAD_PFAULT
      | Storing \<Rightarrow>
          mmu_translate mem h addr 0x4 (0x40 OR 0x80)
            (sstatus_sum h \<and> s_mode h) RV_EXC_STORE_FAULT RV_EXC_STORE_PFAULT)"

text \<open>
  The instruction fetch. A block's \<open>base\<close> is the byte offset of its 256 bytes in RAM; the read of
  the word there is undefined when it is not aligned. After a miss in the fetch cache \<open>addr\<close> is
  the physical address, and the next sequential address is computed from that one.
\<close>

definition code_word :: "ram \<Rightarrow> u32 option \<Rightarrow> u32 \<Rightarrow> u32 option" where
  "code_word mem block_base ofs =
     do { b \<leftarrow> block_base;
          if (b + ofs) AND 3 \<noteq> 0 then None else ram_cell mem (drop_bit 2 (b + ofs)) }"

definition next_seq :: "u32 \<Rightarrow> u32" where
  "next_seq addr = (if (addr AND ICACHE_BLOCK_MASK) + 4 < ICACHE_BLOCKS_SIZE then addr + 4 else 0xFFFFFFFF)"

definition icache_idx :: "u32 \<Rightarrow> u32" where
  "icache_idx addr = drop_bit ICACHE_OFFSET_BITS addr AND ICACHE_INDEX_MASK"

definition icache_tag :: "u32 \<Rightarrow> u32" where
  "icache_tag addr = drop_bit (ICACHE_OFFSET_BITS + ICACHE_INDEX_BITS) addr"

definition fetch_index :: "u32 \<Rightarrow> u32" where
  "fetch_index vpn = (vpn XOR drop_bit 4 vpn) AND 0xF"

definition seq_fetch_hit :: "hart_t \<Rightarrow> u32 \<Rightarrow> u32 option" where
  "seq_fetch_hit h addr =
     (case seq_fetch_block h of
        None \<Rightarrow> None
      | Some b \<Rightarrow>
          if addr = seq_fetch_next_pc h \<and> icache_block_valid h (icache h b) \<and> tag (icache h b) = icache_tag addr
          then Some b else None)"

text \<open>The part after the instruction cache missed and the fetch cache holds the page.\<close>

definition fetch_fill :: "ram \<Rightarrow> u32 \<Rightarrow> u32 \<Rightarrow> u32 \<Rightarrow> u32 \<Rightarrow> hart_t \<Rightarrow> (u32 \<times> hart_t) option" where
  "fetch_fill mem index idx tg addr h =
     (let block_off = (addr AND RV_PAGE_MASK) AND NOT ICACHE_BLOCK_MASK;
          blk = \<lparr>tag = tg, epoch = icache_epoch h,
                 base = map_option (\<lambda>p. push_bit 2 p + block_off) (fc_page_addr (cache_fetch h index)),
                 valid = True\<rparr>
      in do { v \<leftarrow> code_word mem (base blk) (addr AND ICACHE_BLOCK_MASK);
              Some (v, h\<lparr>icache := (icache h)(idx := blk), seq_fetch_block := Some idx,
                         seq_fetch_next_pc := next_seq addr\<rparr>) })"

definition mmu_fetch :: "u32 \<Rightarrow> u32 \<Rightarrow> u32 \<Rightarrow> emu_state_t \<Rightarrow> (u32 \<times> emu_state_t) option" where
  "mmu_fetch i addr val e =
     (let h = harts e i
      in case seq_fetch_hit h addr of
           Some b \<Rightarrow>
             do { v \<leftarrow> code_word (emu_ram e) (base (icache h b)) (addr AND ICACHE_BLOCK_MASK);
                  Some (v, set_hart i (h\<lparr>seq_fetch_next_pc := next_seq addr\<rparr>) e) }
         | None \<Rightarrow>
             (let idx = icache_idx addr; tg = icache_tag addr; blk = icache h idx;
                  vpn = drop_bit RV_PAGE_SHIFT addr; index = fetch_index vpn
              in if icache_block_valid h blk \<and> tag blk = tg then
                   do { v \<leftarrow> code_word (emu_ram e) (base blk) (addr AND ICACHE_BLOCK_MASK);
                        Some (v, set_hart i (h\<lparr>seq_fetch_block := Some idx,
                                               seq_fetch_next_pc := next_seq addr\<rparr>) e) }
                 else if vpn \<noteq> fc_n_pages (cache_fetch h index) then
                   do { (addr, mem, h) \<leftarrow> translate_for Fetching (emu_ram e) h addr;
                        let e = set_hart i h (e\<lparr>emu_ram := mem\<rparr>);
                        if error h \<noteq> ERR_NONE then Some (val, e)
                        else
                          (let (page_addr, e) = mem_fetch i (drop_bit RV_PAGE_SHIFT addr) None e;
                               h = harts e i
                           in if error h \<noteq> ERR_NONE then Some (val, e)
                              else
                                do { let h = h\<lparr>cache_fetch := (cache_fetch h)
                                         (index := \<lparr>fc_n_pages = vpn, fc_page_addr = page_addr\<rparr>)\<rparr>;
                                     (v, h) \<leftarrow> fetch_fill (emu_ram e) index idx tg addr h;
                                     Some (v, set_hart i h e) }) }
                 else
                   do { (v, h) \<leftarrow> fetch_fill (emu_ram e) index idx tg addr h;
                        Some (v, set_hart i h e) }))"

text \<open>
  Loads and stores have a translation cache each, of the same shape; \<open>st\<close> selects the one of
  stores. The selected fields are read and written by the following accessors.
\<close>

definition tlb_sets :: "bool \<Rightarrow> hart_t \<Rightarrow> u32 \<Rightarrow> mmu_cache_set_t" where
  "tlb_sets st h = (if st then cache_store h else cache_load h)"

definition put_set :: "bool \<Rightarrow> u32 \<Rightarrow> mmu_cache_set_t \<Rightarrow> hart_t \<Rightarrow> hart_t" where
  "put_set st k s h =
     (if st then h\<lparr>cache_store := (cache_store h)(k := s)\<rparr> else h\<lparr>cache_load := (cache_load h)(k := s)\<rparr>)"

definition last_vpn :: "bool \<Rightarrow> hart_t \<Rightarrow> u32" where
  "last_vpn st h = (if st then cache_store_last_vpn h else cache_load_last_vpn h)"

definition last_ppn :: "bool \<Rightarrow> hart_t \<Rightarrow> u32" where
  "last_ppn st h = (if st then cache_store_last_phys_ppn h else cache_load_last_phys_ppn h)"

definition last_dma :: "bool \<Rightarrow> hart_t \<Rightarrow> u64" where
  "last_dma st h = (if st then cache_store_last_data_minus_addr h else cache_load_last_data_minus_addr h)"

definition put_last :: "bool \<Rightarrow> u32 \<Rightarrow> u32 \<Rightarrow> u64 \<Rightarrow> hart_t \<Rightarrow> hart_t" where
  "put_last st vpn ppn dma h =
     (if st
      then h\<lparr>cache_store_last_vpn := vpn, cache_store_last_phys_ppn := ppn, cache_store_last_data_minus_addr := dma\<rparr>
      else h\<lparr>cache_load_last_vpn := vpn, cache_load_last_phys_ppn := ppn, cache_load_last_data_minus_addr := dma\<rparr>)"

definition set_index :: "u32 \<Rightarrow> u32" where
  "set_index vpn = (vpn XOR drop_bit 5 vpn) AND 31"

definition probe :: "mmu_cache_set_t \<Rightarrow> u32 \<Rightarrow> u8 option" where
  "probe s vpn =
     (let mru_way = 1 - lru s
      in if n_pages (ways s mru_way) = vpn then Some mru_way
         else if n_pages (ways s (lru s)) = vpn then Some (lru s)
         else None)"

definition join_page :: "u32 \<Rightarrow> u32 \<Rightarrow> u32" where
  "join_page ppn addr = push_bit RV_PAGE_SHIFT ppn OR (addr AND MASK RV_PAGE_SHIFT)"

text \<open>
  The first half of \<^verbatim>\<open>mmu_load\<close> and of \<^verbatim>\<open>mmu_store\<close>, which differ in the cache they use and in
  the translation they ask for: it ends with a host address (and the physical address), with a
  physical address, or with an exception. \<open>special\<close> is \<^verbatim>\<open>reserved\<close> or \<^verbatim>\<open>cond\<close>, which forbid the
  host address. An \<open>lru\<close> other than 0 and 1 would index outside the two ways.
\<close>

datatype resolved = Host u64 u32 | Phys u32 | Fault

definition tlb_hit ::
  "bool \<Rightarrow> bool \<Rightarrow> u32 \<Rightarrow> u8 \<Rightarrow> hart_t \<Rightarrow> resolved \<times> hart_t" where
  "tlb_hit st special addr hit_way h =
     (let vpn = drop_bit RV_PAGE_SHIFT addr; set_idx = set_index vpn; s = tlb_sets st h set_idx;
          phys_addr = join_page (phys_ppn (ways s hit_way)) addr;
          dma = data_minus_addr (ways s hit_way);
          h = put_set st set_idx (s\<lparr>lru := 1 - hit_way\<rparr>) h;
          h = put_last st vpn (drop_bit RV_PAGE_SHIFT phys_addr) dma h
      in if dma \<noteq> 0 \<and> \<not> special then (Host (dma + ucast addr) phys_addr, h)
         else (Phys phys_addr, h))"

definition tlb_fill :: "bool \<Rightarrow> u64 \<Rightarrow> u32 \<Rightarrow> u32 \<Rightarrow> hart_t \<Rightarrow> hart_t" where
  "tlb_fill st hb addr phys_addr h =
     (let vpn = drop_bit RV_PAGE_SHIFT addr; set_idx = set_index vpn; s = tlb_sets st h set_idx;
          victim_way = lru s;
          (dma, h) = ram_data_minus_addr hb addr phys_addr st h;
          way = \<lparr>n_pages = vpn, phys_ppn = drop_bit RV_PAGE_SHIFT phys_addr, data_minus_addr = dma\<rparr>;
          s = s\<lparr>ways := (ways s)(victim_way := way), lru := 1 - victim_way\<rparr>;
          h = put_set st set_idx s h
      in put_last st vpn (drop_bit RV_PAGE_SHIFT phys_addr) (data_minus_addr (ways s (1 - lru s))) h)"

definition mmu_resolve ::
  "bool \<Rightarrow> bool \<Rightarrow> u64 \<Rightarrow> ram \<Rightarrow> hart_t \<Rightarrow> u32 \<Rightarrow> (resolved \<times> ram \<times> hart_t) option" where
  "mmu_resolve st special hb mem h addr =
     (let vpn = drop_bit RV_PAGE_SHIFT addr; h = h\<lparr>exc_val := addr\<rparr>
      in if last_vpn st h = vpn then
           if last_dma st h \<noteq> 0 \<and> \<not> special
           then Some (Host (last_dma st h + ucast addr) (join_page (last_ppn st h) addr), mem, h)
           else Some (Phys (join_page (last_ppn st h) addr), mem, h)
         else
           (let s = tlb_sets st h (set_index vpn)
            in if lru s > 1 then None
               else
                 case probe s vpn of
                   Some hit_way \<Rightarrow> (let (r, h) = tlb_hit st special addr hit_way h in Some (r, mem, h))
                 | None \<Rightarrow>
                     do { (phys_addr, mem, h) \<leftarrow> translate_for (if st then Storing else Loading) mem h addr;
                          if error h \<noteq> ERR_NONE then Some (Fault, mem, h)
                          else Some (Phys phys_addr, mem, tlb_fill st hb addr phys_addr h) }))"

text \<open>
  The second half of \<^verbatim>\<open>mmu_load\<close>. The branch on \<^verbatim>\<open>host_addr\<close> there is never taken: every path
  that computes a host address returns before it.
\<close>

definition mmu_load ::
  "u32 \<Rightarrow> u32 \<Rightarrow> u8 \<Rightarrow> u32 \<Rightarrow> bool \<Rightarrow> emu_state_t \<Rightarrow> (u32 \<times> emu_state_t) option" where
  "mmu_load i addr width val reserved e =
     do { (r, mem, h) \<leftarrow> mmu_resolve False reserved (host_base e) (emu_ram e) (harts e i) addr;
          let e = e\<lparr>emu_ram := mem\<rparr>;
          case r of
            Fault \<Rightarrow> Some (val, set_hart i h e)
          | Host host_addr _ \<Rightarrow>
              do { (v, h) \<leftarrow> ram_read_host_fast (host_base e) mem host_addr width val h;
                   Some (v, set_hart i h e) }
          | Phys phys_addr \<Rightarrow>
              do { (v, e) \<leftarrow>
                     (case ram_cache_lookup phys_addr False h of
                        (Some page_ptr, h) \<Rightarrow>
                          do { (v, h) \<leftarrow> ram_read_fast mem page_ptr phys_addr width val h;
                               Some (v, set_hart i h e) }
                      | (None, h) \<Rightarrow> mem_load i phys_addr width val (set_hart i h e));
                   let h = harts e i;
                   if error h = ERR_NONE \<and> reserved
                   then Some (v, set_hart i (h\<lparr>lr_reservation := phys_addr OR 1\<rparr>) e)
                   else Some (v, e) } }"

definition drop_reservation :: "u32 \<Rightarrow> hart_t \<Rightarrow> hart_t" where
  "drop_reservation phys_addr h =
     (if lr_reservation h AND 1 \<noteq> 0 \<and> lr_reservation h AND NOT 3 = phys_addr AND NOT 3
      then h\<lparr>lr_reservation := 0\<rparr> else h)"

definition clear_reservations :: "u32 \<Rightarrow> u32 \<Rightarrow> emu_state_t \<Rightarrow> emu_state_t" where
  "clear_reservations i phys_addr e =
     (if n_hart e = 1 then set_hart i (drop_reservation phys_addr (harts e i)) e
      else e\<lparr>harts := for_upto (n_hart e) (\<lambda>j hs. hs(j := drop_reservation phys_addr (hs j))) (harts e)\<rparr>)"

text \<open>The label \<^verbatim>\<open>do_store\<close> of \<^verbatim>\<open>mmu_store\<close>.\<close>

definition do_store ::
  "u32 \<Rightarrow> u64 option \<Rightarrow> u32 \<Rightarrow> u8 \<Rightarrow> u32 \<Rightarrow> bool \<Rightarrow> emu_state_t \<Rightarrow> (bool \<times> emu_state_t) option" where
  "do_store i host_addr phys_addr width val cond e =
     (if cond \<and> lr_reservation (harts e i) \<noteq> phys_addr OR 1 then Some (False, e)
      else
        let e = clear_reservations i phys_addr e; h = harts e i
        in case host_addr of
             Some a \<Rightarrow>
               do { (mem, h) \<leftarrow> ram_write_host_fast (host_base e) (emu_ram e) a width val h;
                    Some (True, set_hart i h (e\<lparr>emu_ram := mem\<rparr>)) }
           | None \<Rightarrow>
               (case ram_cache_lookup phys_addr True h of
                  (Some page_ptr, h) \<Rightarrow>
                    do { (mem, h) \<leftarrow> ram_write_fast (emu_ram e) page_ptr phys_addr width val h;
                         Some (True, set_hart i h (e\<lparr>emu_ram := mem\<rparr>)) }
                | (None, h) \<Rightarrow>
                    do { e \<leftarrow> mem_store i phys_addr width val (set_hart i h e); Some (True, e) }))"

definition mmu_store ::
  "u32 \<Rightarrow> u32 \<Rightarrow> u8 \<Rightarrow> u32 \<Rightarrow> bool \<Rightarrow> emu_state_t \<Rightarrow> (bool \<times> emu_state_t) option" where
  "mmu_store i addr width val cond e =
     do { (r, mem, h) \<leftarrow> mmu_resolve True cond (host_base e) (emu_ram e) (harts e i) addr;
          let e = set_hart i h (e\<lparr>emu_ram := mem\<rparr>);
          case r of
            Fault \<Rightarrow> Some (False, e)
          | Host host_addr phys_addr \<Rightarrow>
              do_store i (if host_addr = 0 then None else Some host_addr) phys_addr width val cond e
          | Phys phys_addr \<Rightarrow> do_store i None phys_addr width val cond e }"

end
