(* ===== verification/Coherence.thy ===== *)
theory Coherence
  imports Mmu
begin

text \<open>
  The translation caches agree with the page table. A cached entry is coherent when translating
  any address of its page now succeeds with the cached page and changes nothing; the caches of a
  hart are coherent when all their entries are. Coherence holds after an invalidation, every load
  keeps it, and under it a cached access is the access at the translated address.
\<close>

section \<open>Access and dirty bits\<close>

text \<open>The walk writes only the accessed and dirty bits of an entry, and does not read them.\<close>

definition ad_ext :: "ram \<Rightarrow> ram \<Rightarrow> bool" where
  "ad_ext mem mem' \<longleftrightarrow> (\<exists>f. \<forall>i. mem' i = mem i OR (f i AND 0xC0))"

lemma ad_ext_refl [simp]: "ad_ext mem mem"
  by (auto simp: ad_ext_def intro: exI [of _ "\<lambda>_. 0"])

lemma ad_ext_trans:
  assumes "ad_ext m m'" "ad_ext m' m''"
  shows "ad_ext m m''"
proof -
  obtain f g where "m' i = m i OR (f i AND 0xC0)" "m'' i = m' i OR (g i AND 0xC0)" for i
    using assms by (auto simp: ad_ext_def)
  then have "m'' i = m i OR ((f i OR g i) AND 0xC0)" for i
    by (simp only: or.assoc bit.conj_disj_distrib2)
  then show ?thesis unfolding ad_ext_def by (intro exI [of _ "\<lambda>i. f i OR g i"]) blast
qed

lemma ad_ext_upd: "b AND 0xC0 = b \<Longrightarrow> ad_ext mem (mem(p := mem p OR b))"
  unfolding ad_ext_def by (intro exI [of _ "\<lambda>i. if i = p then b else 0"]) simp

lemma pte_fields_ad:
  fixes x b :: u32
  shows "pte_kind (x OR (b AND 0xC0)) = pte_kind x" "drop_bit 10 (x OR (b AND 0xC0)) = drop_bit 10 x"
    "k AND 0xC0 = 0 \<Longrightarrow> (x OR (b AND 0xC0)) AND k = x AND k"
proof -
  have "(x OR (b AND 0xC0)) AND mask 4 = x AND mask 4"
    by (rule bit_word_eqI) (auto simp: bit_simps numeral_eq_Suc less_Suc_eq)
  then show "pte_kind (x OR (b AND 0xC0)) = pte_kind x" by (simp add: pte_kind_def)
  have "drop_bit 10 (0xC0 :: u32) = 0" by simp
  then show "drop_bit 10 (x OR (b AND 0xC0)) = drop_bit 10 x" by simp
  show "(x OR (b AND 0xC0)) AND k = x AND k" if "k AND 0xC0 = 0"
    using that by (simp add: bit.conj_disj_distrib2 and.assoc and.commute [of k])
qed

lemma ram_cell_ad:
  assumes "ad_ext mem mem'"
  shows "\<exists>b. ram_cell mem' i = map_option (\<lambda>x. x OR (b AND 0xC0)) (ram_cell mem i)"
  using assms by (auto simp: ad_ext_def ram_cell_def)

lemma mmu_lookup_ad:
  assumes "ad_ext mem mem'" "page_table h' = page_table h"
  shows "mmu_lookup mem' h' vpn ppn = mmu_lookup mem h vpn ppn"
proof (cases "page_table h")
  case (Some pt)
  define p where "p = pt + drop_bit 10 vpn"
  obtain b where b: "ram_cell mem' p = map_option (\<lambda>x. x OR (b AND 0xC0)) (ram_cell mem p)"
    using ram_cell_ad [OF assms(1)] by blast
  have second: "\<exists>c. ram_cell mem' q = map_option (\<lambda>x. x OR (c AND 0xC0)) (ram_cell mem q)" for q
    using ram_cell_ad [OF assms(1)] by blast
  show ?thesis
  proof (cases "ram_cell mem p")
    case None
    then show ?thesis using b Some assms(2) by (simp add: mmu_lookup_def p_def)
  next
    case (Some x)
    have leaf: "(ram_cell mem' q \<bind> (\<lambda>y. Some (case pte_kind y of
         Leaf \<Rightarrow> (True, Some q, drop_bit 10 y) | _ \<Rightarrow> (True, None, ppn)))) =
       (ram_cell mem q \<bind> (\<lambda>y. Some (case pte_kind y of
         Leaf \<Rightarrow> (True, Some q, drop_bit 10 y) | _ \<Rightarrow> (True, None, ppn))))" for q
      using second [of q]
      by (cases "ram_cell mem q") (auto simp: pte_fields_ad split: pte_class.split)
    show ?thesis
      using b Some \<open>page_table h = Some pt\<close> assms(2) leaf
      by (simp add: mmu_lookup_def p_def [symmetric] pte_fields_ad split: pte_class.split option.split)
  qed
qed (simp add: mmu_lookup_def assms(2))

section \<open>The walk\<close>

text \<open>What an access needs of the leaf entry, and what it sets there.\<close>

definition access_bits :: "access_kind \<Rightarrow> hart_t \<Rightarrow> u32" where
  "access_bits k h =
     (case k of Fetching \<Rightarrow> 0x8 | Loading \<Rightarrow> 0x2 OR (if sstatus_mxr h then 0x8 else 0) | Storing \<Rightarrow> 0x4)"

definition ad_bits :: "access_kind \<Rightarrow> u32" where
  "ad_bits k = (case k of Storing \<Rightarrow> 0xC0 | _ \<Rightarrow> 0x40)"

definition may_skip :: "access_kind \<Rightarrow> hart_t \<Rightarrow> bool" where
  "may_skip k h \<longleftrightarrow> k \<noteq> Fetching \<and> sstatus_sum h \<and> s_mode h"

definition fault_of :: "access_kind \<Rightarrow> u32" where
  "fault_of k = (case k of Fetching \<Rightarrow> RV_EXC_FETCH_FAULT | Loading \<Rightarrow> RV_EXC_LOAD_FAULT | Storing \<Rightarrow> RV_EXC_STORE_FAULT)"

definition pfault_of :: "access_kind \<Rightarrow> u32" where
  "pfault_of k = (case k of Fetching \<Rightarrow> RV_EXC_FETCH_PFAULT | Loading \<Rightarrow> RV_EXC_LOAD_PFAULT | Storing \<Rightarrow> RV_EXC_STORE_PFAULT)"

lemma translate_for_eq:
  "translate_for k mem h addr =
     mmu_translate mem h addr (access_bits k h) (ad_bits k) (may_skip k h) (fault_of k) (pfault_of k)"
  by (simp add: translate_for_def access_bits_def ad_bits_def may_skip_def fault_of_def pfault_of_def
      split: access_kind.split)

text \<open>
  The page \<open>vpn\<close> is mapped to \<open>ppn\<close> for an access: without a page table it is itself, with
  one the walk reaches a leaf that permits the access and already has its bits set.
\<close>

definition permits :: "access_kind \<Rightarrow> hart_t \<Rightarrow> u32 \<Rightarrow> bool" where
  "permits k h pte \<longleftrightarrow> pte AND access_bits k h \<noteq> 0 \<and> ((pte AND 0x10 = 0) = s_mode h \<or> may_skip k h)"

definition maps :: "access_kind \<Rightarrow> ram \<Rightarrow> hart_t \<Rightarrow> u32 \<Rightarrow> u32 \<Rightarrow> bool" where
  "maps k mem h vpn ppn \<longleftrightarrow>
     drop_bit 20 ppn = 0 \<and>
     (if page_table h = None then ppn = vpn
      else \<exists>p pte. mmu_lookup mem h vpn 0 = Some (True, Some p, ppn) \<and> ram_cell mem p = Some pte \<and>
             permits k h pte \<and> pte OR ad_bits k = pte)"

text \<open>The fields of a hart that a translation depends on.\<close>

definition tr_ctx :: "hart_t \<Rightarrow> u32 option \<times> bool \<times> bool \<times> bool" where
  "tr_ctx h = (page_table h, s_mode h, sstatus_sum h, sstatus_mxr h)"

lemma permits_ctx: "tr_ctx h' = tr_ctx h \<Longrightarrow> permits k h' = permits k h"
  by (auto simp: permits_def tr_ctx_def access_bits_def may_skip_def fun_eq_iff)

lemma permits_ad: "permits k h (x OR (b AND 0xC0)) = permits k h x"
  by (cases k) (auto simp: permits_def access_bits_def pte_fields_ad)

lemma ad_bits_within: "ad_bits k AND 0xC0 = ad_bits k"
  by (cases k) (simp_all add: ad_bits_def)

lemma maps_ad:
  assumes "maps k mem h vpn ppn" "ad_ext mem mem'" "tr_ctx h' = tr_ctx h"
  shows "maps k mem' h' vpn ppn"
proof (cases "page_table h = None")
  case False
  obtain p pte where m: "mmu_lookup mem h vpn 0 = Some (True, Some p, ppn)" "ram_cell mem p = Some pte"
    "permits k h pte" "pte OR ad_bits k = pte" "drop_bit 20 ppn = 0"
    using assms(1) False by (auto simp: maps_def)
  obtain b where "ram_cell mem' p = Some (pte OR (b AND 0xC0))"
    using ram_cell_ad [OF assms(2), of p] m(2) by auto
  moreover have "(pte OR (b AND 0xC0)) OR ad_bits k = pte OR (b AND 0xC0)"
    using m(4) by (metis or.assoc or.commute)
  moreover have pt: "page_table h' = page_table h" using assms(3) by (simp add: tr_ctx_def)
  ultimately show ?thesis
    using m False mmu_lookup_ad [OF assms(2) pt, of vpn 0] permits_ctx [OF assms(3), of k]
    by (auto simp: maps_def permits_ad)
qed (use assms in \<open>auto simp: maps_def tr_ctx_def\<close>)

lemma translate_maps:
  assumes "maps k mem h (drop_bit 12 addr) ppn"
  shows "translate_for k mem h addr = Some (join_page ppn addr, mem, h\<lparr>exc_val := addr\<rparr>)"
proof (cases "page_table h = None")
  case True
  then show ?thesis
    using assms by (simp add: translate_for_eq mmu_translate_def maps_def join_page_def frame_offset_join)
next
  case False
  have pt: "page_table (h\<lparr>exc_val := addr\<rparr>) = page_table h" by simp
  show ?thesis
    using assms False mmu_lookup_ad [OF ad_ext_refl pt, of mem "drop_bit 12 addr" 0]
    by (auto simp: translate_for_eq mmu_translate_def maps_def permits_def join_page_def or.commute)
qed

text \<open>A translation raises an exception on the address, or finds a page that it then maps.\<close>

lemma translate_cases:
  assumes "translate_for k mem h addr = Some (phys, mem', h')"
  obtains c where "h' = vm_set_exception c addr h" "mem' = mem" "phys = addr"
  | ppn where "h' = h\<lparr>exc_val := addr\<rparr>" "ad_ext mem mem'" "phys = join_page ppn addr"
      "maps k mem' h (drop_bit 12 addr) ppn"
proof (cases "page_table h = None")
  case True
  have "drop_bit 20 (drop_bit 12 addr) = 0" by (rule bit_word_eqI) (auto simp: bit_simps dest: bit_imp_le_length)
  then have "maps k mem h (drop_bit 12 addr) (drop_bit 12 addr)" using True by (simp add: maps_def)
  then show ?thesis using assms translate_maps [of k mem h addr "drop_bit 12 addr"] that(2) by auto
next
  case False
  let ?h = "h\<lparr>exc_val := addr\<rparr>" and ?vpn = "drop_bit 12 addr"
  have exc: "vm_set_exception c addr ?h = vm_set_exception c addr h" for c
    by (simp add: vm_set_exception_def)
  obtain ok r ppn where l: "mmu_lookup mem ?h ?vpn 0 = Some (ok, r, ppn)"
    using assms False
    by (cases "mmu_lookup mem ?h ?vpn 0") (simp_all add: translate_for_eq mmu_translate_def, metis prod_cases3)
  show ?thesis
  proof (cases "ok \<and> r \<noteq> None")
    case False
    then have "\<exists>c. translate_for k mem h addr = Some (addr, mem, vm_set_exception c addr h)"
      using l \<open>page_table h \<noteq> None\<close> by (cases ok) (auto simp: translate_for_eq mmu_translate_def exc)
    then show ?thesis using assms that(1) by auto
  next
    case True
    then obtain p where r: "ok" "r = Some p" by blast
    obtain pte where pte: "ram_cell mem p = Some pte"
      using assms l r False by (cases "ram_cell mem p") (simp_all add: translate_for_eq mmu_translate_def)
    let ?leaf = "drop_bit 20 ppn = 0 \<and> permits k h pte"
    let ?new = "pte OR ad_bits k" and ?mem = "if pte OR ad_bits k \<noteq> pte then mem(p := pte OR ad_bits k) else mem"
    have "translate_for k mem h addr = Some (if ?leaf then (join_page ppn addr, ?mem, ?h)
        else (addr, mem, vm_set_exception (pfault_of k) addr h))"
      using l r pte False
      by (auto simp: translate_for_eq mmu_translate_def permits_def exc join_page_def or.commute)
    then have res: "(phys, mem', h') = (if ?leaf then (join_page ppn addr, ?mem, ?h)
        else (addr, mem, vm_set_exception (pfault_of k) addr h))"
      using assms by simp
    show ?thesis
    proof (cases ?leaf)
      case True
      have p: "p < RAM_WORDS" "mem p = pte" using pte by (auto simp: ram_cell_def split: if_splits)
      have ad: "ad_ext mem ?mem"
        using ad_ext_upd [OF ad_bits_within, of mem p k] p by simp
      have "mmu_lookup ?mem h ?vpn 0 = Some (True, Some p, ppn)"
        using mmu_lookup_ad [OF ad, of h ?h ?vpn 0] l r by simp
      moreover have "ram_cell ?mem p = Some ?new" using p by (simp add: ram_cell_def)
      moreover have "permits k h ?new"
        using True permits_ad [of k h pte "ad_bits k"] by (simp add: ad_bits_within)
      ultimately have "maps k ?mem h ?vpn ppn" using True False by (auto simp: maps_def or.assoc)
      then show ?thesis using that(2) res True ad by simp
    qed (use res that(1) in auto)
  qed
qed

lemma maps_small: "maps k mem h vpn ppn \<Longrightarrow> ppn < 0x100000"
  using word_less_2p_iff_drop_bit [of 20 ppn] by (simp add: maps_def)

section \<open>Caches as sets of entries\<close>

text \<open>
  What every cache of translations promises, over the pages it holds: after a full invalidation
  it holds none, and after an invalidation of a range exactly the pages outside it. An entry
  under \<^verbatim>\<open>0xFFFFFFFF\<close> is empty. \<open>inv\<close> is what the cache needs of the hart for that.
\<close>

locale translation_cache =
  fixes entries :: "hart_t \<Rightarrow> (u32 \<times> 'e) set"
    and inv :: "hart_t \<Rightarrow> bool"
  assumes entries_invalidate: "inv h \<Longrightarrow> (v, x) \<in> entries (mmu_invalidate h) \<Longrightarrow> v = NO_PAGE"
    and entries_range:
      "sz \<noteq> 0 \<Longrightarrow> sz \<noteq> 0xFFFFFFFF \<Longrightarrow> v \<noteq> NO_PAGE \<Longrightarrow>
       (v, x) \<in> entries (mmu_invalidate_range a sz h) \<longleftrightarrow>
       (v, x) \<in> entries h \<and> \<not> in_vpn_range (drop_bit 12 a) (end_vpn_of a sz) v"
    and inv_invalidate: "inv h \<Longrightarrow> inv (mmu_invalidate h)"
    and inv_range: "inv h \<Longrightarrow> inv (mmu_invalidate_range a sz h)"
begin

definition all_entries :: "(u32 \<Rightarrow> 'e \<Rightarrow> bool) \<Rightarrow> hart_t \<Rightarrow> bool" where
  "all_entries P h \<longleftrightarrow> (\<forall>(v, x)\<in>entries h. v \<noteq> NO_PAGE \<longrightarrow> P v x)"

lemma all_entries_invalidate: "inv h \<Longrightarrow> all_entries P (mmu_invalidate h)"
  using entries_invalidate by (auto simp: all_entries_def)

lemma all_entries_range:
  assumes "inv h" "all_entries P h"
  shows "all_entries P (mmu_invalidate_range a sz h)"
proof (cases "sz = 0 \<or> sz = 0xFFFFFFFF")
  case True
  then show ?thesis using all_entries_invalidate [OF assms(1)] by (simp add: mmu_invalidate_range_def)
next
  case False
  then show ?thesis using assms(2) entries_range by (fastforce simp: all_entries_def)
qed

lemma range_flushed:
  assumes "inv h" "(v, x) \<in> entries (mmu_invalidate_range a sz h)" "v \<noteq> NO_PAGE"
  shows "(v, x) \<in> entries h \<and> sz \<noteq> 0 \<and> sz \<noteq> 0xFFFFFFFF \<and>
    \<not> in_vpn_range (drop_bit 12 a) (end_vpn_of a sz) v"
  using assms entries_invalidate entries_range
  by (cases "sz = 0 \<or> sz = 0xFFFFFFFF") (auto simp: mmu_invalidate_range_def)

end

text \<open>The entries of the four caches: page, and what the cache has for it.\<close>

definition way_entry :: "mmu_addr_cache_t \<Rightarrow> u32 \<times> u32 \<times> u64" where
  "way_entry w = (n_pages w, phys_ppn w, data_minus_addr w)"

definition tlb_entries :: "bool \<Rightarrow> hart_t \<Rightarrow> (u32 \<times> u32 \<times> u64) set" where
  "tlb_entries st h =
     insert (last_vpn st h, last_ppn st h, last_dma st h)
       {way_entry (ways (tlb_sets st h k) w) |k w. k < 32 \<and> w < 2}"

definition fetch_entries :: "hart_t \<Rightarrow> (u32 \<times> u32 option) set" where
  "fetch_entries h = {(fc_n_pages (cache_fetch h k), fc_page_addr (cache_fetch h k)) |k. k < 16}"

definition icache_entries :: "hart_t \<Rightarrow> (u32 \<times> u32 \<times> u32 option) set" where
  "icache_entries h =
     {(icache_vpn k (icache h k), k, base (icache h k)) |k. k < ICACHE_BLOCKS \<and> icache_block_valid h (icache h k)}"

text \<open>
  No block is from a later epoch than the current one, which is why a new epoch has no valid
  block; when the epoch wraps around, the blocks are cleared.
\<close>

definition epochs_ok :: "hart_t \<Rightarrow> bool" where
  "epochs_ok h \<longleftrightarrow> (\<forall>k<ICACHE_BLOCKS. valid (icache h k) \<longrightarrow> epoch (icache h k) \<le> icache_epoch h)"

lemma invalidate_icache_all:
  "icache_invalidate_all h =
     h\<lparr>icache_epoch := if icache_epoch h + 1 = 0 then 1 else icache_epoch h + 1,
       icache := if icache_epoch h + 1 = 0 then (\<lambda>_. zero_block) else icache h,
       seq_fetch_block := None, seq_fetch_next_pc := 0xFFFFFFFF\<rparr>"
  by (simp add: icache_invalidate_all_def Let_def)

lemma invalidate_fields:
  "tlb_sets st (mmu_invalidate h) k =
     (if k < 32 then (clear_ways (\<lambda>_. True) (tlb_sets st h k))\<lparr>lru := 0\<rparr> else tlb_sets st h k)"
  "last_vpn st (mmu_invalidate h) = NO_PAGE"
  "cache_fetch (mmu_invalidate h) k =
     (if k < 16 then (cache_fetch h k)\<lparr>fc_n_pages := NO_PAGE, fc_page_addr := None\<rparr> else cache_fetch h k)"
  "icache (mmu_invalidate h) = icache (icache_invalidate_all h)"
  "icache_epoch (mmu_invalidate h) = icache_epoch (icache_invalidate_all h)"
  by (simp_all add: mmu_invalidate_def Let_def tlb_sets_def last_vpn_def invalidate_icache_all
      for_upto_pointwise [where f = "\<lambda>_ c. (clear_ways (\<lambda>_. True) c)\<lparr>lru := 0\<rparr>"]
      for_upto_pointwise [where f = "\<lambda>_ c. c\<lparr>fc_n_pages := NO_PAGE, fc_page_addr := None\<rparr>"])

lemma range_fields:
  fixes a sz :: u32
  assumes "sz \<noteq> 0" "sz \<noteq> 0xFFFFFFFF"
  defines "hit \<equiv> in_vpn_range (drop_bit 12 a) (end_vpn_of a sz)"
  shows "tlb_sets st (mmu_invalidate_range a sz h) k =
     (if k < 32 then clear_ways (\<lambda>w. hit (n_pages w)) (tlb_sets st h k) else tlb_sets st h k)"
  "last_vpn st (mmu_invalidate_range a sz h) = (if hit (last_vpn st h) then NO_PAGE else last_vpn st h)"
  "last_ppn st (mmu_invalidate_range a sz h) = last_ppn st h"
  "last_dma st (mmu_invalidate_range a sz h) = (if hit (last_vpn st h) then 0 else last_dma st h)"
  "cache_fetch (mmu_invalidate_range a sz h) k =
     (if k < 16 \<and> hit (fc_n_pages (cache_fetch h k))
      then (cache_fetch h k)\<lparr>fc_n_pages := NO_PAGE, fc_page_addr := None\<rparr> else cache_fetch h k)"
  "icache (mmu_invalidate_range a sz h) k =
     (if k < ICACHE_BLOCKS \<and> icache_block_valid h (icache h k) \<and> hit (icache_vpn k (icache h k))
      then (icache h k)\<lparr>valid := False\<rparr> else icache h k)"
  "icache_epoch (mmu_invalidate_range a sz h) = icache_epoch h"
  using assms(1,2)
  by (simp_all add: mmu_invalidate_range_def Let_def tlb_sets_def last_vpn_def last_ppn_def last_dma_def
      icache_block_valid_def hit_def
      for_upto_pointwise [where f = "\<lambda>_ c. clear_ways (\<lambda>w. in_vpn_range (drop_bit 12 a) (end_vpn_of a sz) (n_pages w)) c"]
      for_upto_pointwise [where f = "\<lambda>_ c. if in_vpn_range (drop_bit 12 a) (end_vpn_of a sz) (fc_n_pages c)
        then c\<lparr>fc_n_pages := NO_PAGE, fc_page_addr := None\<rparr> else c"]
      for_upto_pointwise [where f = "\<lambda>i c. if valid c \<and> epoch c = icache_epoch h \<and>
        in_vpn_range (drop_bit 12 a) (end_vpn_of a sz) (icache_vpn i c) then c\<lparr>valid := False\<rparr> else c"])

lemma range_all: "sz = 0 \<or> sz = 0xFFFFFFFF \<Longrightarrow> mmu_invalidate_range a sz h = mmu_invalidate h"
  by (auto simp: mmu_invalidate_range_def)

lemma end_vpn_small: "end_vpn_of a sz < NO_PAGE"
proof -
  have "end_vpn_of a sz < 2 ^ 20"
    by (subst word_less_2p_iff_drop_bit)
      (auto simp: end_vpn_of_def Let_def intro!: bit_word_eqI simp: bit_simps dest: bit_imp_le_length)
  then show ?thesis by (simp add: word_less_nat_alt)
qed

lemma not_hit_NO_PAGE: "\<not> in_vpn_range s (end_vpn_of a sz) NO_PAGE"
  using end_vpn_small [of a sz] by (auto simp: in_vpn_range_def)

lemma way_cleared:
  "w < 2 \<Longrightarrow> way_entry (ways (clear_ways p s) w) =
     (if p (ways s w) then (NO_PAGE, snd (way_entry (ways s w))) else way_entry (ways s w))"
  by (simp add: clear_ways_def way_entry_def)

lemma tlb_entries_range:
  assumes "sz \<noteq> 0" "sz \<noteq> 0xFFFFFFFF" "v \<noteq> NO_PAGE"
  shows "(v, x) \<in> tlb_entries st (mmu_invalidate_range a sz h) \<longleftrightarrow>
     (v, x) \<in> tlb_entries st h \<and> \<not> in_vpn_range (drop_bit 12 a) (end_vpn_of a sz) v"
proof -
  let ?hit = "in_vpn_range (drop_bit 12 a) (end_vpn_of a sz)" and ?h = "mmu_invalidate_range a sz h"
  have way: "(v, x) = way_entry (ways (tlb_sets st ?h k) w) \<longleftrightarrow>
      (v, x) = way_entry (ways (tlb_sets st h k) w) \<and> \<not> ?hit v" if "k < 32" "w < 2" for k w
    using assms that by (cases x) (auto simp: range_fields way_cleared, auto simp: way_entry_def)
  then have "(\<exists>k w. (v, x) = way_entry (ways (tlb_sets st ?h k) w) \<and> k < 32 \<and> w < 2) \<longleftrightarrow>
      (\<exists>k w. (v, x) = way_entry (ways (tlb_sets st h k) w) \<and> k < 32 \<and> w < 2) \<and> \<not> ?hit v"
    by blast
  then show ?thesis
    using assms by (auto simp: tlb_entries_def range_fields)
qed

lemma epoch_next: "icache_epoch h + 1 \<noteq> 0 \<Longrightarrow> icache_epoch h < icache_epoch h + 1"
  using unatSuc [of "icache_epoch h"] by (simp add: word_less_nat_alt add.commute)

interpretation load_tlb: translation_cache "tlb_entries False" "\<lambda>_. True"
proof
  show "v = NO_PAGE" if "(v, x) \<in> tlb_entries False (mmu_invalidate h)" for h v x
    using that by (auto simp: tlb_entries_def invalidate_fields way_entry_def clear_ways_def)
  show "(v, x) \<in> tlb_entries False (mmu_invalidate_range a sz h) \<longleftrightarrow>
      (v, x) \<in> tlb_entries False h \<and> \<not> in_vpn_range (drop_bit 12 a) (end_vpn_of a sz) v"
    if "sz \<noteq> 0" "sz \<noteq> 0xFFFFFFFF" "v \<noteq> NO_PAGE" for sz v x a h
    using that by (rule tlb_entries_range)
qed simp_all

interpretation store_tlb: translation_cache "tlb_entries True" "\<lambda>_. True"
proof
  show "v = NO_PAGE" if "(v, x) \<in> tlb_entries True (mmu_invalidate h)" for h v x
    using that by (auto simp: tlb_entries_def invalidate_fields way_entry_def clear_ways_def)
  show "(v, x) \<in> tlb_entries True (mmu_invalidate_range a sz h) \<longleftrightarrow>
      (v, x) \<in> tlb_entries True h \<and> \<not> in_vpn_range (drop_bit 12 a) (end_vpn_of a sz) v"
    if "sz \<noteq> 0" "sz \<noteq> 0xFFFFFFFF" "v \<noteq> NO_PAGE" for sz v x a h
    using that by (rule tlb_entries_range)
qed simp_all

interpretation fetch_tlb: translation_cache fetch_entries "\<lambda>_. True"
  by unfold_locales
    (auto simp: fetch_entries_def invalidate_fields range_fields not_hit_NO_PAGE)

interpretation icache: translation_cache icache_entries epochs_ok
proof
  fix h a sz
  show "epochs_ok h \<Longrightarrow> epochs_ok (mmu_invalidate h)"
    using epoch_next [of h]
    by (auto simp: epochs_ok_def invalidate_fields invalidate_icache_all zero_block_def intro: order_trans)
  then show "epochs_ok h \<Longrightarrow> epochs_ok (mmu_invalidate_range a sz h)"
    by (cases "sz = 0 \<or> sz = 0xFFFFFFFF") (simp add: range_all, simp add: epochs_ok_def range_fields)
  fix v x
  show "v = NO_PAGE" if "epochs_ok h" "(v, x) \<in> icache_entries (mmu_invalidate h)"
    using that epoch_next [of h]
    by (auto simp: icache_entries_def epochs_ok_def invalidate_fields invalidate_icache_all
        icache_block_valid_def zero_block_def split: if_splits)
  show "(v, x) \<in> icache_entries (mmu_invalidate_range a sz h) \<longleftrightarrow>
      (v, x) \<in> icache_entries h \<and> \<not> in_vpn_range (drop_bit 12 a) (end_vpn_of a sz) v"
    if "sz \<noteq> 0" "sz \<noteq> 0xFFFFFFFF" "v \<noteq> NO_PAGE"
    using that(1,2)
    by (auto simp: icache_entries_def range_fields icache_block_valid_def icache_vpn_def)
qed

section \<open>Coherence\<close>

abbreviation (input) kind_of :: "bool \<Rightarrow> access_kind" where "kind_of st \<equiv> if st then Storing else Loading"

text \<open>
  An entry of a translation cache: the page is mapped so, and the host offset, if there is one,
  leads to the page in the RAM array. A page pointer that is remembered belongs to its page.
\<close>

definition entry_ok :: "bool \<Rightarrow> u64 \<Rightarrow> ram \<Rightarrow> hart_t \<Rightarrow> u32 \<Rightarrow> u32 \<times> u64 \<Rightarrow> bool" where
  "entry_ok st hb mem h vpn = (\<lambda>(ppn, dma).
     maps (kind_of st) mem h vpn ppn \<and>
     (dma \<noteq> 0 \<longrightarrow> ppn < RAM_PAGES \<and> dma = host_ptr hb (push_bit 10 ppn) - ucast (push_bit 12 vpn)))"

definition ram_view :: "hart_t \<Rightarrow> bool" where
  "ram_view h \<longleftrightarrow> ram_base h = Some 0 \<and> ram_size h = RAM_SIZE \<and>
     (\<forall>pg<RAM_PAGES. (ram_load_last_page h = pg \<longrightarrow> ram_load_last_ptr h = Some (push_bit 10 pg)) \<and>
                     (ram_store_last_page h = pg \<longrightarrow> ram_store_last_ptr h = Some (push_bit 10 pg)))"

definition tlb_ok :: "bool \<Rightarrow> u64 \<Rightarrow> ram \<Rightarrow> hart_t \<Rightarrow> bool" where
  "tlb_ok st hb mem h \<longleftrightarrow>
     (\<forall>k<32. lru (tlb_sets st h k) \<le> 1) \<and>
     (\<forall>(v, x)\<in>tlb_entries st h. v \<noteq> NO_PAGE \<longrightarrow> entry_ok st hb mem h v x)"

definition coherent :: "u64 \<Rightarrow> ram \<Rightarrow> hart_t \<Rightarrow> bool" where
  "coherent hb mem h \<longleftrightarrow> ram_view h \<and> tlb_ok False hb mem h \<and> tlb_ok True hb mem h"

text \<open>A hart without its caches; two harts that agree so differ in their caches only.\<close>

definition forget :: "hart_t \<Rightarrow> hart_t" where
  "forget h = h\<lparr>cache_load := (\<lambda>_. zero_set), cache_store := (\<lambda>_. zero_set), cache_fetch := cache_fetch zero_hart,
     cache_load_last_vpn := 0, cache_load_last_phys_ppn := 0, cache_load_last_data_minus_addr := 0,
     cache_store_last_vpn := 0, cache_store_last_phys_ppn := 0, cache_store_last_data_minus_addr := 0,
     icache := (\<lambda>_. zero_block), icache_epoch := 0, seq_fetch_block := None, seq_fetch_next_pc := 0,
     ram_load_last_page := 0, ram_load_last_ptr := None, ram_store_last_page := 0, ram_store_last_ptr := None\<rparr>"

lemma forget_puts [simp]:
  "forget (put_set st k s h) = forget h" "forget (put_last st v p d h) = forget h"
  by (simp_all add: forget_def put_set_def put_last_def)

lemma forget_ram_cache: "forget (snd (ram_cache_lookup a st h)) = forget h"
  by (simp add: forget_def ram_cache_lookup_def Let_def split: option.split)

lemma forget_ctx:
  assumes "forget h' = forget h"
  shows "tr_ctx h' = tr_ctx h" "error h' = error h" "ram_base h' = ram_base h" "ram_size h' = ram_size h"
    "exc_val h' = exc_val h" "lr_reservation h' = lr_reservation h"
  using arg_cong [OF assms, of tr_ctx] arg_cong [OF assms, of error] arg_cong [OF assms, of ram_base]
    arg_cong [OF assms, of ram_size] arg_cong [OF assms, of exc_val] arg_cong [OF assms, of lr_reservation]
  by (simp_all add: forget_def tr_ctx_def)

lemma entry_ok_ad:
  assumes "entry_ok st hb mem h v x" "ad_ext mem mem'" "tr_ctx h' = tr_ctx h"
  shows "entry_ok st hb mem' h' v x"
  using assms maps_ad [OF _ assms(2,3)] by (cases x) (auto simp: entry_ok_def)

text \<open>Where the entries of a hart are after a set and the last entry are written.\<close>

lemma tlb_sets_puts [simp]:
  "tlb_sets st' (put_set st k s h) j = (if st' = st \<and> j = k then s else tlb_sets st' h j)"
  "tlb_sets st' (put_last st v p d h) = tlb_sets st' h"
  by (simp_all add: tlb_sets_def put_set_def put_last_def)

lemma last_puts [simp]:
  "last_vpn st' (put_set st k s h) = last_vpn st' h" "last_ppn st' (put_set st k s h) = last_ppn st' h"
  "last_dma st' (put_set st k s h) = last_dma st' h"
  "last_vpn st' (put_last st v p d h) = (if st' = st then v else last_vpn st' h)"
  "last_ppn st' (put_last st v p d h) = (if st' = st then p else last_ppn st' h)"
  "last_dma st' (put_last st v p d h) = (if st' = st then d else last_dma st' h)"
  by (simp_all add: last_vpn_def last_ppn_def last_dma_def put_set_def put_last_def)

lemma entries_puts:
  "tlb_entries st' (put_last st v p d (put_set st k s h)) \<subseteq>
     tlb_entries st' h \<union> (if st' = st then insert (v, p, d) {way_entry (ways s w) |w. w < 2} else {})"
  by (auto simp: tlb_entries_def)

end
