(* ===== verification/Transparency.thy ===== *)
theory Transparency
  imports Coherence
begin

text \<open>
  Under coherence the caches are invisible: a load or store through them is the load or store of
  the bus at the address that the page-table walk gives, on a hart that differs in its caches only.
\<close>

section \<open>Addresses\<close>

lemma vpn_not_empty: "drop_bit 12 (addr :: u32) \<noteq> NO_PAGE"
proof -
  have "drop_bit 12 addr < 2 ^ 20"
    by (subst word_less_2p_iff_drop_bit)
      (auto intro!: bit_word_eqI simp: bit_simps dest: bit_imp_le_length)
  then show ?thesis by auto
qed

lemma set_index_less: "set_index vpn < 32"
  using and_mask_less_2p [of 5 "vpn XOR drop_bit 5 vpn"] by (simp add: set_index_def mask_eq_exp_minus_1)

lemma probe_hit:
  assumes "lru s \<le> 1" "probe s vpn = Some w"
  shows "w < 2 \<and> n_pages (ways s w) = vpn"
proof -
  have "1 - lru s < 2 \<and> lru s < 2" using assms(1)
    by (auto simp: word_less_nat_alt word_le_nat_alt unat_sub_if_size size_word_def)
  then show ?thesis using assms(2) by (auto simp: probe_def Let_def split: if_splits)
qed

lemma page_of_join: "ppn < 0x100000 \<Longrightarrow> drop_bit 12 (join_page ppn addr) = ppn"
  using frame_of_join_small [of 12 ppn addr] word_less_2p_iff_drop_bit [of 20 ppn]
  by (simp add: join_page_def)

lemma offset_of_page: "join_page ppn addr AND mask 12 = addr AND mask 12"
  by (simp add: join_page_def offset_of_join)

lemma join_page_add: "join_page ppn addr = push_bit 12 ppn + (addr AND mask 12)"
  unfolding join_page_def MASK_eq_mask
  by (rule disjunctive_add_eq_or [symmetric]) (rule bit_word_eqI, auto simp: bit_simps)

lemma ram_page_iff: "phys < RAM_SIZE \<longleftrightarrow> drop_bit 12 phys < (RAM_PAGES :: u32)"
  using word_less_2p_iff_drop_bit [of 29 phys] word_less_2p_iff_drop_bit [of 17 "drop_bit 12 phys"]
  by (simp add: drop_bit_drop_bit)

lemma ucast_join:
  "(ucast (join_page ppn addr) :: u64) = push_bit 12 (ucast ppn) + ucast (addr AND mask 12)"
  if "ppn < 0x100000"
proof -
  have "k < 20" if "bit ppn k" for k using bit_less_2p [of ppn 20 k] that \<open>ppn < 0x100000\<close> by simp
  then have "(ucast (join_page ppn addr) :: u64) = push_bit 12 (ucast ppn) OR ucast (addr AND mask 12)"
    unfolding join_page_def MASK_eq_mask
    by (intro bit_word_eqI) (fastforce simp: bit_simps)
  also have "\<dots> = push_bit 12 (ucast ppn) + ucast (addr AND mask 12)"
    by (rule disjunctive_add_eq_or [symmetric]) (rule bit_word_eqI, auto simp: bit_simps)
  finally show ?thesis .
qed

text \<open>The cached offset leads from a guest address to the byte of RAM it stands for.\<close>

lemma host_address:
  assumes "ppn < 0x100000"
  shows "host_ptr hb (push_bit 10 ppn) - ucast (push_bit 12 (drop_bit 12 addr)) + ucast addr =
     hb + ucast (join_page ppn addr)"
proof -
  have nb: "k < 20" if "bit ppn k" for k
    using bit_less_2p [of ppn 20 k] that assms by simp
  have v: "drop_bit 12 addr < 0x100000"
    using word_less_2p_iff_drop_bit [of 20 "drop_bit 12 addr"]
    by (simp add: drop_bit_drop_bit)
  have bits: "n < 32" if "bit addr n" for n using bit_imp_le_length [OF that] by simp
  have "(ucast (push_bit 12 (drop_bit 12 addr)) :: u64) = push_bit 12 (ucast (drop_bit 12 addr))"
    using bits by (intro bit_word_eqI) (fastforce simp: bit_simps)
  then have "ucast addr = (ucast (push_bit 12 (drop_bit 12 addr)) :: u64) + ucast (addr AND mask 12)"
    using ucast_join [OF v, of addr] by (simp add: join_page_def frame_offset_join)
  moreover have "push_bit 2 (ucast (push_bit 10 ppn)) = (push_bit 12 (ucast ppn) :: u64)"
    using nb by (intro bit_word_eqI) (fastforce simp: bit_simps)
  ultimately show ?thesis by (simp add: host_ptr_def ucast_join [OF assms])
qed

section \<open>Resolving an address\<close>

definition resolves :: "bool \<Rightarrow> u64 \<Rightarrow> u32 \<Rightarrow> resolved \<Rightarrow> bool" where
  "resolves special hb phys r \<longleftrightarrow>
     r = Phys phys \<or> (\<not> special \<and> phys < RAM_SIZE \<and> r = Host (hb + ucast phys) phys)"

lemma entry_resolves:
  assumes "entry_ok st hb mem h (drop_bit 12 addr) (ppn, dma)"
  shows "translate_for (kind_of st) mem h addr = Some (join_page ppn addr, mem, h\<lparr>exc_val := addr\<rparr>)"
    and "resolves special hb (join_page ppn addr)
      (if dma \<noteq> 0 \<and> \<not> special then Host (dma + ucast addr) (join_page ppn addr) else Phys (join_page ppn addr))"
proof -
  have m: "maps (kind_of st) mem h (drop_bit 12 addr) ppn" using assms by (simp add: entry_ok_def)
  show "translate_for (kind_of st) mem h addr = Some (join_page ppn addr, mem, h\<lparr>exc_val := addr\<rparr>)"
    using m by (rule translate_maps)
  have "ppn < 0x100000" using m by (rule maps_small)
  then show "resolves special hb (join_page ppn addr)
      (if dma \<noteq> 0 \<and> \<not> special then Host (dma + ucast addr) (join_page ppn addr) else Phys (join_page ppn addr))"
    using assms host_address [of ppn hb addr] page_of_join [of ppn addr] ram_page_iff [of "join_page ppn addr"]
    by (auto simp: resolves_def entry_ok_def)
qed

lemma tlb_ok_frame:
  assumes "tlb_ok st hb mem h" "ad_ext mem mem'" "tr_ctx h' = tr_ctx h"
    and "\<And>k. k < 32 \<Longrightarrow> lru (tlb_sets st h' k) \<le> 1"
    and "tlb_entries st h' \<subseteq> tlb_entries st h \<union> E"
    and "\<And>v x. (v, x) \<in> E \<Longrightarrow> v \<noteq> NO_PAGE \<Longrightarrow> entry_ok st hb mem' h v x"
  shows "tlb_ok st hb mem' h'"
proof -
  have "entry_ok st hb mem' h' v x" if "(v, x) \<in> tlb_entries st h'" "v \<noteq> NO_PAGE" for v x
  proof (cases "(v, x) \<in> tlb_entries st h")
    case True
    then have "entry_ok st hb mem h v x" using assms(1) that(2) by (auto simp: tlb_ok_def)
    then show ?thesis using assms(2,3) by (rule entry_ok_ad)
  next
    case False
    then have "entry_ok st hb mem' h v x" using assms(5,6) that by blast
    then show ?thesis using entry_ok_ad [OF _ ad_ext_refl assms(3)] by blast
  qed
  then show ?thesis using assms(4) by (auto simp: tlb_ok_def)
qed

lemma one_minus_way: "(w :: u8) < 2 \<Longrightarrow> 1 - w \<le> 1"
  by (auto simp: word_less_nat_alt word_le_nat_alt unat_sub_if_size size_word_def)

lemma tlb_entries_way: "k < 32 \<Longrightarrow> w < 2 \<Longrightarrow> way_entry (ways (tlb_sets st h k) w) \<in> tlb_entries st h"
  by (auto simp: tlb_entries_def)

lemma tlb_hit_ok:
  assumes ok: "tlb_ok st hb mem h" and s: "s = tlb_sets st h (set_index vpn)" and vpn: "vpn = drop_bit 12 addr"
    and hit: "probe s vpn = Some w" and r: "tlb_hit st special addr w h = (r, h1)"
  shows "\<exists>ppn dma. entry_ok st hb mem h vpn (ppn, dma) \<and>
      r = (if dma \<noteq> 0 \<and> \<not> special then Host (dma + ucast addr) (join_page ppn addr) else Phys (join_page ppn addr)) \<and>
      h1 = put_last st vpn ppn dma (put_set st (set_index vpn) (s\<lparr>lru := 1 - w\<rparr>) h) \<and> w < 2 \<and>
      way_entry (ways s w) = (vpn, ppn, dma)"
proof -
  have lru: "lru s \<le> 1" using ok s set_index_less by (simp add: tlb_ok_def)
  have w: "w < 2" "n_pages (ways s w) = vpn" using probe_hit [OF lru hit] by auto
  let ?p = "phys_ppn (ways s w)" and ?d = "data_minus_addr (ways s w)"
  have e: "way_entry (ways s w) = (vpn, ?p, ?d)" using w by (simp add: way_entry_def)
  moreover have "way_entry (ways s w) \<in> tlb_entries st h"
    using tlb_entries_way [OF set_index_less w(1), of st h vpn] s by simp
  ultimately have "entry_ok st hb mem h vpn (?p, ?d)"
    using ok vpn_not_empty [of addr] vpn by (auto simp: tlb_ok_def)
  moreover from this have "drop_bit 12 (join_page ?p addr) = ?p"
    by (auto simp: entry_ok_def intro!: page_of_join maps_small)
  ultimately show ?thesis
    using r s vpn w(1) e by (auto simp: tlb_hit_def Let_def split: if_splits)
qed

lemma ram_view_lookup:
  assumes "ram_view h"
  shows "ram_view (snd (ram_cache_lookup phys st h))"
    and "fst (ram_cache_lookup phys st h) =
      (if phys < RAM_SIZE then Some (push_bit 10 (drop_bit 12 phys)) else None)"
  using assms ram_page_iff [of phys]
  by (auto simp: ram_view_def ram_cache_lookup_def Let_def not_le split: option.splits)

lemma ram_lookup_tlb:
  "tlb_sets st' (snd (ram_cache_lookup phys st h)) = tlb_sets st' h"
  "tlb_entries st' (snd (ram_cache_lookup phys st h)) = tlb_entries st' h"
  by (simp_all add: tlb_entries_def tlb_sets_def last_vpn_def last_ppn_def last_dma_def
      ram_cache_lookup_def Let_def split: option.split)

lemma ram_view_puts [simp]:
  "ram_view (put_set st k s h) = ram_view h" "ram_view (put_last st v p d h) = ram_view h"
  "ram_view (h\<lparr>exc_val := a\<rparr>) = ram_view h" "ram_view (vm_set_exception c a h) = ram_view h"
  by (simp_all add: ram_view_def put_set_def put_last_def vm_set_exception_def)

lemma coherent_frame:
  assumes "coherent hb mem h" "ad_ext mem mem'" "tr_ctx h' = tr_ctx h" "ram_view h'"
    and "\<And>st k. k < 32 \<Longrightarrow> lru (tlb_sets st h' k) \<le> 1"
    and "\<And>st. tlb_entries st h' \<subseteq> tlb_entries st h \<union> E st"
    and "\<And>st v x. (v, x) \<in> E st \<Longrightarrow> v \<noteq> NO_PAGE \<Longrightarrow> entry_ok st hb mem' h v x"
  shows "coherent hb mem' h'"
  using assms tlb_ok_frame [OF _ assms(2,3)] unfolding coherent_def by metis

lemma coherent_lru: "coherent hb mem h \<Longrightarrow> k < 32 \<Longrightarrow> lru (tlb_sets st h k) \<le> 1"
  by (cases st) (auto simp: coherent_def tlb_ok_def)

lemma coherent_entry:
  "coherent hb mem h \<Longrightarrow> (v, x) \<in> tlb_entries st h \<Longrightarrow> v \<noteq> NO_PAGE \<Longrightarrow> entry_ok st hb mem h v x"
  by (cases st) (auto simp: coherent_def tlb_ok_def)

lemma fill_entry_ok:
  assumes "ram_view h" "maps (kind_of st) mem h (drop_bit 12 addr) ppn"
  shows "entry_ok st hb mem h (drop_bit 12 addr)
     (ppn, fst (ram_data_minus_addr hb addr (join_page ppn addr) st h))"
proof -
  have "addr AND NOT 4095 = push_bit 12 (drop_bit 12 addr)"
    using not_mask_eq_push_drop [of addr 12] by (simp add: mask_eq_exp_minus_1)
  then show ?thesis
    using assms ram_view_lookup(2) [OF assms(1), of "join_page ppn addr" st]
      page_of_join [OF maps_small [OF assms(2)]] ram_page_iff [of "join_page ppn addr"]
    by (auto simp: entry_ok_def ram_data_minus_addr_def split: prod.splits option.splits if_splits)
qed

lemma snd_ram_data_minus_addr:
  "snd (ram_data_minus_addr hb addr phys st h) = snd (ram_cache_lookup phys st h)"
  by (simp add: ram_data_minus_addr_def split: prod.split option.split)

lemma tlb_fill_ok:
  assumes "coherent hb mem h" "maps (kind_of st) mem h (drop_bit 12 addr) ppn"
  shows "coherent hb mem (tlb_fill st hb addr (join_page ppn addr) h)" (is ?coh)
    and "forget (tlb_fill st hb addr (join_page ppn addr) h) = forget h" (is ?forget)
proof -
  let ?vpn = "drop_bit 12 addr" and ?s = "tlb_sets st h (set_index (drop_bit 12 addr))"
  obtain dma h2 where d: "ram_data_minus_addr hb addr (join_page ppn addr) st h = (dma, h2)" by fastforce
  then have h2: "h2 = snd (ram_cache_lookup (join_page ppn addr) st h)"
    using snd_ram_data_minus_addr [of hb addr "join_page ppn addr" st h] by simp
  let ?way = "\<lparr>n_pages = ?vpn, phys_ppn = ppn, data_minus_addr = dma\<rparr>"
  let ?set = "?s\<lparr>ways := (ways ?s)(lru ?s := ?way), lru := 1 - lru ?s\<rparr>"
  let ?h1 = "put_last st ?vpn ppn dma (put_set st (set_index ?vpn) ?set h2)"
  have lru: "lru ?s \<le> 1" using coherent_lru [OF assms(1) set_index_less] .
  have fill: "tlb_fill st hb addr (join_page ppn addr) h = ?h1"
    by (simp add: tlb_fill_def Let_def d page_of_join [OF maps_small [OF assms(2)]])
  have rv: "ram_view h" using assms(1) by (simp add: coherent_def)
  have frame: "forget h2 = forget h" using h2 by (simp add: forget_ram_cache)
  then show ?forget by (simp add: fill)
  have entry: "entry_ok st hb mem h ?vpn (ppn, dma)"
    using fill_entry_ok [OF rv assms(2), of hb] d by simp
  show ?coh
    unfolding fill
  proof (rule coherent_frame [OF assms(1) ad_ext_refl, where E = "\<lambda>st'. if st' = st then {(?vpn, ppn, dma)} else {}"])
    show "tr_ctx ?h1 = tr_ctx h" using frame by (intro forget_ctx) simp
    show "ram_view ?h1" using ram_view_lookup(1) [OF rv] h2 by simp
    show "lru (tlb_sets st' ?h1 k) \<le> 1" if "k < 32" for st' k
      using coherent_lru [OF assms(1) that] lru one_minus_way [of "lru ?s"] h2
      by (auto simp: ram_lookup_tlb word_le_nat_alt word_less_nat_alt)
    have "{way_entry (ways ?set w) |w. w < 2} \<subseteq> insert (?vpn, ppn, dma) {way_entry (ways ?s w) |w. w < 2}"
      by (auto simp: way_entry_def)
    also have "\<dots> \<subseteq> insert (?vpn, ppn, dma) (tlb_entries st h)"
      using tlb_entries_way [OF set_index_less] by blast
    finally show "tlb_entries st' ?h1 \<subseteq> tlb_entries st' h \<union> (if st' = st then {(?vpn, ppn, dma)} else {})" for st'
      using entries_puts [of st' st ?vpn ppn dma "set_index ?vpn" ?set h2] h2
      by (auto simp: ram_lookup_tlb split: if_splits)
  qed (use entry in \<open>auto split: if_splits\<close>)
qed

lemma translate_exc_val [simp]:
  "translate_for k mem (h\<lparr>exc_val := a\<rparr>) addr = translate_for k mem h addr"
  by (simp add: translate_for_def mmu_translate_def mmu_lookup_def split: access_kind.split)

lemma tlb_exc_val [simp]:
  "last_vpn st (h\<lparr>exc_val := a\<rparr>) = last_vpn st h" "last_ppn st (h\<lparr>exc_val := a\<rparr>) = last_ppn st h"
  "last_dma st (h\<lparr>exc_val := a\<rparr>) = last_dma st h" "tlb_sets st (h\<lparr>exc_val := a\<rparr>) = tlb_sets st h"
  "tlb_entries st (h\<lparr>exc_val := a\<rparr>) = tlb_entries st h" "tr_ctx (h\<lparr>exc_val := a\<rparr>) = tr_ctx h"
  by (simp_all add: last_vpn_def last_ppn_def last_dma_def tlb_sets_def tlb_entries_def tr_ctx_def)

lemma tlb_exception [simp]:
  "tlb_sets st (vm_set_exception c a h) = tlb_sets st h"
  "tlb_entries st (vm_set_exception c a h) = tlb_entries st h" "tr_ctx (vm_set_exception c a h) = tr_ctx h"
  by (simp_all add: last_vpn_def last_ppn_def last_dma_def tlb_sets_def tlb_entries_def tr_ctx_def
      vm_set_exception_def)

lemma coherent_exc_val:
  assumes "coherent hb mem h" "ad_ext mem mem'"
  shows "coherent hb mem' (h\<lparr>exc_val := a\<rparr>)"
  using assms coherent_lru [OF assms(1)]
  by (intro coherent_frame [OF assms, where E = "\<lambda>_. {}"]) (auto simp: coherent_def)

lemma coherent_exception:
  assumes "coherent hb mem h"
  shows "coherent hb mem (vm_set_exception c a h)"
  using assms coherent_lru [OF assms]
  by (intro coherent_frame [OF assms ad_ext_refl, where E = "\<lambda>_. {}"])
    (auto simp: coherent_def)

text \<open>
  Resolving an address agrees with the walk, on every path: a hit in the last entry, a hit in a
  set, a miss that fills a way, and a fault. The caches stay coherent.
\<close>

definition resolve_spec ::
  "bool \<Rightarrow> bool \<Rightarrow> u64 \<Rightarrow> ram \<Rightarrow> hart_t \<Rightarrow> u32 \<Rightarrow> (resolved \<times> ram \<times> hart_t) option \<Rightarrow> bool" where
  "resolve_spec st special hb mem h addr res \<longleftrightarrow>
     (case translate_for (kind_of st) mem h addr of
        None \<Rightarrow> res = None
      | Some (phys, mem', h') \<Rightarrow>
          \<exists>r h1. res = Some (r, mem', h1) \<and> forget h1 = forget h' \<and> coherent hb mem' h1 \<and>
            (if error h' = ERR_NONE then resolves special hb phys r else r = Fault))"

lemma mmu_resolve_ok:
  assumes coh: "coherent hb mem h" and err: "error h = ERR_NONE"
  shows "resolve_spec st special hb mem h addr (mmu_resolve st special hb mem h addr)"
proof -
  let ?vpn = "drop_bit 12 addr" and ?h = "h\<lparr>exc_val := addr\<rparr>"
  let ?s = "tlb_sets st h (set_index (drop_bit 12 addr))"
  have coh1: "coherent hb mem ?h" using coherent_exc_val [OF coh ad_ext_refl] .
  have lru: "\<not> 1 < lru ?s" using coherent_lru [OF coh set_index_less] by (simp add: not_less)
  consider (last) "last_vpn st h = ?vpn"
    | (hit) w where "last_vpn st h \<noteq> ?vpn" "probe ?s ?vpn = Some w"
    | (miss) "last_vpn st h \<noteq> ?vpn" "probe ?s ?vpn = None"
    by (cases "probe ?s ?vpn") auto
  then show ?thesis
  proof cases
    case last
    then have "(?vpn, last_ppn st h, last_dma st h) \<in> tlb_entries st h" by (simp add: tlb_entries_def)
    then have "entry_ok st hb mem h ?vpn (last_ppn st h, last_dma st h)"
      using coherent_entry [OF coh _ vpn_not_empty] by blast
    note res = entry_resolves [OF this]
    show ?thesis
      using last coh1 err res(1) res(2) [of special]
      by (auto simp: resolve_spec_def mmu_resolve_def Let_def)
  next
    case (hit w)
    obtain r h1 where th: "tlb_hit st special addr w ?h = (r, h1)" by fastforce
    have "tlb_ok st hb mem ?h" using coh1 by (cases st) (auto simp: coherent_def)
    from tlb_hit_ok [OF this refl refl _ th] hit(2) obtain ppn dma where
      e: "entry_ok st hb mem ?h ?vpn (ppn, dma)" and
      r: "r = (if dma \<noteq> 0 \<and> \<not> special then Host (dma + ucast addr) (join_page ppn addr) else Phys (join_page ppn addr))" and
      h1: "h1 = put_last st ?vpn ppn dma (put_set st (set_index ?vpn) (?s\<lparr>lru := 1 - w\<rparr>) ?h)" and
      w: "w < 2" "way_entry (ways ?s w) = (?vpn, ppn, dma)"
      by auto
    have f: "forget h1 = forget ?h" using h1 by simp
    have "coherent hb mem h1"
    proof (rule coherent_frame [OF coh1 ad_ext_refl, where E = "\<lambda>_. {}"])
      show "tr_ctx h1 = tr_ctx ?h" using f by (rule forget_ctx)
      show "ram_view h1" using coh1 h1 by (simp add: coherent_def)
      show "lru (tlb_sets st' h1 k) \<le> 1" if "k < 32" for st' k
        using coherent_lru [OF coh that] one_minus_way [OF w(1)] h1 by auto
      have "{way_entry (ways ?s w) |w. w < 2} \<subseteq> tlb_entries st ?h"
        using tlb_entries_way [OF set_index_less, of _ st h] by auto
      moreover have "(?vpn, ppn, dma) \<in> tlb_entries st ?h"
        using tlb_entries_way [OF set_index_less w(1), of st h ?vpn] w(2) by simp
      ultimately show "tlb_entries st' h1 \<subseteq> tlb_entries st' ?h \<union> {}" for st'
        using entries_puts [of st' st ?vpn ppn dma "set_index ?vpn" "?s\<lparr>lru := 1 - w\<rparr>" ?h] h1
        by (cases "st' = st") (simp, blast, simp)
    qed simp
    then show ?thesis
      using hit lru th f err entry_resolves(1) [OF e] entry_resolves(2) [OF e, of special]
      by (simp add: resolve_spec_def mmu_resolve_def Let_def r)
  next
    case miss
    show ?thesis
    proof (cases "translate_for (kind_of st) mem h addr")
      case None
      then show ?thesis using miss lru by (auto simp: resolve_spec_def mmu_resolve_def Let_def)
    next
      case (Some t)
      obtain phys mem' h' where t: "translate_for (kind_of st) mem h addr = Some (phys, mem', h')"
        using Some by (cases t) auto
      then show ?thesis
      proof (cases rule: translate_cases)
        case (1 c)
        then show ?thesis
          using t miss lru coherent_exception [OF coh]
          by (auto simp: resolve_spec_def mmu_resolve_def Let_def)
      next
        case (2 ppn)
        have coh2: "coherent hb mem' ?h" using coherent_exc_val [OF coh 2(2)] .
        have "maps (kind_of st) mem' ?h ?vpn ppn"
          using maps_ad [OF 2(4) ad_ext_refl, of ?h] by simp
        note fill = tlb_fill_ok [OF coh2 this]
        show ?thesis
          using t miss lru err 2 fill
          by (auto simp: resolve_spec_def mmu_resolve_def Let_def resolves_def)
      qed
    qed
  qed
qed

end
