(* ===== verification/Access.thy ===== *)
theory Access
  imports Transparency
begin

text \<open>
  Loads and stores of a hart: the direct accesses to RAM are the accesses of \<^verbatim>\<open>src/ram.c\<close>, so with
  coherent caches \<^verbatim>\<open>mmu_load\<close> and \<^verbatim>\<open>mmu_store\<close> are the bus accesses at the translated address;
  reservations of other harts are lost by every store to their word.
\<close>

section \<open>Direct accesses\<close>

lemma add_low_bits:
  fixes a b :: "'a::len word"
  assumes "a AND mask n = 0"
  shows "(a + b) AND mask n = b AND mask n" "(a + b) AND NOT (mask n) = a + (b AND NOT (mask n))"
proof -
  have a: "a = push_bit n (drop_bit n a)"
    using not_mask_add_mask [of a n] assms by (simp add: not_mask_eq_push_drop)
  have b: "b = push_bit n (drop_bit n b) + (b AND mask n)"
    using not_mask_add_mask [of b n] by (simp add: not_mask_eq_push_drop)
  define s where "s = drop_bit n a + drop_bit n b"
  have "a + b = push_bit n s + (b AND mask n)"
    unfolding s_def push_bit_add using a b by (metis add.assoc)
  also have "\<dots> = push_bit n s OR (b AND mask n)"
    by (rule disjunctive_add_eq_or) (auto intro!: bit_word_eqI simp: bit_simps)
  finally have sum: "a + b = push_bit n s OR (b AND mask n)" .
  show "(a + b) AND mask n = b AND mask n"
    unfolding sum by (rule bit_word_eqI) (auto simp: bit_simps)
  have "(a + b) AND NOT (mask n) = push_bit n s"
    unfolding sum by (rule bit_word_eqI) (auto simp: bit_simps)
  also have "\<dots> = a + (b AND NOT (mask n))"
    unfolding s_def push_bit_add not_mask_eq_push_drop a [symmetric] ..
  finally show "(a + b) AND NOT (mask n) = a + (b AND NOT (mask n))" .
qed

lemma host_lane:
  assumes "hb AND 3 = 0"
  shows "(ucast ((hb + ucast phys) AND 3 :: u64) :: u32) = phys AND 3"
proof -
  have m: "(3 :: u64) = mask 2" "(3 :: u32) = mask 2" by (simp_all add: mask_eq_exp_minus_1)
  show ?thesis
    using add_low_bits(1) [of hb 2 "ucast phys"] assms unfolding m
    by simp (auto intro!: bit_word_eqI simp: bit_simps)
qed

lemma host_cell_ram:
  assumes "hb AND 3 = 0" "phys < RAM_SIZE"
  shows "host_cell hb ((hb + ucast phys) AND NOT 3) = Some (drop_bit 2 phys)"
proof -
  have m: "(3 :: u64) = mask 2" by (simp add: mask_eq_exp_minus_1)
  have eq: "(hb + ucast phys) AND NOT 3 = hb + (ucast phys AND NOT 3)"
    using add_low_bits(2) [of hb 2 "ucast phys"] assms(1) unfolding m by simp
  have nb: "k < 29" if "bit phys k" for k using bit_less_2p [of phys 29 k] that assms(2) by simp
  have d: "(ucast phys AND NOT 3 :: u64) < 2 ^ 29" unfolding m
    by (subst word_less_2p_iff_drop_bit) (auto intro!: bit_word_eqI simp: bit_simps dest!: nb)
  have "(ucast (drop_bit 2 (ucast phys AND NOT 3 :: u64)) :: u32) = drop_bit 2 phys" unfolding m
    by (rule bit_word_eqI) (auto simp: bit_simps dest: bit_imp_le_length)
  moreover have "(ucast phys AND NOT 3 :: u64) AND 3 = 0" unfolding m
    by (rule bit_word_eqI) (auto simp: bit_simps)
  ultimately show ?thesis using d unfolding eq by (simp add: host_cell_def)
qed

lemma lane_aligned:
  "(phys AND 3 = 0) = aligned phys RV_MEM_LW" "((phys AND 3) AND 1 = 0) = aligned phys RV_MEM_LH"
  "((phys AND 3) AND 1 = 0) = aligned phys RV_MEM_LHU" "aligned phys RV_MEM_LB" "aligned phys RV_MEM_LBU"
  by (simp_all add: aligned_def width_bytes_def and.assoc)

lemma fast_read_ram:
  assumes "phys < RAM_SIZE"
  shows "fast_read mem (phys AND 3) (Some (drop_bit 2 phys)) width v h = ram_read mem phys width v h"
  using lane_aligned [of phys]
  by (auto simp: fast_read_def ram_read_cases Let_def load_width_def load_cell_def split: if_splits)

lemma fast_write_ram:
  assumes "phys < RAM_SIZE"
  shows "fast_write mem (phys AND 3) (Some (drop_bit 2 phys)) width v h = ram_write mem phys width v h"
  using lane_aligned [of phys]
  by (auto simp: fast_write_def ram_write_cases Let_def store_width_def store_cell_def split: if_splits)

lemma page_cell: "push_bit 10 (drop_bit 12 phys) + (drop_bit 2 phys AND 1023) = drop_bit 2 (phys :: u32)"
  using not_mask_add_mask [of "drop_bit 2 phys" 10] not_mask_eq_push_drop [of "drop_bit 2 phys" 10]
  by (simp add: mask_eq_exp_minus_1)

lemma ram_fast_eq:
  assumes "phys < RAM_SIZE"
  shows "ram_read_fast mem (push_bit 10 (drop_bit 12 phys)) phys width v h = ram_read mem phys width v h"
    "ram_write_fast mem (push_bit 10 (drop_bit 12 phys)) phys width v h = ram_write mem phys width v h"
    "hb AND 3 = 0 \<Longrightarrow> ram_read_host_fast hb mem (hb + ucast phys) width v h = ram_read mem phys width v h"
    "hb AND 3 = 0 \<Longrightarrow> ram_write_host_fast hb mem (hb + ucast phys) width v h = ram_write mem phys width v h"
  using fast_read_ram [OF assms] fast_write_ram [OF assms] host_lane [of hb phys] host_cell_ram [of hb phys] assms
  by (simp_all add: ram_read_fast_def ram_write_fast_def ram_read_host_fast_def ram_write_host_fast_def
      page_cell and.assoc)

section \<open>Loads\<close>

lemma set_hart_twice [simp]: "set_hart i h (set_hart i h' e) = set_hart i h e"
  by (simp add: set_hart_def)

lemma set_hart_sel [simp]:
  "harts (set_hart i h e) j = (if j = i then h else harts e j)" "host_base (set_hart i h e) = host_base e"
  "n_hart (set_hart i h e) = n_hart e"
  by (simp_all add: set_hart_def)

lemma set_hart_upd_ram: "(set_hart i h e)\<lparr>emu_ram := mem\<rparr> = set_hart i h (e\<lparr>emu_ram := mem\<rparr>)"
  by (simp add: set_hart_def)

lemma bus_ram_access:
  assumes "phys < RAM_SIZE"
  shows "mem_load i phys width v (set_hart i h e) =
      do { (v, h) \<leftarrow> ram_read (emu_ram e) phys width v h; Some (v, set_hart i h e) }"
    and "mem_store i phys width x (set_hart i h e) =
      do { (mem, h) \<leftarrow> ram_write (emu_ram e) phys width x h; Some (set_hart i h (e\<lparr>emu_ram := mem\<rparr>)) }"
  using assms by (auto simp: mem_load_def mem_store_def set_hart_upd_ram split: bind_split)

text \<open>The load at a physical address, with the reservation that a load-reserved takes.\<close>

definition load_at :: "u32 \<Rightarrow> u32 \<Rightarrow> u8 \<Rightarrow> u32 \<Rightarrow> bool \<Rightarrow> emu_state_t \<Rightarrow> (u32 \<times> emu_state_t) option" where
  "load_at i phys width v reserved e =
     do { (v, e) \<leftarrow> mem_load i phys width v e;
          Some (v, if reserved \<and> error (harts e i) = ERR_NONE
                   then set_hart i ((harts e i)\<lparr>lr_reservation := phys OR 1\<rparr>) e else e) }"

lemma lookup_load:
  assumes "ram_view h" "ram_cache_lookup phys False h = (r, h2)" "emu_ram e = mem"
  shows "(case r of
       Some page_ptr \<Rightarrow> do { (v, h) \<leftarrow> ram_read_fast mem page_ptr phys width v h2; Some (v, set_hart i h e) }
     | None \<Rightarrow> mem_load i phys width v (set_hart i h2 e)) = mem_load i phys width v (set_hart i h2 e)"
  using ram_view_lookup(2) [OF assms(1), of phys False] assms(2,3) ram_fast_eq(1) [of phys] bus_ram_access(1) [of phys]
  by (auto split: if_splits)

lemma coherent_lookup:
  assumes "coherent hb mem h" "ram_cache_lookup phys st h = (r, h2)"
  shows "coherent hb mem h2" "forget h2 = forget h"
proof -
  show f: "forget h2 = forget h" using forget_ram_cache [of phys st h] assms(2) by simp
  show "coherent hb mem h2"
  proof (rule coherent_frame [OF assms(1) ad_ext_refl, where E = "\<lambda>_. {}"])
    show "tr_ctx h2 = tr_ctx h" using f by (rule forget_ctx)
    show "ram_view h2" using ram_view_lookup(1) [of h phys st] assms by (simp add: coherent_def)
    show "lru (tlb_sets st' h2 k) \<le> 1" if "k < 32" for st' k
      using coherent_lru [OF assms(1) that] ram_lookup_tlb(1) [of st' phys st h] assms(2) by simp
    show "tlb_entries st' h2 \<subseteq> tlb_entries st' h \<union> {}" for st'
      using ram_lookup_tlb(2) [of st' phys st h] assms(2) by simp
  qed simp
qed

lemma mmu_load_at:
  assumes "coherent (host_base e) (emu_ram e) (harts e i)" "error (harts e i) = ERR_NONE" "host_base e AND 3 = 0"
    and t: "translate_for Loading (emu_ram e) (harts e i) addr = Some (phys, mem, h)"
  shows "\<exists>h1. forget h1 = forget h \<and> coherent (host_base e) mem h1 \<and>
    mmu_load i addr width v reserved e =
      (if error h \<noteq> ERR_NONE then Some (v, set_hart i h1 (e\<lparr>emu_ram := mem\<rparr>))
       else load_at i phys width v reserved (set_hart i h1 (e\<lparr>emu_ram := mem\<rparr>)))"
proof -
  let ?e = "e\<lparr>emu_ram := mem\<rparr>"
  obtain r h1 where r: "mmu_resolve False reserved (host_base e) (emu_ram e) (harts e i) addr = Some (r, mem, h1)"
    "forget h1 = forget h" "coherent (host_base e) mem h1"
    "if error h = ERR_NONE then resolves reserved (host_base e) phys r else r = Fault"
    using mmu_resolve_ok [OF assms(1,2), of False reserved addr] t by (auto simp: resolve_spec_def)
  show ?thesis
  proof (cases "error h = ERR_NONE")
    case False
    then show ?thesis using r by (auto simp: mmu_load_def)
  next
    case True
    then consider "r = Phys phys"
      | "\<not> reserved" "phys < RAM_SIZE" "r = Host (host_base e + ucast phys) phys"
      using r(4) by (auto simp: resolves_def)
    then show ?thesis
    proof cases
      case 1
      obtain p h2 where l: "ram_cache_lookup phys False h1 = (p, h2)" by fastforce
      have "ram_view h1" using r(3) by (simp add: coherent_def)
      from lookup_load [OF this l, of ?e mem i width v] have "mmu_load i addr width v reserved e =
          load_at i phys width v reserved (set_hart i h2 ?e)"
        by (simp add: mmu_load_def r(1) 1 l load_at_def Let_def conj_commute if_distrib cong: if_cong)
      then show ?thesis using coherent_lookup [OF r(3) l] r(2) True by auto
    next
      case 2
      have "mmu_load i addr width v reserved e = load_at i phys width v reserved (set_hart i h1 ?e)"
        using 2 assms(3) r(1) by (simp add: mmu_load_def load_at_def bus_ram_access ram_fast_eq)
      then show ?thesis using r True by auto
    qed
  qed
qed

section \<open>Stores\<close>

text \<open>
  The store at a physical address: a conditional store needs the reservation of its address,
  and every store that happens takes away the reservations on its word.
\<close>

definition store_at :: "u32 \<Rightarrow> u32 \<Rightarrow> u8 \<Rightarrow> u32 \<Rightarrow> bool \<Rightarrow> emu_state_t \<Rightarrow> (bool \<times> emu_state_t) option" where
  "store_at i phys width x cond e =
     (if cond \<and> lr_reservation (harts e i) \<noteq> phys OR 1 then Some (False, e)
      else do { e \<leftarrow> mem_store i phys width x (clear_reservations i phys e); Some (True, e) })"

lemma drop_reservation_lookup:
  "ram_cache_lookup phys st (drop_reservation a h) =
     (fst (ram_cache_lookup phys st h), drop_reservation a (snd (ram_cache_lookup phys st h)))"
  by (auto simp: drop_reservation_def ram_cache_lookup_def Let_def split: option.split)

lemma clear_reservations_hart:
  assumes "i < n_hart e"
  shows "clear_reservations i phys (set_hart i h e) =
    set_hart i (drop_reservation phys h) (clear_reservations i phys e)"
  using assms
  by (auto simp: clear_reservations_def set_hart_def fun_eq_iff
      for_upto_pointwise [where f = "\<lambda>_ h. drop_reservation phys h"] split: if_splits)

lemma clear_reservations_sel [simp]:
  "emu_ram (clear_reservations i phys e) = emu_ram e" "host_base (clear_reservations i phys e) = host_base e"
  "n_hart (clear_reservations i phys e) = n_hart e"
  by (simp_all add: clear_reservations_def set_hart_def)

lemma clear_reservations_harts:
  assumes "i < n_hart e"
  shows "harts (clear_reservations i phys e) j =
    (if j < n_hart e then drop_reservation phys (harts e j) else harts e j)"
  using assms
  by (auto simp: clear_reservations_def set_hart_def word_less_1
      for_upto_pointwise [where f = "\<lambda>_ h. drop_reservation phys h"])

lemma lookup_store:
  assumes "ram_view h" "ram_cache_lookup phys True h = (r, h2)"
  shows "(case r of
       Some page_ptr \<Rightarrow>
         do { (mem, h) \<leftarrow> ram_write_fast (emu_ram e) page_ptr phys width x h2;
              Some (True, set_hart i h (e\<lparr>emu_ram := mem\<rparr>)) }
     | None \<Rightarrow> do { e \<leftarrow> mem_store i phys width x (set_hart i h2 e); Some (True, e) }) =
     do { e \<leftarrow> mem_store i phys width x (set_hart i h2 e); Some (True, e) }"
  using ram_view_lookup(2) [OF assms(1), of phys True] assms(2) ram_fast_eq(2) [of phys] bus_ram_access(2) [of phys]
  by (auto split: if_splits bind_splits)

lemma ram_view_drop [simp]: "ram_view (drop_reservation a h) = ram_view h"
  by (simp add: ram_view_def drop_reservation_def)

lemma do_store_phys:
  assumes coh: "coherent hb (emu_ram e) h" and i: "i < n_hart e"
  shows "\<exists>h2. forget h2 = forget h \<and> coherent hb (emu_ram e) h2 \<and>
    do_store i None phys width x cond (set_hart i h e) = store_at i phys width x cond (set_hart i h2 e)"
proof (cases "cond \<and> lr_reservation h \<noteq> phys OR 1")
  case True
  then show ?thesis using coh by (auto simp: do_store_def store_at_def)
next
  case False
  obtain p h2 where l: "ram_cache_lookup phys True h = (p, h2)" by fastforce
  let ?d = "drop_reservation phys" and ?c = "clear_reservations i phys e"
  have l': "ram_cache_lookup phys True (?d h) = (p, ?d h2)" using l by (simp add: drop_reservation_lookup)
  have "ram_view (?d h)" using coh by (simp add: coherent_def)
  from lookup_store [OF this l', where e = ?c]
  have "do_store i None phys width x cond (set_hart i h e) =
      do { e \<leftarrow> mem_store i phys width x (set_hart i (?d h2) ?c); Some (True, e) }"
    using False l' by (auto simp: do_store_def Let_def clear_reservations_hart [OF i] set_hart_upd_ram split: option.splits)
  moreover have "lr_reservation h2 = lr_reservation h"
    using forget_ctx coherent_lookup(2) [OF coh l] by blast
  ultimately have "do_store i None phys width x cond (set_hart i h e) =
      store_at i phys width x cond (set_hart i h2 e)"
    using False by (auto simp: store_at_def clear_reservations_hart [OF i])
  then show ?thesis using coherent_lookup [OF coh l] by (intro exI [of _ h2]) simp
qed

lemma do_store_host:
  assumes "i < n_hart e" "host_base e AND 3 = 0" "phys < RAM_SIZE"
  shows "do_store i (Some (host_base e + ucast phys)) phys width x False (set_hart i h e) =
    store_at i phys width x False (set_hart i h e)"
  using assms
  by (auto simp: do_store_def store_at_def Let_def clear_reservations_hart ram_fast_eq bus_ram_access
      set_hart_upd_ram split: bind_splits)

lemma mmu_store_at:
  assumes "coherent (host_base e) (emu_ram e) (harts e i)" "error (harts e i) = ERR_NONE" "host_base e AND 3 = 0"
    and i: "i < n_hart e"
    and t: "translate_for Storing (emu_ram e) (harts e i) addr = Some (phys, mem, h)"
  shows "\<exists>h1. forget h1 = forget h \<and> coherent (host_base e) mem h1 \<and>
    mmu_store i addr width x cond e =
      (if error h \<noteq> ERR_NONE then Some (False, set_hart i h1 (e\<lparr>emu_ram := mem\<rparr>))
       else store_at i phys width x cond (set_hart i h1 (e\<lparr>emu_ram := mem\<rparr>)))"
proof -
  let ?e = "e\<lparr>emu_ram := mem\<rparr>"
  obtain r h1 where r: "mmu_resolve True cond (host_base e) (emu_ram e) (harts e i) addr = Some (r, mem, h1)"
    "forget h1 = forget h" "coherent (host_base e) mem h1"
    "if error h = ERR_NONE then resolves cond (host_base e) phys r else r = Fault"
    using mmu_resolve_ok [OF assms(1,2), of True cond addr] t by (auto simp: resolve_spec_def)
  have phys: "\<exists>h2. forget h2 = forget h \<and> coherent (host_base e) mem h2 \<and>
      do_store i None phys width x cond (set_hart i h1 ?e) = store_at i phys width x cond (set_hart i h2 ?e)"
    using do_store_phys [of "host_base e" ?e h1 i phys width x cond] r(2,3) i by simp
  show ?thesis
  proof (cases "error h = ERR_NONE")
    case False
    then show ?thesis using r by (auto simp: mmu_store_def)
  next
    case True
    then consider "r = Phys phys" | "host_base e + ucast phys = 0" "r = Host 0 phys"
      | "\<not> cond" "phys < RAM_SIZE" "host_base e + ucast phys \<noteq> 0" "r = Host (host_base e + ucast phys) phys"
      using r(4) by (cases "host_base e + ucast phys = 0") (auto simp: resolves_def)
    then show ?thesis
    proof cases
      case 3
      then have "mmu_store i addr width x cond e = store_at i phys width x False (set_hart i h1 ?e)"
        using do_store_host [of i ?e phys width x h1] assms(3) i r(1) by (simp add: mmu_store_def)
      then show ?thesis using r 3(1) True by auto
    qed (use phys True r(1) in \<open>auto simp: mmu_store_def\<close>)
  qed
qed

section \<open>Coherence is kept\<close>

text \<open>Coherence of a hart depends on these fields only; neither the bus nor a reservation is among them.\<close>

definition tlb_state where
  "tlb_state h =
     (cache_load h, cache_store h,
      (cache_load_last_vpn h, cache_load_last_phys_ppn h, cache_load_last_data_minus_addr h),
      (cache_store_last_vpn h, cache_store_last_phys_ppn h, cache_store_last_data_minus_addr h),
      (ram_base h, ram_size h, ram_load_last_page h, ram_load_last_ptr h, ram_store_last_page h, ram_store_last_ptr h),
      tr_ctx h)"

lemma coherent_cong:
  assumes "tlb_state h' = tlb_state h" "coherent hb mem h" "ad_ext mem mem'"
  shows "coherent hb mem' h'"
proof -
  have same: "tlb_sets st h' = tlb_sets st h" "tlb_entries st h' = tlb_entries st h" "tr_ctx h' = tr_ctx h"
    "ram_view h' = ram_view h" for st
    using assms(1) by (auto simp: tlb_state_def tlb_sets_def tlb_entries_def last_vpn_def last_ppn_def
        last_dma_def ram_view_def)
  show ?thesis
    using assms(2) coherent_lru [OF assms(2)]
    by (intro coherent_frame [OF assms(2,3), where E = "\<lambda>_. {}"]) (auto simp: same coherent_def)
qed

lemma tlb_state_simps [simp]:
  "tlb_state (h\<lparr>lr_reservation := a\<rparr>) = tlb_state h" "tlb_state (drop_reservation a h) = tlb_state h"
  "tlb_state (h\<lparr>exc_val := a\<rparr>) = tlb_state h" "tlb_state (vm_set_exception c a h) = tlb_state h"
  by (simp_all add: tlb_state_def tr_ctx_def drop_reservation_def vm_set_exception_def)

lemma tlb_state_bus: "bus_frame h h' \<Longrightarrow> tlb_state h' = tlb_state h"
  unfolding bus_frame_def by (erule ssubst) (simp add: tlb_state_def tr_ctx_def)

definition all_coherent :: "emu_state_t \<Rightarrow> bool" where
  "all_coherent e \<longleftrightarrow> (\<forall>j. coherent (host_base e) (emu_ram e) (harts e j))"

lemma all_coherent_step:
  assumes "all_coherent e" "host_base e' = host_base e" "ad_ext (emu_ram e) (emu_ram e')"
    and "\<And>j. j \<noteq> i \<Longrightarrow> tlb_state (harts e' j) = tlb_state (harts e j)"
    and "coherent (host_base e) (emu_ram e') (harts e' i)"
  shows "all_coherent e'"
  unfolding all_coherent_def
proof
  fix j
  show "coherent (host_base e') (emu_ram e') (harts e' j)"
    using assms coherent_cong [OF assms(4) _ assms(3)]
    by (cases "j = i") (auto simp: all_coherent_def)
qed

lemma mem_load_coherent:
  assumes "all_coherent e" "mem_load i a w v e = Some (v', e')"
  shows "all_coherent e'"
proof -
  note f = mem_load_frame [OF assms(2), unfolded emu_frame_of_def]
  then have "tlb_state (harts e' j) = tlb_state (harts e j)" for j
    using tlb_state_bus by blast
  then show ?thesis
    using assms(1) f coherent_cong [OF _ _ ad_ext_refl] unfolding all_coherent_def by metis
qed

lemma translate_ad:
  assumes "translate_for k mem h addr = Some (phys, mem', h')"
  shows "ad_ext mem mem'"
  using assms by (cases rule: translate_cases) auto

lemma load_at_coherent:
  assumes "all_coherent e" "load_at i phys w v reserved e = Some (v', e')"
  shows "all_coherent e'"
proof -
  obtain v1 e1 where l: "mem_load i phys w v e = Some (v1, e1)"
    and e': "e' = (if reserved \<and> error (harts e1 i) = ERR_NONE
       then set_hart i ((harts e1 i)\<lparr>lr_reservation := phys OR 1\<rparr>) e1 else e1)"
    using assms(2) by (auto simp: load_at_def split: bind_splits)
  have c: "all_coherent e1" using mem_load_coherent [OF assms(1) l] .
  then have "coherent (host_base e1) (emu_ram e1) ((harts e1 i)\<lparr>lr_reservation := phys OR 1\<rparr>)"
    using coherent_cong [OF _ _ ad_ext_refl, of "(harts e1 i)\<lparr>lr_reservation := phys OR 1\<rparr>" "harts e1 i"]
    by (simp add: all_coherent_def)
  then show ?thesis using c by (auto simp: e' intro: all_coherent_step [of e1 _ i])
qed

text \<open>Empty caches are coherent with any page table.\<close>

lemma coherent_empty:
  assumes "ram_view h" "\<And>st k. k < 32 \<Longrightarrow> lru (tlb_sets st h k) \<le> 1"
    and "\<And>st v x. (v, x) \<in> tlb_entries st h \<Longrightarrow> v = NO_PAGE"
  shows "coherent hb mem h"
  using assms by (auto simp: coherent_def tlb_ok_def)

lemma tlb_entries_invalidate: "(v, x) \<in> tlb_entries st (mmu_invalidate h) \<Longrightarrow> v = NO_PAGE"
  using load_tlb.entries_invalidate store_tlb.entries_invalidate by (cases st) simp_all

lemma ram_invalidate [simp]:
  "ram_base (mmu_invalidate h) = ram_base h" "ram_size (mmu_invalidate h) = ram_size h"
  "ram_load_last_page (mmu_invalidate h) = NO_PAGE" "ram_store_last_page (mmu_invalidate h) = NO_PAGE"
  "page_table (mmu_invalidate h) = page_table h" "s_mode (mmu_invalidate h) = s_mode h"
  "error (mmu_invalidate h) = error h"
  by (simp_all add: mmu_invalidate_def Let_def invalidate_icache_all)

lemma invalidate_empty:
  assumes "ram_base h = Some 0" "ram_size h = RAM_SIZE"
  shows "ram_view (mmu_invalidate h)" "k < 32 \<Longrightarrow> lru (tlb_sets st (mmu_invalidate h) k) \<le> 1"
  using assms by (auto simp: ram_view_def invalidate_fields)

lemma coherent_invalidate:
  assumes "ram_base h = Some 0" "ram_size h = RAM_SIZE"
  shows "coherent hb mem (mmu_invalidate h)"
  using invalidate_empty [OF assms] tlb_entries_invalidate by (intro coherent_empty) auto

text \<open>After an invalidation the fields that a translation depends on may change at will.\<close>

lemma coherent_after_invalidate:
  assumes "ram_base h = Some 0" "ram_size h = RAM_SIZE"
    and "ram_view h' = ram_view (mmu_invalidate h)"
    and "\<And>st. tlb_sets st h' = tlb_sets st (mmu_invalidate h)"
    and "\<And>st. tlb_entries st h' = tlb_entries st (mmu_invalidate h)"
  shows "coherent hb mem h'"
  using invalidate_empty [OF assms(1,2)] tlb_entries_invalidate assms(3-)
  by (intro coherent_empty) auto

lemma coherent_mmu_set:
  assumes "ram_base h = Some 0" "ram_size h = RAM_SIZE"
  shows "coherent hb mem (mmu_set new_satp h)"
  using assms
  by (intro coherent_after_invalidate [OF assms])
    (auto simp: mmu_set_def Let_def ram_view_def tlb_sets_def tlb_entries_def last_vpn_def last_ppn_def
      last_dma_def split: option.split)

text \<open>A machine for the examples: two harts that have just been invalidated.\<close>

definition flushed_emu :: emu_state_t where
  "flushed_emu = zero_emu\<lparr>harts := (\<lambda>i. mmu_invalidate (harts zero_emu i))\<rparr>"

lemma flushed_coherent: "all_coherent flushed_emu"
  by (auto simp: all_coherent_def flushed_emu_def zero_emu_def intro!: coherent_invalidate)

lemma flushed_sel [simp]:
  "host_base flushed_emu AND 3 = 0" "error (harts flushed_emu i) = ERR_NONE" "n_hart flushed_emu = 2"
  "page_table (harts flushed_emu i) = None" "emu_ram flushed_emu = (\<lambda>_. 0)"
  by (simp_all add: flushed_emu_def zero_emu_def zero_hart_def)

section \<open>Properties\<close>

text \<open>
  C2: With coherent caches a load is invisible to them. It returns, raises and changes in RAM and
  devices what the bus access at the address of the page-table walk does, on a hart that differs
  from the walk's only in its caches; if the walk faults, the load raises that fault. This holds for
  the host-pointer paths, the page-pointer paths, hits and misses alike, and a load is undefined
  only if the walk or the bus access is.
\<close>

theorem mmu_load_transparent:
  assumes "coherent (host_base e) (emu_ram e) (harts e i)" "error (harts e i) = ERR_NONE" "host_base e AND 3 = 0"
  shows "case translate_for Loading (emu_ram e) (harts e i) addr of
      None \<Rightarrow> mmu_load i addr width v reserved e = None
    | Some (phys, mem, h) \<Rightarrow>
        \<exists>h1. forget h1 = forget h \<and>
          mmu_load i addr width v reserved e =
            (if error h \<noteq> ERR_NONE then Some (v, set_hart i h1 (e\<lparr>emu_ram := mem\<rparr>))
             else do { (v', e') \<leftarrow> mem_load i phys width v (set_hart i h1 (e\<lparr>emu_ram := mem\<rparr>));
                       Some (v', if reserved \<and> error (harts e' i) = ERR_NONE
                         then set_hart i ((harts e' i)\<lparr>lr_reservation := phys OR 1\<rparr>) e' else e') })"
proof (cases "translate_for Loading (emu_ram e) (harts e i) addr")
  case None
  then show ?thesis
    using mmu_resolve_ok [OF assms(1,2), of False reserved addr] by (simp add: resolve_spec_def mmu_load_def)
next
  case (Some t)
  then show ?thesis
    using mmu_load_at [OF assms, of addr "fst t" "fst (snd t)" "snd (snd t)" width v reserved]
    by (auto simp: load_at_def)
qed

theorem mmu_load_transparent_witness:
  "\<exists>h1. mmu_load 1 0x1002 RV_MEM_LHU 7 False flushed_emu = Some (0, set_hart 1 h1 flushed_emu)"
proof -
  have t: "translate_for Loading (\<lambda>_. 0) (harts flushed_emu 1) 0x1002 =
      Some (0x1002, \<lambda>_. 0, (harts flushed_emu 1)\<lparr>exc_val := 0x1002\<rparr>)"
    by (simp add: translate_for_def mmu_translate_def)
  have e: "flushed_emu\<lparr>emu_ram := \<lambda>_. 0\<rparr> = flushed_emu" by (simp add: flushed_emu_def zero_emu_def)
  have r: "ram_read (\<lambda>_. 0) 0x1002 RV_MEM_LHU 7 h = Some (0, h)" for h
    by (simp add: ram_read_def RAM_FUNC_def ram_cell_def)
  show ?thesis
    using mmu_load_transparent [of flushed_emu 1 "0x1002" RV_MEM_LHU 7 False] flushed_coherent
    by (auto simp: t e r all_coherent_def bus_ram_access)
qed

text \<open>
  C3: With coherent caches a store is invisible to them as well: it does what the bus access at the
  address of the page-table walk does. A conditional store without the reservation of that address
  changes no memory, and a store that happens first takes away the reservations of all harts on its
  word.
\<close>

theorem mmu_store_transparent:
  assumes "coherent (host_base e) (emu_ram e) (harts e i)" "error (harts e i) = ERR_NONE" "host_base e AND 3 = 0"
    and "i < n_hart e"
  shows "case translate_for Storing (emu_ram e) (harts e i) addr of
      None \<Rightarrow> mmu_store i addr width x cond e = None
    | Some (phys, mem, h) \<Rightarrow>
        \<exists>h1. forget h1 = forget h \<and>
          mmu_store i addr width x cond e =
            (let e1 = set_hart i h1 (e\<lparr>emu_ram := mem\<rparr>)
             in if error h \<noteq> ERR_NONE \<or> (cond \<and> lr_reservation h \<noteq> phys OR 1) then Some (False, e1)
                else do { e' \<leftarrow> mem_store i phys width x (clear_reservations i phys e1); Some (True, e') })"
proof (cases "translate_for Storing (emu_ram e) (harts e i) addr")
  case None
  then show ?thesis
    using mmu_resolve_ok [OF assms(1,2), of True cond addr] by (simp add: resolve_spec_def mmu_store_def)
next
  case (Some t)
  obtain phys mem h where t: "translate_for Storing (emu_ram e) (harts e i) addr = Some (phys, mem, h)"
    using Some by (cases t) auto
  obtain h1 where h1: "forget h1 = forget h" "mmu_store i addr width x cond e =
      (if error h \<noteq> ERR_NONE then Some (False, set_hart i h1 (e\<lparr>emu_ram := mem\<rparr>))
       else store_at i phys width x cond (set_hart i h1 (e\<lparr>emu_ram := mem\<rparr>)))"
    using mmu_store_at [OF assms t] by blast
  moreover have "lr_reservation h1 = lr_reservation h" using forget_ctx h1(1) by blast
  ultimately show ?thesis by (auto simp: t store_at_def Let_def intro!: exI [of _ h1])
qed

theorem mmu_store_transparent_witness:
  "\<exists>e'. mmu_store 1 0x1002 RV_MEM_SH 0xBEEF False flushed_emu = Some (True, e') \<and> emu_ram e' 0x400 = 0xBEEF0000"
proof -
  have t: "translate_for Storing (\<lambda>_. 0) (harts flushed_emu 1) 0x1002 =
      Some (0x1002, \<lambda>_. 0, (harts flushed_emu 1)\<lparr>exc_val := 0x1002\<rparr>)"
    by (simp add: translate_for_def mmu_translate_def)
  have e: "flushed_emu\<lparr>emu_ram := \<lambda>_. 0\<rparr> = flushed_emu" by (simp add: flushed_emu_def zero_emu_def)
  have w: "ram_write (\<lambda>_. 0) 0x1002 RV_MEM_SH 0xBEEF h = Some ((\<lambda>_. 0)(0x400 := 0xBEEF0000), h)" for h
    by (simp add: ram_write_def RAM_FUNC_def ram_cell_def mask_eq_exp_minus_1)
  show ?thesis
    using mmu_store_transparent [of flushed_emu 1 "0x1002" RV_MEM_SH "0xBEEF" False] flushed_coherent
    by (auto simp: t e w all_coherent_def bus_ram_access clear_reservations_hart Let_def)
qed

text \<open>
  C10: A load by any hart keeps the caches of all harts coherent. The walk may set accessed bits in
  page-table entries that other harts have cached, and those entries stay right.
\<close>

theorem load_keeps_coherence:
  assumes "all_coherent e" "error (harts e i) = ERR_NONE" "host_base e AND 3 = 0"
    and "mmu_load i addr width v reserved e = Some (v', e')"
  shows "all_coherent e'"
proof -
  have coh: "coherent (host_base e) (emu_ram e) (harts e i)" using assms(1) by (simp add: all_coherent_def)
  obtain phys mem h where t: "translate_for Loading (emu_ram e) (harts e i) addr = Some (phys, mem, h)"
    using mmu_resolve_ok [OF coh assms(2), of False reserved addr] assms(4)
    by (auto simp: resolve_spec_def mmu_load_def split: option.splits)
  obtain h1 where h1: "coherent (host_base e) mem h1" "mmu_load i addr width v reserved e =
      (if error h \<noteq> ERR_NONE then Some (v, set_hart i h1 (e\<lparr>emu_ram := mem\<rparr>))
       else load_at i phys width v reserved (set_hart i h1 (e\<lparr>emu_ram := mem\<rparr>)))"
    using mmu_load_at [OF coh assms(2,3) t] by blast
  have c: "all_coherent (set_hart i h1 (e\<lparr>emu_ram := mem\<rparr>))"
    using h1(1) translate_ad [OF t] by (intro all_coherent_step [OF assms(1), of _ i]) auto
  show ?thesis
  proof (cases "error h = ERR_NONE")
    case True
    then show ?thesis
      using load_at_coherent [OF c, of i phys width v reserved v' e'] h1(2) assms(4) by simp
  next
    case False
    then show ?thesis using c h1(2) assms(4) by simp
  qed
qed

theorem load_keeps_coherence_witness:
  "\<exists>v' e'. mmu_load 1 0x1002 RV_MEM_LHU 7 False flushed_emu = Some (v', e') \<and> all_coherent e'"
proof -
  have t: "translate_for Loading (\<lambda>_. 0) (harts flushed_emu 1) 0x1002 =
      Some (0x1002, \<lambda>_. 0, (harts flushed_emu 1)\<lparr>exc_val := 0x1002\<rparr>)"
    by (simp add: translate_for_def mmu_translate_def)
  have coh: "coherent (host_base flushed_emu) (\<lambda>_. 0) (harts flushed_emu 1)"
    using flushed_coherent by (simp add: all_coherent_def)
  obtain r where r: "mmu_load 1 0x1002 RV_MEM_LHU 7 False flushed_emu = Some r"
    using mmu_load_at [of flushed_emu 1 "0x1002" "0x1002" "\<lambda>_. 0" _ RV_MEM_LHU 7 False, unfolded flushed_sel, OF coh _ _ t]
    by (auto simp: load_at_def bus_ram_access ram_read_def RAM_FUNC_def ram_cell_def)
  show ?thesis using load_keeps_coherence [OF flushed_coherent _ _, of 1 "0x1002" RV_MEM_LHU 7 False "fst r" "snd r"] r
    by (intro exI [of _ "fst r"] exI [of _ "snd r"]) simp
qed



lemma unat_drop_mono: "(a :: u32) \<le> b \<Longrightarrow> drop_bit 12 a \<le> drop_bit 12 b"
  by (simp add: word_le_nat_alt unat_drop_bit_eq drop_bit_eq_div unat_div div_le_mono)

lemma in_range_vpn:
  assumes "a \<le> b" "unat b < unat a + unat sz"
  shows "in_vpn_range (drop_bit 12 a) (end_vpn_of a sz) (drop_bit 12 b)"
proof -
  define e where "e = (ucast a + ucast sz - 1 :: u64)"
  define c where "c = (if e > 0xFFFFFFFF then 0xFFFFFFFF else e)"
  have lt: "unat a < 2 ^ 32" "unat sz < 2 ^ 32" "unat b < 2 ^ 32"
    using unsigned_less [of a, where ?'a = nat] unsigned_less [of sz, where ?'a = nat]
      unsigned_less [of b, where ?'a = nat] by simp_all
  have "unat (ucast a + ucast sz :: u64) = unat a + unat sz"
    using lt by (simp add: unat_word_ariths unsigned_ucast_eq take_bit_eq_mod)
  then have e: "unat e = unat a + unat sz - 1"
    unfolding e_def using assms(2) by (subst unat_sub) (simp_all add: word_le_nat_alt)
  have "unat c = min (unat e) 0xFFFFFFFF" unfolding c_def by (auto simp: word_less_nat_alt)
  then have "unat (ucast c :: u32) = min (unat e) 0xFFFFFFFF"
    by (simp add: unsigned_ucast_eq take_bit_eq_mod)
  then have "b \<le> ucast c" using e assms(2) lt(3) by (simp add: word_le_nat_alt)
  moreover have "end_vpn_of a sz = drop_bit 12 (ucast c)"
    by (simp add: end_vpn_of_def c_def e_def Let_def)
  ultimately show ?thesis
    using unat_drop_mono [OF assms(1)] unat_drop_mono [of b "ucast c"] by (simp add: in_vpn_range_def)
qed

text \<open>
  After \<^verbatim>\<open>mmu_invalidate_range\<close> no cache translates an address of the range any more: not the
  two data caches, not the fetch cache, not the instruction cache. The end of the range is computed
  without wrap-around, so a range that reaches past the end of the address space is cut off there.
  The data caches keep exactly the entries outside the range.
\<close>

lemma range_is_invalidated:
  assumes "epochs_ok h" "a \<le> b" "unat b < unat a + unat sz"
  shows "(\<forall>st x. (drop_bit 12 b, x) \<notin> tlb_entries st (mmu_invalidate_range a sz h)) \<and>
    (\<forall>x. (drop_bit 12 b, x) \<notin> fetch_entries (mmu_invalidate_range a sz h)) \<and>
    (\<forall>x. (drop_bit 12 b, x) \<notin> icache_entries (mmu_invalidate_range a sz h)) \<and>
    (\<forall>st v x. sz \<noteq> 0xFFFFFFFF \<and> (v, x) \<in> tlb_entries st h \<and> v \<noteq> NO_PAGE \<and>
       \<not> in_vpn_range (drop_bit 12 a) (end_vpn_of a sz) v \<longrightarrow> (v, x) \<in> tlb_entries st (mmu_invalidate_range a sz h))"
proof (intro conjI allI impI)
  note hit = in_range_vpn [OF assms(2,3)]
  have sz: "sz \<noteq> 0" using assms(2,3) by (auto simp: word_le_nat_alt)
  show "(drop_bit 12 b, x) \<notin> tlb_entries st (mmu_invalidate_range a sz h)" for st x
    using load_tlb.range_flushed [where h = h and x = x] store_tlb.range_flushed [where h = h and x = x] hit vpn_not_empty [of b]
    by (cases st) auto
  show "(drop_bit 12 b, x) \<notin> fetch_entries (mmu_invalidate_range a sz h)" for x
    using fetch_tlb.range_flushed [where h = h and x = x] hit vpn_not_empty [of b] by auto
  show "(drop_bit 12 b, x) \<notin> icache_entries (mmu_invalidate_range a sz h)" for x
    using icache.range_flushed [OF assms(1), where x = x] hit vpn_not_empty [of b] by auto
  show "(v, x) \<in> tlb_entries st (mmu_invalidate_range a sz h)"
    if "sz \<noteq> 0xFFFFFFFF \<and> (v, x) \<in> tlb_entries st h \<and> v \<noteq> NO_PAGE \<and>
      \<not> in_vpn_range (drop_bit 12 a) (end_vpn_of a sz) v" for st v x
    using tlb_entries_range [OF sz, of v x st a h] that by blast
qed

section \<open>Reservations\<close>

lemma fast_write_raises: "fast_write mem lane cell w x h = Some (mem', h') \<Longrightarrow> raises h h'"
  by (auto simp: fast_write_def Let_def split: if_splits bind_splits)

lemma lr_raises: "raises h h' \<Longrightarrow> lr_reservation h' = lr_reservation h"
  by (auto simp: raises_def vm_set_exception_def)

lemma lr_bus: "bus_frame h h' \<Longrightarrow> lr_reservation h' = lr_reservation h"
  unfolding bus_frame_def by (erule ssubst) simp

lemma lr_lookup: "ram_cache_lookup a st h = (r, h') \<Longrightarrow> lr_reservation h' = lr_reservation h"
  using forget_ram_cache [of a st h] forget_ctx(6) [of "snd (ram_cache_lookup a st h)" h] by simp

text \<open>What a store leaves of the reservations.\<close>

lemma do_store_reservations:
  assumes "do_store i host_addr phys w x cond e = Some (True, e')"
  shows "lr_reservation (harts e' j) = lr_reservation (harts (clear_reservations i phys e) j) \<and> n_hart e' = n_hart e"
proof -
  let ?e = "clear_reservations i phys e"
  have ok: "\<not> (cond \<and> lr_reservation (harts e i) \<noteq> phys OR 1)" using assms by (auto simp: do_store_def split: if_splits)
  consider (host) a mem h where "host_addr = Some a" "e' = set_hart i h (?e\<lparr>emu_ram := mem\<rparr>)"
        "ram_write_host_fast (host_base ?e) (emu_ram ?e) a w x (harts ?e i) = Some (mem, h)"
    | (page) p h1 mem h where "ram_cache_lookup phys True (harts ?e i) = (Some p, h1)"
        "ram_write_fast (emu_ram ?e) p phys w x h1 = Some (mem, h)" "e' = set_hart i h (?e\<lparr>emu_ram := mem\<rparr>)"
    | (bus) h1 where "ram_cache_lookup phys True (harts ?e i) = (None, h1)"
        "mem_store i phys w x (set_hart i h1 ?e) = Some e'"
    using assms ok by (auto simp: do_store_def Let_def split: option.splits bind_splits prod.splits)
  then show ?thesis
  proof cases
    case host
    then show ?thesis using lr_raises fast_write_raises by (auto simp: ram_write_host_fast_def)
  next
    case page
    have "raises h1 h" using page(2) fast_write_raises by (simp add: ram_write_fast_def Let_def)
    then have "lr_reservation h = lr_reservation (harts ?e i)" using lr_raises lr_lookup [OF page(1)] by simp
    then show ?thesis using page(3) by simp
  next
    case bus
    have "lr_reservation (harts e' j) = lr_reservation (harts (set_hart i h1 ?e) j)" "n_hart e' = n_hart ?e"
      using mem_store_frame [OF bus(2)] lr_bus by (auto simp: emu_frame_of_def)
    then show ?thesis using lr_lookup [OF bus(1)] by simp
  qed
qed

lemma dropped_reservation:
  assumes "a AND NOT 3 = b AND NOT (3 :: u32)"
  shows "lr_reservation (drop_reservation a h) \<noteq> b OR 1"
proof -
  have 1: "(b OR 1) AND NOT 3 = b AND NOT 3"
    by (rule bit_word_eqI) (auto simp: bit_simps lane_mask)
  have "bit (b OR 1) 0" by (simp add: bit_simps)
  then have "(b OR 1) AND 1 \<noteq> 0" "b OR 1 \<noteq> 0" by (auto simp: and_one_eq odd_iff_mod_2_eq_one bit_0)
  then show ?thesis using assms 1 by (auto simp: drop_reservation_def)
qed



end
