(* ===== verification/Fetch.thy ===== *)
theory Fetch
  imports Access
begin

text \<open>
  Instruction fetch. A fetch is served by the sequential block, the instruction cache, the fetch
  cache or the walk; with coherent caches, and a next sequential address that lies in the
  remembered block, it returns the instruction at the translated address. The fetch that fills the
  caches from a walk does not keep the second condition when the page is not mapped to itself.
\<close>

section \<open>Coherence of the fetch caches\<close>

definition fetch_page :: "ram \<Rightarrow> hart_t \<Rightarrow> u32 \<Rightarrow> u32 \<Rightarrow> bool" where
  "fetch_page mem h vpn ppn \<longleftrightarrow> maps Fetching mem h vpn ppn \<and> ppn < RAM_PAGES"

definition block_offset :: "u32 \<Rightarrow> u32" where
  "block_offset k = push_bit 8 k AND RV_PAGE_MASK"

definition fetch_coherent :: "ram \<Rightarrow> hart_t \<Rightarrow> bool" where
  "fetch_coherent mem h \<longleftrightarrow>
     (\<forall>(v, pa)\<in>fetch_entries h. v \<noteq> NO_PAGE \<longrightarrow> (\<exists>ppn. fetch_page mem h v ppn \<and> pa = Some (push_bit 10 ppn))) \<and>
     (\<forall>(v, k, b)\<in>icache_entries h. \<exists>ppn. fetch_page mem h v ppn \<and> b = Some (push_bit 12 ppn + block_offset k))"

text \<open>The next sequential address, when it would be used for an aligned fetch, lies in the remembered block.\<close>

definition seq_ok :: "hart_t \<Rightarrow> bool" where
  "seq_ok h \<longleftrightarrow>
     (\<forall>b. seq_fetch_next_pc h AND 3 = 0 \<and> seq_fetch_hit h (seq_fetch_next_pc h) = Some b \<longrightarrow>
          icache_idx (seq_fetch_next_pc h) = b)"

lemma icache_idx_less: "icache_idx addr < 256"
  using and_mask_less_2p [of 8 "drop_bit 8 addr"] by (simp add: icache_idx_def mask_eq_exp_minus_1)

lemma fetch_index_less: "fetch_index vpn < 16"
  using and_mask_less_2p [of 4 "vpn XOR drop_bit 4 vpn"] by (simp add: fetch_index_def mask_eq_exp_minus_1)

lemma bit_u32_less: "bit (x :: u32) n \<Longrightarrow> n < 32"
  using bit_imp_le_length [of x n] by simp

lemma drop_bit_eq_0_u32: "32 \<le> n \<Longrightarrow> drop_bit n (x :: u32) = 0"
  by (rule bit_word_eqI) (auto simp: bit_simps dest: bit_u32_less)

lemma low_masks: "(255 :: u32) = mask 8" "(4095 :: u32) = mask 12"
  by (simp_all add: mask_eq_exp_minus_1)

lemma block_of_addr:
  "tag blk = icache_tag addr \<Longrightarrow> icache_vpn (icache_idx addr) blk = drop_bit 12 addr"
  "block_offset (icache_idx addr) = (addr AND RV_PAGE_MASK) AND NOT 0xFF"
proof -
  show "icache_vpn (icache_idx addr) blk = drop_bit 12 addr" if "tag blk = icache_tag addr"
    using that bit_u32_less [of addr] unfolding icache_vpn_def icache_tag_def icache_idx_def low_masks
    by (intro bit_word_eqI) (fastforce simp: bit_simps)
  show "block_offset (icache_idx addr) = (addr AND RV_PAGE_MASK) AND NOT 0xFF"
    unfolding block_offset_def icache_idx_def low_masks by (rule bit_word_eqI) (auto simp: bit_simps)
qed

lemma block_address:
  "push_bit 12 ppn + ((addr AND RV_PAGE_MASK) AND NOT 0xFF) + (addr AND 0xFF) = join_page ppn addr"
proof -
  have "((addr AND mask 12) AND NOT (mask 8)) + ((addr AND mask 12) AND mask 8) = addr AND mask 12"
    by (rule not_mask_add_mask)
  moreover have "(addr AND mask 12) AND mask 8 = addr AND mask 8" by (rule bit_word_eqI) (auto simp: bit_simps)
  ultimately show ?thesis unfolding low_masks join_page_add by (simp add: add.assoc)
qed

lemma code_word_ram:
  assumes "addr AND 3 = 0" "ppn < RAM_PAGES"
  shows "code_word mem (Some (push_bit 12 ppn + ((addr AND RV_PAGE_MASK) AND NOT 0xFF))) (addr AND 0xFF) =
    Some (mem (drop_bit 2 (join_page ppn addr)))"
proof -
  have "join_page ppn addr AND 3 = addr AND 3"
    unfolding join_page_def lane_mask MASK_eq_mask by (rule bit_word_eqI) (auto simp: bit_simps)
  moreover have "ppn < 0x100000" using assms(2) by (simp add: word_less_nat_alt)
  then have "join_page ppn addr < RAM_SIZE" using assms(2) by (simp add: ram_page_iff page_of_join)
  ultimately show ?thesis
    using assms(1) ram_word_index [of "join_page ppn addr"]
    by (simp add: code_word_def block_address [simplified] ram_cell_def)
qed

text \<open>What a fetch from a page returns, and what the caches then hold.\<close>

lemma fetch_ctx_frame:
  assumes "fetch_coherent mem h" "ad_ext mem mem'" "tr_ctx h' = tr_ctx h"
    and "fetch_entries h' \<subseteq> fetch_entries h \<union> F" "icache_entries h' \<subseteq> icache_entries h \<union> I"
    and "\<And>v pa. (v, pa) \<in> F \<Longrightarrow> \<exists>ppn. fetch_page mem' h v ppn \<and> pa = Some (push_bit 10 ppn)"
    and "\<And>v k b. (v, k, b) \<in> I \<Longrightarrow> \<exists>ppn. fetch_page mem' h v ppn \<and> b = Some (push_bit 12 ppn + block_offset k)"
  shows "fetch_coherent mem' h'"
proof -
  have up: "fetch_page mem' h' v ppn" if "fetch_page mem h v ppn \<or> fetch_page mem' h v ppn" for v ppn
    using that maps_ad [OF _ assms(2,3)] maps_ad [OF _ ad_ext_refl assms(3)] by (auto simp: fetch_page_def)
  have "\<exists>ppn. fetch_page mem' h' v ppn \<and> pa = Some (push_bit 10 ppn)"
    if "(v, pa) \<in> fetch_entries h'" "v \<noteq> NO_PAGE" for v pa
    using that assms(1,4,6) up unfolding fetch_coherent_def by blast
  moreover have "\<exists>ppn. fetch_page mem' h' v ppn \<and> b = Some (push_bit 12 ppn + block_offset k)"
    if "(v, k, b) \<in> icache_entries h'" for v k b
    using that assms(1,5,7) up unfolding fetch_coherent_def by blast
  ultimately show ?thesis unfolding fetch_coherent_def by blast
qed

lemma fetch_hit_page:
  assumes "fetch_coherent mem h" "icache_block_valid h (icache h (icache_idx addr))"
    and "tag (icache h (icache_idx addr)) = icache_tag addr"
  shows "\<exists>ppn. fetch_page mem h (drop_bit 12 addr) ppn \<and>
    base (icache h (icache_idx addr)) = Some (push_bit 12 ppn + ((addr AND RV_PAGE_MASK) AND NOT 0xFF))"
proof -
  have "(drop_bit 12 addr, icache_idx addr, base (icache h (icache_idx addr))) \<in> icache_entries h"
    using assms(2) icache_idx_less [of addr] block_of_addr(1) [OF assms(3)] by (force simp: icache_entries_def)
  then show ?thesis using assms(1) block_of_addr(2) [of addr] unfolding fetch_coherent_def by fastforce
qed

lemma fetch_tlb_page:
  assumes "fetch_coherent mem h" "fc_n_pages (cache_fetch h (fetch_index (drop_bit 12 addr))) = drop_bit 12 addr"
  shows "\<exists>ppn. fetch_page mem h (drop_bit 12 addr) ppn \<and>
    fc_page_addr (cache_fetch h (fetch_index (drop_bit 12 addr))) = Some (push_bit 10 ppn)"
proof -
  have "(drop_bit 12 addr, fc_page_addr (cache_fetch h (fetch_index (drop_bit 12 addr)))) \<in> fetch_entries h"
    using assms(2) fetch_index_less [of "drop_bit 12 addr"] by (force simp: fetch_entries_def)
  then show ?thesis using assms(1) vpn_not_empty [of addr] unfolding fetch_coherent_def by blast
qed

lemma seq_ok_next:
  assumes "addr AND 3 = 0" "seq_fetch_block h = Some (icache_idx addr)" "seq_fetch_next_pc h = next_seq addr"
  shows "seq_ok h"
proof (cases "(addr AND 0xFF) + 4 < 256")
  case True
  have "(255 :: u32) = mask 8" by (simp add: mask_eq_exp_minus_1)
  moreover have "unat (addr AND 255) + unat (4 :: u32) < 2 ^ 8"
  proof -
    have "unat (addr AND 255) < 256"
      using and_mask_less_2p [of 8 addr] by (simp add: word_less_nat_alt mask_eq_exp_minus_1)
    then show ?thesis using True by (simp add: word_less_nat_alt unat_word_ariths)
  qed
  ultimately have "drop_bit 8 (addr + 4) = drop_bit 8 addr" using frame_add_small(1) [of addr 8 4] by simp
  then show ?thesis
    using assms True by (auto simp: seq_ok_def next_seq_def icache_idx_def seq_fetch_hit_def split: if_splits)
next
  case False
  then show ?thesis using assms by (simp add: seq_ok_def next_seq_def)
qed

definition fetched :: "ram \<Rightarrow> hart_t \<Rightarrow> u32 \<Rightarrow> u32 \<Rightarrow> u32 \<Rightarrow> hart_t \<Rightarrow> bool" where
  "fetched mem h addr phys w h1 \<longleftrightarrow> w = mem (drop_bit 2 phys) \<and>
     forget (h1\<lparr>exc_val := addr\<rparr>) = forget (h\<lparr>exc_val := addr\<rparr>) \<and> fetch_coherent mem h1 \<and> (phys = addr \<longrightarrow> seq_ok h1)"

lemma seq_fields_entries [simp]:
  "fetch_entries (h\<lparr>seq_fetch_block := b\<rparr>) = fetch_entries h"
  "fetch_entries (h\<lparr>seq_fetch_next_pc := n\<rparr>) = fetch_entries h"
  "icache_entries (h\<lparr>seq_fetch_block := b\<rparr>) = icache_entries h"
  "icache_entries (h\<lparr>seq_fetch_next_pc := n\<rparr>) = icache_entries h"
  "tr_ctx (h\<lparr>seq_fetch_block := b\<rparr>) = tr_ctx h" "tr_ctx (h\<lparr>seq_fetch_next_pc := n\<rparr>) = tr_ctx h"
  "fetch_entries (h\<lparr>icache := ic\<rparr>) = fetch_entries h" "tr_ctx (h\<lparr>icache := ic\<rparr>) = tr_ctx h"
  "icache_entries (h\<lparr>cache_fetch := cf\<rparr>) = icache_entries h" "tr_ctx (h\<lparr>cache_fetch := cf\<rparr>) = tr_ctx h"
  "fetch_entries (h\<lparr>exc_val := n\<rparr>) = fetch_entries h" "icache_entries (h\<lparr>exc_val := n\<rparr>) = icache_entries h"
  by (simp_all add: fetch_entries_def icache_entries_def icache_block_valid_def tr_ctx_def)

text \<open>Hits in the sequential block and in the instruction cache.\<close>

lemma block_hit_fetched:
  assumes coh: "fetch_coherent mem h" and al: "addr AND 3 = 0"
    and valid: "icache_block_valid h (icache h (icache_idx addr))" "tag (icache h (icache_idx addr)) = icache_tag addr"
    and h1: "h1 = h\<lparr>seq_fetch_block := Some (icache_idx addr), seq_fetch_next_pc := next_seq addr\<rparr>"
  shows "\<exists>ppn w. fetch_page mem h (drop_bit 12 addr) ppn \<and>
    code_word mem (base (icache h (icache_idx addr))) (addr AND 0xFF) = Some w \<and>
    fetched mem h addr (join_page ppn addr) w h1"
proof -
  obtain ppn where ppn: "fetch_page mem h (drop_bit 12 addr) ppn"
    "base (icache h (icache_idx addr)) = Some (push_bit 12 ppn + ((addr AND RV_PAGE_MASK) AND NOT 0xFF))"
    using fetch_hit_page [OF coh valid] by blast
  have "seq_ok h1" using al by (rule seq_ok_next) (simp_all add: h1)
  moreover have "fetch_coherent mem h1"
    using fetch_ctx_frame [OF coh ad_ext_refl, of h1 "{}" "{}"] by (simp add: h1)
  moreover have "forget (h1\<lparr>exc_val := addr\<rparr>) = forget (h\<lparr>exc_val := addr\<rparr>)" by (simp add: h1 forget_def)
  ultimately show ?thesis
    using ppn code_word_ram [OF al, of ppn mem] by (auto simp: fetched_def fetch_page_def)
qed

text \<open>A block filled from the fetch cache.\<close>

lemma fetch_fill_fetched:
  assumes coh: "fetch_coherent mem h" and al: "addr AND 3 = 0" and ppn: "fetch_page mem h (drop_bit 12 addr) ppn"
    and page: "fc_page_addr (cache_fetch h index) = Some (push_bit 10 ppn)"
    and a: "a = addr \<or> a = join_page ppn addr"
  shows "\<exists>w h1. fetch_fill mem index (icache_idx addr) (icache_tag addr) a h = Some (w, h1) \<and>
    fetched mem h addr (join_page ppn addr) w h1"
proof -
  have low: "a AND 4095 = addr AND 4095" "a AND 255 = addr AND 255"
    using a unfolding join_page_def low_masks MASK_eq_mask
    by (auto intro!: bit_word_eqI simp: bit_simps)
  let ?b = "Some (push_bit 12 ppn + ((addr AND RV_PAGE_MASK) AND NOT 0xFF))"
  let ?blk = "\<lparr>tag = icache_tag addr, epoch = icache_epoch h, base = ?b, valid = True\<rparr>"
  let ?h1 = "h\<lparr>icache := (icache h)(icache_idx addr := ?blk), seq_fetch_block := Some (icache_idx addr),
    seq_fetch_next_pc := next_seq a\<rparr>"
  have "push_bit 2 (push_bit 10 ppn) = push_bit 12 ppn" by simp
  then have fill: "fetch_fill mem index (icache_idx addr) (icache_tag addr) a h =
      Some (mem (drop_bit 2 (join_page ppn addr)), ?h1)"
    using code_word_ram [OF al, of ppn mem] ppn
    by (simp add: fetch_fill_def Let_def page low fetch_page_def)
  have "icache_entries ?h1 \<subseteq> icache_entries h \<union> {(drop_bit 12 addr, icache_idx addr, ?b)}"
    using block_of_addr(1) [of ?blk addr] by (auto simp: icache_entries_def icache_block_valid_def split: if_splits)
  then have "fetch_coherent mem ?h1"
    using ppn block_of_addr(2) [of addr] by (intro fetch_ctx_frame [OF coh ad_ext_refl, where F = "{}" and I = "{(drop_bit 12 addr, icache_idx addr, ?b)}"]) auto
  moreover have "seq_ok ?h1" if "join_page ppn addr = addr"
    using al by (rule seq_ok_next) (use a that in auto)
  ultimately show ?thesis unfolding fill fetched_def by (simp add: forget_def)
qed

lemma icache_vpn_small: "icache_vpn k blk \<noteq> NO_PAGE"
proof -
  have "icache_vpn k blk < 2 ^ 28"
    by (subst word_less_2p_iff_drop_bit) (simp_all add: icache_vpn_def drop_bit_drop_bit drop_bit_eq_0_u32)
  then show ?thesis by auto
qed

lemma icache_entries_invalidate: "epochs_ok h \<Longrightarrow> icache_entries (mmu_invalidate h) = {}"
  using icache.entries_invalidate [where h = h] icache_vpn_small by (fastforce simp: icache_entries_def)

lemma fetch_coherent_empty:
  "(\<And>v pa. (v, pa) \<in> fetch_entries h \<Longrightarrow> v = NO_PAGE) \<Longrightarrow> icache_entries h = {} \<Longrightarrow> fetch_coherent mem h"
  by (auto simp: fetch_coherent_def)

lemma fetch_coherent_invalidate:
  assumes "epochs_ok h"
  shows "fetch_coherent mem (mmu_invalidate h)" "seq_ok (mmu_invalidate h)"
proof -
  show "fetch_coherent mem (mmu_invalidate h)"
    using fetch_tlb.entries_invalidate [where h = h] icache_entries_invalidate [OF assms]
    by (intro fetch_coherent_empty) auto
  show "seq_ok (mmu_invalidate h)"
    by (simp add: seq_ok_def seq_fetch_hit_def mmu_invalidate_def Let_def invalidate_icache_all)
qed

section \<open>Properties\<close>

lemma fetch_page_translate:
  "fetch_page mem h (drop_bit 12 addr) ppn \<Longrightarrow>
     translate_for Fetching mem h addr = Some (join_page ppn addr, mem, h\<lparr>exc_val := addr\<rparr>) \<and> join_page ppn addr < RAM_SIZE"
  using translate_maps [of Fetching mem h addr ppn] maps_small [of Fetching mem h "drop_bit 12 addr" ppn]
  by (simp add: fetch_page_def ram_page_iff page_of_join)

text \<open>The result of a fetch, given the walk.\<close>

definition fetch_result :: "u32 \<Rightarrow> u32 \<Rightarrow> u32 \<Rightarrow> emu_state_t \<Rightarrow> bool" where
  "fetch_result i addr v e \<longleftrightarrow>
     (case translate_for Fetching (emu_ram e) (harts e i) addr of
        None \<Rightarrow> mmu_fetch i addr v e = None
      | Some (phys, mem, h) \<Rightarrow>
          if error h \<noteq> ERR_NONE then mmu_fetch i addr v e = Some (v, set_hart i h (e\<lparr>emu_ram := mem\<rparr>))
          else if phys \<ge> RAM_SIZE
          then mmu_fetch i addr v e =
                 Some (v, set_hart i (vm_set_exception RV_EXC_FETCH_FAULT addr h) (e\<lparr>emu_ram := mem\<rparr>))
          else \<exists>h1. mmu_fetch i addr v e = Some (mem (drop_bit 2 phys), set_hart i h1 (e\<lparr>emu_ram := mem\<rparr>)) \<and>
                 forget (h1\<lparr>exc_val := addr\<rparr>) = forget h \<and> fetch_coherent mem h1 \<and> (phys = addr \<longrightarrow> seq_ok h1))"

lemma fetch_miss:
  assumes coh: "fetch_coherent (emu_ram e) (harts e i)" and err: "error (harts e i) = ERR_NONE" and al: "addr AND 3 = 0"
    and miss: "seq_fetch_hit (harts e i) addr = None"
      "\<not> (icache_block_valid (harts e i) (icache (harts e i) (icache_idx addr)) \<and>
          tag (icache (harts e i) (icache_idx addr)) = icache_tag addr)"
      "fc_n_pages (cache_fetch (harts e i) (fetch_index (drop_bit 12 addr))) \<noteq> drop_bit 12 addr"
  shows "fetch_result i addr v e"
proof (cases "translate_for Fetching (emu_ram e) (harts e i) addr")
  case None
  then show ?thesis using miss by (auto simp: fetch_result_def mmu_fetch_def Let_def)
next
  case (Some t)
  obtain phys mem h where t: "translate_for Fetching (emu_ram e) (harts e i) addr = Some (phys, mem, h)"
    using Some by (cases t) auto
  from t show ?thesis
  proof (cases rule: translate_cases)
    case (1 c)
    then show ?thesis using t miss by (auto simp: fetch_result_def mmu_fetch_def Let_def)
  next
    case (2 ppn)
    let ?vpn = "drop_bit 12 addr" and ?index = "fetch_index (drop_bit 12 addr)"
    have np: "drop_bit 12 phys = ppn" using 2 page_of_join [OF maps_small [OF 2(4)]] by simp
    show ?thesis
    proof (cases "ppn < RAM_PAGES")
      case False
      then have "\<not> phys < RAM_SIZE" using np ram_page_iff [of phys] by simp
      then show ?thesis
        using t miss 2(1) err np False
        by (auto simp: fetch_result_def mmu_fetch_def mem_fetch_def Let_def not_less)
    next
      case True
      then have ram: "\<not> RAM_SIZE \<le> phys" using np ram_page_iff [of phys] by (simp add: not_le)
      let ?h = "h\<lparr>cache_fetch := (cache_fetch h)(?index := \<lparr>fc_n_pages = ?vpn, fc_page_addr = Some (push_bit 10 ppn)\<rparr>)\<rparr>"
      have page: "fetch_page mem (harts e i) ?vpn ppn" using 2(4) True by (simp add: fetch_page_def)
      have "fetch_entries ?h \<subseteq> fetch_entries (harts e i) \<union> {(?vpn, Some (push_bit 10 ppn))}"
        using 2(1) by (auto simp: fetch_entries_def)
      then have coh': "fetch_coherent mem ?h"
        using page 2(1) by (intro fetch_ctx_frame [OF coh 2(2), where F = "{(?vpn, Some (push_bit 10 ppn))}" and I = "{}"]) auto
      have "fetch_page mem ?h ?vpn ppn"
        using page maps_ad [OF _ ad_ext_refl, of Fetching mem "harts e i" ?vpn ppn ?h] 2(1) by (simp add: fetch_page_def)
      then obtain w h1 where w: "fetch_fill mem ?index (icache_idx addr) (icache_tag addr) phys ?h = Some (w, h1)"
        "fetched mem ?h addr phys w h1"
        using fetch_fill_fetched [OF coh' al, of ppn ?index phys] 2(3) by auto
      have "forget (h1\<lparr>exc_val := addr\<rparr>) = forget h"
        using w(2) 2(1) by (simp add: fetched_def) (simp add: forget_def)
      then show ?thesis
        using t miss 2(1) err np True ram w by (auto simp: fetch_result_def mmu_fetch_def mem_fetch_def Let_def fetched_def)
    qed
  qed
qed



text \<open>
  A machine for the next property: two pages of code, at virtual 0x10000 and 0x11000, in physical
  pages 0x11 and 0x12; the caches of the hart are empty.
\<close>

definition two_pages_ram :: ram where
  "two_pages_ram = (\<lambda>_. 0)(0x400 := 0x801, 0x810 := 0x444B, 0x811 := 0x484B,
     0x4400 := 0x0040106F, 0x4401 := 0x00100073, 0x4801 := 0x00000013)"

definition two_pages_emu :: emu_state_t where
  "two_pages_emu = flushed_emu\<lparr>emu_ram := two_pages_ram,
     harts := (\<lambda>i. (harts flushed_emu i)\<lparr>page_table := Some 0x400, s_mode := True\<rparr>)\<rparr>"

lemma two_pages_sel:
  "harts two_pages_emu 0 = (harts flushed_emu 0)\<lparr>page_table := Some 0x400, s_mode := True\<rparr>"
  "emu_ram two_pages_emu = two_pages_ram"
  by (simp_all add: two_pages_emu_def)

lemma flushed_fetch:
  "\<not> valid (icache (harts flushed_emu i) k)" "k < 16 \<Longrightarrow> fc_n_pages (cache_fetch (harts flushed_emu i) k) = NO_PAGE"
  "seq_fetch_block (harts flushed_emu i) = None" "icache_epoch (harts flushed_emu i) = 1"
  by (simp_all add: flushed_emu_def zero_emu_def zero_hart_def zero_block_def invalidate_fields invalidate_icache_all)
    (simp add: mmu_invalidate_def Let_def invalidate_icache_all)

lemma two_pages_ram_same: "two_pages_emu\<lparr>emu_ram := two_pages_ram\<rparr> = two_pages_emu"
  by (simp add: two_pages_emu_def)

lemma two_pages_coherent:
  "fetch_coherent two_pages_ram (harts two_pages_emu 0)" "seq_ok (harts two_pages_emu 0)"
  by (auto simp: flushed_fetch two_pages_sel fetch_coherent_def fetch_entries_def icache_entries_def icache_block_valid_def
      seq_ok_def seq_fetch_hit_def)

lemma two_pages_translate:
  assumes "tr_ctx h = (Some 0x400, True, b, c)"
  shows "translate_for Fetching two_pages_ram h 0x10000 = Some (0x11000, two_pages_ram, h\<lparr>exc_val := 0x10000\<rparr>)"
    "translate_for Fetching two_pages_ram h 0x11004 = Some (0x12004, two_pages_ram, h\<lparr>exc_val := 0x11004\<rparr>)"
  using assms
  by (simp_all add: tr_ctx_def translate_for_def mmu_translate_def mmu_lookup_def ram_cell_def two_pages_ram_def
      pte_kind_def mem_page_table_def mask_eq_exp_minus_1 Let_def)

text \<open>
  The next sequential address is computed from the physical address when a fetch misses the
  caches, but it is compared with virtual addresses. In a machine with coherent caches, after the
  fetch of virtual 0x10000 a jump to virtual 0x11004 fetches the word at physical 0x11004, and not
  the instruction that is mapped there, at physical 0x12004.
\<close>

theorem sequential_fetch_uses_physical:
  "\<exists>e1 e2. mmu_fetch 0 0x10000 0 two_pages_emu = Some (0x0040106F, e1) \<and>
     mmu_fetch 0 0x11004 0 e1 = Some (0x00100073, e2) \<and>
     (\<exists>h. translate_for Fetching (emu_ram e1) (harts e1 0) 0x11004 = Some (0x12004, emu_ram e1, h)) \<and>
     emu_ram e1 (drop_bit 2 0x12004) = 0x00000013 \<and>
     fetch_coherent (emu_ram two_pages_emu) (harts two_pages_emu 0) \<and> seq_ok (harts two_pages_emu 0)"
proof -
  let ?h = "harts two_pages_emu 0"
  have ctx: "tr_ctx ?h = (Some 0x400, True, sstatus_sum ?h, sstatus_mxr ?h)" by (simp add: tr_ctx_def two_pages_sel)
  have err: "error ?h = ERR_NONE" by (simp add: two_pages_sel)
  let ?blk = "\<lparr>tag = 1, epoch = 1, base = Some 0x11000, valid = True\<rparr>"
  let ?h1 = "?h\<lparr>exc_val := 0x10000,
     cache_fetch := (cache_fetch ?h)(1 := \<lparr>fc_n_pages = 0x10, fc_page_addr = Some 0x4400\<rparr>),
     icache := (icache ?h)(0 := ?blk), seq_fetch_block := Some 0, seq_fetch_next_pc := 0x11004\<rparr>"
  let ?e1 = "set_hart 0 ?h1 two_pages_emu"
  have "seq_fetch_hit ?h 0x10000 = None" "\<not> icache_block_valid ?h (icache ?h 0)"
    "fc_n_pages (cache_fetch ?h 1) \<noteq> 0x10"
    by (simp_all add: two_pages_sel seq_fetch_hit_def icache_block_valid_def flushed_fetch)
  moreover have "fetch_index 0x10 = 1" "icache_idx 0x10000 = 0" "icache_tag 0x10000 = 1" "next_seq 0x11000 = 0x11004"
    by (simp_all add: fetch_index_def icache_idx_def icache_tag_def next_seq_def)
  ultimately have f1: "mmu_fetch 0 0x10000 0 two_pages_emu = Some (0x0040106F, ?e1)"
    using two_pages_translate(1) [OF ctx] err
    by (simp add: mmu_fetch_def two_pages_sel two_pages_ram_same Let_def mem_fetch_def fetch_fill_def code_word_def
        ram_cell_def flushed_fetch) (simp add: two_pages_ram_def)
  have hit: "seq_fetch_hit ?h1 0x11004 = Some 0"
    by (simp add: seq_fetch_hit_def icache_block_valid_def icache_tag_def two_pages_sel flushed_fetch)
  have f2: "mmu_fetch 0 0x11004 0 ?e1 =
      Some (0x00100073, set_hart 0 (?h1\<lparr>seq_fetch_next_pc := next_seq 0x11004\<rparr>) ?e1)"
    using hit by (simp add: mmu_fetch_def code_word_def ram_cell_def two_pages_sel) (simp add: two_pages_ram_def)
  have "translate_for Fetching two_pages_ram ?h1 0x11004 = Some (0x12004, two_pages_ram, ?h1\<lparr>exc_val := 0x11004\<rparr>)"
    using ctx by (intro two_pages_translate(2)) simp
  then show ?thesis
    using f1 f2 two_pages_coherent by (intro exI [of _ ?e1] exI conjI) (simp_all add: two_pages_sel two_pages_ram_def)
qed

end
