(* ===== verification/Csr.thy ===== *)
theory Csr
  imports Fetch Decode
begin

text \<open>
  Traps, the privileged instructions and the control and status registers of \<^verbatim>\<open>src/riscv.c\<close>, with
  the callback for \<^verbatim>\<open>WFI\<close> of \<^verbatim>\<open>src/main.c\<close>. The registers keep the translation caches coherent:
  every change of what a translation depends on goes with an invalidation.
\<close>

section \<open>Traps\<close>

definition hart_trap :: "hart_t \<Rightarrow> hart_t" where
  "hart_trap h =
     (let h = h\<lparr>scause := exc_cause h, stval := exc_val h\<rparr>;
          h = h\<lparr>sstatus_spie := sstatus_sie h, sstatus_spp := s_mode h, sepc := current_pc h\<rparr>;
          h = h\<lparr>sstatus_sie := False\<rparr>;
          h = (if \<not> s_mode h then mmu_invalidate h else h);
          h = h\<lparr>s_mode := True, pc := stvec_addr h\<rparr>;
          h = (if stvec_vectored h then h\<lparr>pc := pc h + (scause h AND MASK 31) * 4\<rparr> else h)
      in h\<lparr>error := ERR_NONE\<rparr>)"

definition op_sret :: "clock_t \<Rightarrow> hart_t \<Rightarrow> clock_t \<times> hart_t" where
  "op_sret c h =
     (let h = h\<lparr>pc := sepc h\<rparr>;
          h = (if s_mode h \<noteq> sstatus_spp h then mmu_invalidate h else h);
          h = h\<lparr>s_mode := sstatus_spp h, sstatus_sie := sstatus_spie h\<rparr>;
          c = (if \<not> boot_complete c \<and> \<not> s_mode h then c\<lparr>boot_complete := True\<rparr> else c)
      in (c, h\<lparr>sstatus_spp := False, sstatus_spie := True\<rparr>))"

text \<open>
  A \<^verbatim>\<open>WFI\<close> that has to wait suspends the coroutine in the middle of the instruction. The first
  component of the result says that the hart has suspended: what the caller does after the call
  happens when the scheduler resumes the hart, and starts from the state of that moment.
\<close>

definition wfi_handler :: "u32 \<Rightarrow> emu_state_t \<Rightarrow> bool \<times> emu_state_t" where
  "wfi_handler i e =
     (let h = harts e i
      in if sip h AND sie h = 0 then
           if n_hart e > 1 then (True, set_hart i (h\<lparr>in_wfi := True\<rparr>) e) else (False, e)
         else (False, set_hart i (h\<lparr>in_wfi := False\<rparr>) e))"

definition op_privileged :: "u32 \<Rightarrow> u32 \<Rightarrow> emu_state_t \<Rightarrow> bool \<times> emu_state_t" where
  "op_privileged i insn e =
     (let h = harts e i; put = (\<lambda>h. (False, set_hart i h e)); op = decode_i_unsigned insn
      in if drop_bit 25 insn = 0b0001001 then put (mmu_fence insn h)
         else if insn AND (push_bit 7 (MASK 5) OR push_bit 15 (MASK 5)) \<noteq> 0
         then put (vm_set_exception RV_EXC_ILLEGAL_INSN 0 h)
         else if op = 0b000000000001 then put (vm_set_exception RV_EXC_BREAKPOINT (current_pc h) h)
         else if op = 0b000000000000
         then put (vm_set_exception (if s_mode h then RV_EXC_ECALL_S else RV_EXC_ECALL_U) 0 h)
         else if op = 0b000100000010 then
           let (c, h) = op_sret (clk e) h in (False, set_hart i h (e\<lparr>clk := c\<rparr>))
         else if op = 0b000100000101 then wfi_handler i e
         else put (vm_set_exception RV_EXC_ILLEGAL_INSN 0 h))"

section \<open>Control and status registers\<close>

abbreviation (input) SIE_MASK :: u32 where "SIE_MASK \<equiv> RV_INT_SEI_BIT OR RV_INT_STI_BIT OR RV_INT_SSI_BIT"
abbreviation (input) SIP_MASK :: u32 where "SIP_MASK \<equiv> RV_INT_SSI_BIT"

definition sstatus_value :: "hart_t \<Rightarrow> u32" where
  "sstatus_value h =
     (if sstatus_sie h then push_bit 1 1 else 0) OR (if sstatus_spie h then push_bit 5 1 else 0) OR
     (if sstatus_spp h then push_bit 8 1 else 0) OR (if sstatus_sum h then push_bit 18 1 else 0) OR
     (if sstatus_mxr h then push_bit 19 1 else 0)"

definition csr_read :: "u16 \<Rightarrow> u32 \<Rightarrow> clock_t \<Rightarrow> hart_t \<Rightarrow> u32 \<times> clock_t \<times> hart_t" where
  "csr_read addr value c h =
     (if addr = RV_CSR_TIME then
        let (t, c) = semu_timer_get (time h) c in (ucast t, c, h)
      else if addr = RV_CSR_TIMEH then
        let (t, c) = semu_timer_get (time h) c in (ucast (drop_bit 32 t), c, h)
      else if addr = RV_CSR_INSTRET then (ucast (instret h), c, h)
      else if addr = RV_CSR_INSTRETH then (ucast (drop_bit 32 (instret h)), c, h)
      else if \<not> s_mode h then (value, c, vm_set_exception RV_EXC_ILLEGAL_INSN 0 h)
      else if addr = RV_CSR_SSTATUS then (sstatus_value h, c, h)
      else if addr = RV_CSR_SIE then (sie h, c, h)
      else if addr = RV_CSR_SIP then (sip h, c, h)
      else if addr = RV_CSR_STVEC then
        (stvec_addr h OR (if stvec_vectored h then push_bit 0 1 else 0), c, h)
      else if addr = RV_CSR_SATP then (satp h, c, h)
      else if addr = RV_CSR_SCOUNTEREN then (scounteren h, c, h)
      else if addr = RV_CSR_SSCRATCH then (sscratch h, c, h)
      else if addr = RV_CSR_SEPC then (sepc h, c, h)
      else if addr = RV_CSR_SCAUSE then (scause h, c, h)
      else if addr = RV_CSR_STVAL then (stval h, c, h)
      else (value, c, vm_set_exception RV_EXC_ILLEGAL_INSN 0 h))"

definition csr_write :: "u16 \<Rightarrow> u32 \<Rightarrow> hart_t \<Rightarrow> hart_t" where
  "csr_write addr value h =
     (if \<not> s_mode h then vm_set_exception RV_EXC_ILLEGAL_INSN 0 h
      else if addr = RV_CSR_SSTATUS then
        let old_sum = sstatus_sum h; old_mxr = sstatus_mxr h;
            h = h\<lparr>sstatus_sie := value AND push_bit 1 1 \<noteq> 0, sstatus_spie := value AND push_bit 5 1 \<noteq> 0,
                  sstatus_spp := value AND push_bit 8 1 \<noteq> 0, sstatus_sum := value AND push_bit 18 1 \<noteq> 0,
                  sstatus_mxr := value AND push_bit 19 1 \<noteq> 0\<rparr>
        in if sstatus_sum h \<noteq> old_sum \<or> sstatus_mxr h \<noteq> old_mxr then mmu_invalidate h else h
      else if addr = RV_CSR_SIE then h\<lparr>sie := value AND SIE_MASK\<rparr>
      else if addr = RV_CSR_SIP then h\<lparr>sip := (value AND SIP_MASK) OR (sip h AND NOT SIP_MASK)\<rparr>
      else if addr = RV_CSR_STVEC then
        h\<lparr>stvec_addr := value AND NOT 0b11, stvec_vectored := value AND push_bit 0 1 \<noteq> 0\<rparr>
      else if addr = RV_CSR_SATP then mmu_set value h
      else if addr = RV_CSR_SCOUNTEREN then h\<lparr>scounteren := value\<rparr>
      else if addr = RV_CSR_SSCRATCH then h\<lparr>sscratch := value\<rparr>
      else if addr = RV_CSR_SEPC then h\<lparr>sepc := value\<rparr>
      else if addr = RV_CSR_SCAUSE then h\<lparr>scause := value\<rparr>
      else if addr = RV_CSR_STVAL then h\<lparr>stval := value\<rparr>
      else vm_set_exception RV_EXC_ILLEGAL_INSN 0 h)"

text \<open>
  The local \<^verbatim>\<open>value\<close> is not initialised; it is used only after a \<^verbatim>\<open>csr_read\<close> that has set it, so
  the 0 passed here is never seen.
\<close>

definition op_csr_rw :: "u8 \<Rightarrow> u16 \<Rightarrow> u32 \<Rightarrow> clock_t \<Rightarrow> hart_t \<Rightarrow> clock_t \<times> hart_t" where
  "op_csr_rw rd csr wvalue c h =
     (if rd \<noteq> 0 then
        let (value, c, h) = csr_read csr 0 c h
        in if error h \<noteq> ERR_NONE then (c, h) else (c, csr_write csr wvalue (set_dest_idx rd value h))
      else (c, csr_write csr wvalue h))"

definition op_csr_cs ::
  "u8 \<Rightarrow> u8 \<Rightarrow> u16 \<Rightarrow> u32 \<Rightarrow> u32 \<Rightarrow> clock_t \<Rightarrow> hart_t \<Rightarrow> clock_t \<times> hart_t" where
  "op_csr_cs rd rs1 csr setmask clearmask c h =
     (let (value, c, h) = csr_read csr 0 c h
      in if error h \<noteq> ERR_NONE then (c, h)
         else
           let h = set_dest_idx rd value h
           in (c, if rs1 \<noteq> 0 then csr_write csr ((value AND NOT clearmask) OR setmask) h else h))"

definition op_system :: "u32 \<Rightarrow> decoded_insn_t \<Rightarrow> emu_state_t \<Rightarrow> bool \<times> emu_state_t" where
  "op_system i d e =
     (let h = harts e i; funct3 = decoded_funct3 d; rd = decoded_rd d; rs1 = decoded_rs1 d;
          csr = (ucast (d_imm d) :: u16); x = x_regs h rs1; imm = (ucast rs1 :: u32);
          put = (\<lambda>(c, h). (False, set_hart i h (e\<lparr>clk := c\<rparr>)))
      in if funct3 = 0b001 then put (op_csr_rw rd csr x (clk e) h)
         else if funct3 = 0b101 then put (op_csr_rw rd csr imm (clk e) h)
         else if funct3 = 0b010 then put (op_csr_cs rd rs1 csr x 0 (clk e) h)
         else if funct3 = 0b110 then put (op_csr_cs rd rs1 csr imm 0 (clk e) h)
         else if funct3 = 0b011 then put (op_csr_cs rd rs1 csr 0 x (clk e) h)
         else if funct3 = 0b111 then put (op_csr_cs rd rs1 csr 0 imm (clk e) h)
         else if funct3 = 0b000 then
           op_privileged i
             (push_bit 25 (ucast (decoded_funct7 d)) OR push_bit 20 (ucast (decoded_rs2 d)) OR
              push_bit 15 (ucast rs1) OR push_bit 12 (ucast funct3) OR push_bit 7 (ucast rd) OR
              ucast (decoded_opcode d)) e
         else put (clk e, vm_set_exception RV_EXC_ILLEGAL_INSN 0 h))"

section \<open>What an invalidation leaves alone\<close>

lemma invalidate_keeps [simp]:
  "x_regs (mmu_invalidate h) = x_regs h" "pc (mmu_invalidate h) = pc h"
  "current_pc (mmu_invalidate h) = current_pc h" "instret (mmu_invalidate h) = instret h"
  "error (mmu_invalidate h) = error h" "exc_cause (mmu_invalidate h) = exc_cause h"
  "exc_val (mmu_invalidate h) = exc_val h" "lr_reservation (mmu_invalidate h) = lr_reservation h"
  "sstatus_sie (mmu_invalidate h) = sstatus_sie h" "sie (mmu_invalidate h) = sie h"
  "sip (mmu_invalidate h) = sip h" "time (mmu_invalidate h) = time h"
  "sstatus_spp (mmu_invalidate h) = sstatus_spp h" "sstatus_spie (mmu_invalidate h) = sstatus_spie h"
  "sepc (mmu_invalidate h) = sepc h" "in_wfi (mmu_invalidate h) = in_wfi h"
  "scause (mmu_invalidate h) = scause h" "stval (mmu_invalidate h) = stval h"
  "stvec_addr (mmu_invalidate h) = stvec_addr h" "stvec_vectored (mmu_invalidate h) = stvec_vectored h"
  "sscratch (mmu_invalidate h) = sscratch h" "scounteren (mmu_invalidate h) = scounteren h"
  "satp (mmu_invalidate h) = satp h" "mhartid (mmu_invalidate h) = mhartid h"
  "hsm_status (mmu_invalidate h) = hsm_status h" "sstatus_sum (mmu_invalidate h) = sstatus_sum h"
  "sstatus_mxr (mmu_invalidate h) = sstatus_mxr h" "hsm_resume_is_ret (mmu_invalidate h) = hsm_resume_is_ret h"
  "hsm_resume_pc (mmu_invalidate h) = hsm_resume_pc h" "hsm_resume_opaque (mmu_invalidate h) = hsm_resume_opaque h"
  by (simp_all add: mmu_invalidate_def Let_def invalidate_icache_all)

section \<open>Coherence of all caches of a hart\<close>

definition caches_ok :: "u64 \<Rightarrow> ram \<Rightarrow> hart_t \<Rightarrow> bool" where
  "caches_ok hb mem h \<longleftrightarrow> coherent hb mem h \<and> fetch_coherent mem h \<and> epochs_ok h \<and> seq_ok h"

text \<open>The caches, without the fields that a translation depends on.\<close>

definition caches_of where
  "caches_of h =
     (cache_load h, cache_store h,
      (cache_load_last_vpn h, cache_load_last_phys_ppn h, cache_load_last_data_minus_addr h),
      (cache_store_last_vpn h, cache_store_last_phys_ppn h, cache_store_last_data_minus_addr h),
      (ram_base h, ram_size h, ram_load_last_page h, ram_load_last_ptr h, ram_store_last_page h, ram_store_last_ptr h),
      (cache_fetch h, icache h, icache_epoch h, seq_fetch_block h, seq_fetch_next_pc h))"

lemma caches_of_update [simp]:
  "caches_of (h\<lparr>x_regs := a0\<rparr>) = caches_of h" "caches_of (h\<lparr>pc := a1\<rparr>) = caches_of h"
  "caches_of (h\<lparr>current_pc := a2\<rparr>) = caches_of h" "caches_of (h\<lparr>instret := a3\<rparr>) = caches_of h"
  "caches_of (h\<lparr>error := a4\<rparr>) = caches_of h" "caches_of (h\<lparr>exc_cause := a5\<rparr>) = caches_of h"
  "caches_of (h\<lparr>exc_val := a6\<rparr>) = caches_of h" "caches_of (h\<lparr>lr_reservation := a7\<rparr>) = caches_of h"
  "caches_of (h\<lparr>sstatus_sie := a8\<rparr>) = caches_of h" "caches_of (h\<lparr>sie := a9\<rparr>) = caches_of h"
  "caches_of (h\<lparr>sip := a10\<rparr>) = caches_of h" "caches_of (h\<lparr>time := a11\<rparr>) = caches_of h"
  "caches_of (h\<lparr>sstatus_spp := a12\<rparr>) = caches_of h" "caches_of (h\<lparr>sstatus_spie := a13\<rparr>) = caches_of h"
  "caches_of (h\<lparr>sepc := a14\<rparr>) = caches_of h" "caches_of (h\<lparr>in_wfi := a15\<rparr>) = caches_of h"
  "caches_of (h\<lparr>scause := a16\<rparr>) = caches_of h" "caches_of (h\<lparr>stval := a17\<rparr>) = caches_of h"
  "caches_of (h\<lparr>stvec_addr := a18\<rparr>) = caches_of h" "caches_of (h\<lparr>stvec_vectored := a19\<rparr>) = caches_of h"
  "caches_of (h\<lparr>sscratch := a20\<rparr>) = caches_of h" "caches_of (h\<lparr>scounteren := a21\<rparr>) = caches_of h"
  "caches_of (h\<lparr>satp := a22\<rparr>) = caches_of h" "caches_of (h\<lparr>hsm_status := a23\<rparr>) = caches_of h"
  "caches_of (h\<lparr>hsm_resume_is_ret := a24\<rparr>) = caches_of h" "caches_of (h\<lparr>hsm_resume_pc := a25\<rparr>) = caches_of h"
  "caches_of (h\<lparr>hsm_resume_opaque := a26\<rparr>) = caches_of h" "caches_of (h\<lparr>s_mode := a27\<rparr>) = caches_of h"
  "caches_of (h\<lparr>sstatus_mxr := a28\<rparr>) = caches_of h" "caches_of (h\<lparr>sstatus_sum := a29\<rparr>) = caches_of h"
  "caches_of (h\<lparr>page_table := a30\<rparr>) = caches_of h"
  by (simp_all add: caches_of_def)

lemma tr_ctx_update [simp]:
  "tr_ctx (h\<lparr>x_regs := a0\<rparr>) = tr_ctx h" "tr_ctx (h\<lparr>pc := a1\<rparr>) = tr_ctx h"
  "tr_ctx (h\<lparr>current_pc := a2\<rparr>) = tr_ctx h" "tr_ctx (h\<lparr>instret := a3\<rparr>) = tr_ctx h"
  "tr_ctx (h\<lparr>error := a4\<rparr>) = tr_ctx h" "tr_ctx (h\<lparr>exc_cause := a5\<rparr>) = tr_ctx h"
  "tr_ctx (h\<lparr>exc_val := a6\<rparr>) = tr_ctx h" "tr_ctx (h\<lparr>lr_reservation := a7\<rparr>) = tr_ctx h"
  "tr_ctx (h\<lparr>sstatus_sie := a8\<rparr>) = tr_ctx h" "tr_ctx (h\<lparr>sie := a9\<rparr>) = tr_ctx h"
  "tr_ctx (h\<lparr>sip := a10\<rparr>) = tr_ctx h" "tr_ctx (h\<lparr>time := a11\<rparr>) = tr_ctx h"
  "tr_ctx (h\<lparr>sstatus_spp := a12\<rparr>) = tr_ctx h" "tr_ctx (h\<lparr>sstatus_spie := a13\<rparr>) = tr_ctx h"
  "tr_ctx (h\<lparr>sepc := a14\<rparr>) = tr_ctx h" "tr_ctx (h\<lparr>in_wfi := a15\<rparr>) = tr_ctx h"
  "tr_ctx (h\<lparr>scause := a16\<rparr>) = tr_ctx h" "tr_ctx (h\<lparr>stval := a17\<rparr>) = tr_ctx h"
  "tr_ctx (h\<lparr>stvec_addr := a18\<rparr>) = tr_ctx h" "tr_ctx (h\<lparr>stvec_vectored := a19\<rparr>) = tr_ctx h"
  "tr_ctx (h\<lparr>sscratch := a20\<rparr>) = tr_ctx h" "tr_ctx (h\<lparr>scounteren := a21\<rparr>) = tr_ctx h"
  "tr_ctx (h\<lparr>satp := a22\<rparr>) = tr_ctx h" "tr_ctx (h\<lparr>hsm_status := a23\<rparr>) = tr_ctx h"
  "tr_ctx (h\<lparr>hsm_resume_is_ret := a24\<rparr>) = tr_ctx h" "tr_ctx (h\<lparr>hsm_resume_pc := a25\<rparr>) = tr_ctx h"
  "tr_ctx (h\<lparr>hsm_resume_opaque := a26\<rparr>) = tr_ctx h"
  by (simp_all add: tr_ctx_def)

lemma caches_of_eqD:
  assumes "caches_of h' = caches_of h"
  shows "tlb_sets st h' = tlb_sets st h" "tlb_entries st h' = tlb_entries st h"
    "ram_view h' = ram_view h" "fetch_entries h' = fetch_entries h" "icache_entries h' = icache_entries h"
    "epochs_ok h' = epochs_ok h" "seq_ok h' = seq_ok h" "ram_base h' = ram_base h" "ram_size h' = ram_size h"
proof -
  have "icache_block_valid h' = icache_block_valid h"
    using assms by (auto simp: caches_of_def icache_block_valid_def fun_eq_iff)
  moreover from this have "seq_fetch_hit h' = seq_fetch_hit h"
    using assms by (auto simp: caches_of_def seq_fetch_hit_def fun_eq_iff split: option.split)
  ultimately show "tlb_sets st h' = tlb_sets st h" "tlb_entries st h' = tlb_entries st h"
    "ram_view h' = ram_view h" "fetch_entries h' = fetch_entries h" "icache_entries h' = icache_entries h"
    "epochs_ok h' = epochs_ok h" "seq_ok h' = seq_ok h" "ram_base h' = ram_base h" "ram_size h' = ram_size h"
    using assms
    by (simp_all add: caches_of_def tlb_sets_def tlb_entries_def last_vpn_def last_ppn_def last_dma_def
        ram_view_def fetch_entries_def icache_entries_def epochs_ok_def seq_ok_def)
qed

lemma caches_ok_cong:
  assumes "caches_ok hb mem h" "caches_of h' = caches_of h" "tr_ctx h' = tr_ctx h"
  shows "caches_ok hb mem h'"
proof -
  have "tlb_state h' = tlb_state h"
    using assms(2,3) by (auto simp: caches_of_def tlb_state_def)
  moreover have "fetch_coherent mem h'" if "fetch_coherent mem h"
    using fetch_ctx_frame [OF that ad_ext_refl assms(3), of "{}" "{}"] caches_of_eqD [OF assms(2)] by simp
  ultimately show ?thesis
    using assms(1) coherent_cong [OF _ _ ad_ext_refl, of h' h hb mem] caches_of_eqD [OF assms(2)]
    by (auto simp: caches_ok_def)
qed

lemma epochs_ok_invalidate: "epochs_ok h \<Longrightarrow> epochs_ok (mmu_invalidate h)"
  by (rule icache.inv_invalidate)

text \<open>After an invalidation the caches agree with every translation.\<close>

lemma caches_ok_empty:
  assumes ok: "ram_base h = Some 0" "ram_size h = RAM_SIZE" "epochs_ok h"
    and eq: "caches_of h' = caches_of (mmu_invalidate h)"
  shows "caches_ok hb mem h'"
proof -
  have "fetch_coherent mem h'"
    using icache_entries_invalidate [OF ok(3)] fetch_tlb.entries_invalidate [where h = h] caches_of_eqD [OF eq]
    by (intro fetch_coherent_empty) auto
  then show ?thesis
    using coherent_after_invalidate [OF ok(1,2)] epochs_ok_invalidate [OF ok(3)]
      fetch_coherent_invalidate(2) [OF ok(3)] caches_of_eqD [OF eq]
    by (simp add: caches_ok_def)
qed

lemma caches_ok_flushed: "caches_ok hb mem h \<Longrightarrow> caches_of h' = caches_of (mmu_invalidate h) \<Longrightarrow> caches_ok hb mem h'"
  by (rule caches_ok_empty) (auto simp: caches_ok_def coherent_def ram_view_def)

text \<open>
  What an operation may do to a hart without harm to its caches: leave them and the fields that a
  translation depends on, or end with the caches as an invalidation leaves them.
\<close>

definition caches_step :: "hart_t \<Rightarrow> hart_t \<Rightarrow> bool" where
  "caches_step h h' \<longleftrightarrow>
     caches_of h' = caches_of h \<and> tr_ctx h' = tr_ctx h \<or> caches_of h' = caches_of (mmu_invalidate h)"

lemma caches_step_ok: "caches_step h h' \<Longrightarrow> caches_ok hb mem h \<Longrightarrow> caches_ok hb mem h'"
  unfolding caches_step_def by (blast intro: caches_ok_cong caches_ok_flushed)

lemma caches_step_refl [simp]: "caches_step h h"
  by (simp add: caches_step_def)

lemma caches_of_set_exception [simp]:
  "caches_of (vm_set_exception c v h) = caches_of h" "tr_ctx (vm_set_exception c v h) = tr_ctx h"
  by (simp_all add: vm_set_exception_def)

lemma caches_of_set_dest [simp]:
  "caches_of (set_dest_idx rd x h) = caches_of h" "tr_ctx (set_dest_idx rd x h) = tr_ctx h"
  by (simp_all add: set_dest_idx_def)

lemma caches_of_invalidate_cong:
  "caches_of h' = caches_of h \<Longrightarrow> caches_of (mmu_invalidate h') = caches_of (mmu_invalidate h)"
  by (simp add: caches_of_def mmu_invalidate_def Let_def invalidate_icache_all)

lemma caches_step_trans_left:
  "caches_of h1 = caches_of h \<Longrightarrow> tr_ctx h1 = tr_ctx h \<Longrightarrow> caches_step h1 h2 \<Longrightarrow> caches_step h h2"
  using caches_of_invalidate_cong [of h1 h] by (auto simp: caches_step_def)

lemma trap_caches: "caches_step h (hart_trap h)"
proof (cases "s_mode h")
  case True
  then have "caches_of (hart_trap h) = caches_of h \<and> tr_ctx (hart_trap h) = tr_ctx h"
    by (simp add: hart_trap_def Let_def) (simp add: tr_ctx_def)
  then show ?thesis by (simp add: caches_step_def)
next
  case False
  let ?h = "h\<lparr>scause := exc_cause h, stval := exc_val h, sstatus_spie := sstatus_sie h,
    sstatus_spp := s_mode h, sepc := current_pc h, sstatus_sie := False\<rparr>"
  have "caches_of (hart_trap h) = caches_of (mmu_invalidate ?h)"
    using False by (simp add: hart_trap_def Let_def)
  also have "\<dots> = caches_of (mmu_invalidate h)" by (rule caches_of_invalidate_cong) simp
  finally show ?thesis by (simp add: caches_step_def)
qed

lemma sret_caches: "caches_step h (snd (op_sret c h))"
proof (cases "s_mode h = sstatus_spp h")
  case True
  then have "caches_of (snd (op_sret c h)) = caches_of h \<and> tr_ctx (snd (op_sret c h)) = tr_ctx h"
    by (simp add: op_sret_def Let_def) (simp add: tr_ctx_def)
  then show ?thesis by (simp add: caches_step_def)
next
  case False
  have "caches_of (snd (op_sret c h)) = caches_of (mmu_invalidate (h\<lparr>pc := sepc h\<rparr>))"
    using False by (simp add: op_sret_def Let_def)
  also have "\<dots> = caches_of (mmu_invalidate h)" by (rule caches_of_invalidate_cong) simp
  finally show ?thesis by (simp add: caches_step_def)
qed

lemma csr_write_caches: "caches_step h (csr_write addr v h)"
proof -
  consider "addr = RV_CSR_SSTATUS" | "addr = RV_CSR_SATP" | "addr \<noteq> RV_CSR_SSTATUS" "addr \<noteq> RV_CSR_SATP"
    by blast
  then show ?thesis
  proof cases
    case 1
    have "caches_of (mmu_invalidate (h\<lparr>sstatus_sie := a, sstatus_spie := b, sstatus_spp := c, sstatus_sum := d,
        sstatus_mxr := m\<rparr>)) = caches_of (mmu_invalidate h)" for a b c d m
      by (rule caches_of_invalidate_cong) simp
    then show ?thesis using 1 by (simp add: csr_write_def Let_def caches_step_def tr_ctx_def vm_set_exception_def)
  next
    case 2
    then show ?thesis by (simp add: csr_write_def caches_step_def mmu_set_def Let_def split: option.split)
  next
    case 3
    then show ?thesis by (simp add: csr_write_def caches_step_def)
  qed
qed

lemma csr_read_hart:
  "csr_read addr v c h = (v', c', h') \<Longrightarrow> h' = h \<or> h' = vm_set_exception RV_EXC_ILLEGAL_INSN 0 h"
  by (auto simp: csr_read_def split: if_splits prod.splits)

lemma csr_ops_caches:
  "caches_step h (snd (op_csr_rw rd csr w c h))" "caches_step h (snd (op_csr_cs rd rs1 csr sm cm c h))"
proof -
  obtain v c' h' where r: "csr_read csr 0 c h = (v, c', h')" by (cases "csr_read csr 0 c h") auto
  have h': "caches_of h' = caches_of h" "tr_ctx h' = tr_ctx h" using csr_read_hart [OF r] by auto
  have wr: "caches_step h (csr_write csr w' (set_dest_idx rd v h'))" for w'
    using h' by (intro caches_step_trans_left [OF _ _ csr_write_caches]) auto
  have keep: "caches_step h h'" "caches_step h (set_dest_idx rd v h')" using h' by (auto simp: caches_step_def)
  show "caches_step h (snd (op_csr_rw rd csr w c h))"
    by (simp add: op_csr_rw_def r wr keep csr_write_caches)
  show "caches_step h (snd (op_csr_cs rd rs1 csr sm cm c h))"
    by (simp add: op_csr_cs_def r wr keep Let_def)
qed

section \<open>What the system instructions may do\<close>

text \<open>
  A system instruction changes one hart and the clock; the new hart is one of these: the fence, an
  exception, the return from a trap, the wait flag, or a register operation.
\<close>

inductive system_effect :: "hart_t \<Rightarrow> hart_t \<Rightarrow> bool" for h where
  fence: "system_effect h (mmu_fence insn h)"
| raise: "system_effect h (vm_set_exception c v h)"
| sret: "system_effect h (snd (op_sret clock h))"
| keep: "system_effect h h"
| wait: "system_effect h (h\<lparr>in_wfi := w\<rparr>)"
| csr_rw: "system_effect h (snd (op_csr_rw rd csr x clock h))"
| csr_cs: "system_effect h (snd (op_csr_cs rd rs1 csr s cl clock h))"

definition only_hart :: "u32 \<Rightarrow> emu_state_t \<Rightarrow> emu_state_t \<Rightarrow> bool" where
  "only_hart i e e' \<longleftrightarrow> e' = e\<lparr>harts := (harts e)(i := harts e' i), clk := clk e'\<rparr>"

lemma only_hartI [simp]: "only_hart i e (set_hart i h (e\<lparr>clk := c\<rparr>))" "only_hart i e (set_hart i h e)"
  by (simp_all add: only_hart_def set_hart_def)

lemma harts_set_hart_same [simp]: "harts (set_hart i h e) i = h"
  by (simp add: set_hart_def)

lemma only_hart_refl [simp]: "only_hart i e e"
  by (simp add: only_hart_def)

lemma op_privileged_effect:
  assumes "op_privileged i insn e = (y, e')"
  shows "only_hart i e e' \<and> system_effect (harts e i) (harts e' i)"
proof -
  have sret: "system_effect (harts e i) h" if "op_sret (clk e) (harts e i) = (c, h)" for c h
    using system_effect.sret [of "harts e i" "clk e"] that by simp
  show ?thesis
    using assms
    by (auto simp: op_privileged_def wfi_handler_def Let_def intro: system_effect.intros sret
        split: if_splits prod.splits)
qed

lemma op_system_effect:
  assumes "op_system i d e = (y, e')"
  shows "only_hart i e e' \<and> system_effect (harts e i) (harts e' i)"
proof (cases "decoded_funct3 d = 0")
  case True
  then show ?thesis using assms op_privileged_effect by (simp add: op_system_def Let_def)
next
  case False
  have rw: "system_effect (harts e i) h" if "op_csr_rw rd csr x (clk e) (harts e i) = (c, h)" for rd csr x c h
    using system_effect.csr_rw [of "harts e i" rd csr x "clk e"] that by simp
  have cs: "system_effect (harts e i) h" if "op_csr_cs rd rs1 csr s cl (clk e) (harts e i) = (c, h)"
    for rd rs1 csr s cl c h
    using system_effect.csr_cs [of "harts e i" rd rs1 csr s cl "clk e"] that by simp
  show ?thesis
    using False assms
    by (auto simp: op_system_def Let_def intro: rw cs system_effect.intros split: if_splits prod.splits)
qed

lemma system_effect_caches: "system_effect h h' \<Longrightarrow> caches_step h h'"
proof (induction rule: system_effect.induct)
  case (fence insn)
  then show ?case by (simp add: mmu_fence_def caches_step_def)
next
  case (raise c v)
  then show ?case by (simp add: caches_step_def)
next
  case (wait w)
  then show ?case by (simp add: caches_step_def)
qed (simp_all add: sret_caches csr_ops_caches)

text \<open>In user mode the previous privilege is user mode: no trap is being handled.\<close>

definition mode_ok :: "hart_t \<Rightarrow> bool" where
  "mode_ok h \<longleftrightarrow> s_mode h \<or> \<not> sstatus_spp h"

definition supervisor_state where
  "supervisor_state h =
     ((satp h, page_table h, stvec_addr h, stvec_vectored h, sstatus_sum h, sstatus_mxr h),
      (sepc h, scause h, stval h, sscratch h, scounteren h, sie h, sip h))"

lemma mode_ok_simps [simp]:
  "mode_ok (vm_set_exception c v h) = mode_ok h" "mode_ok (set_dest_idx rd x h) = mode_ok h"
  "s_mode (vm_set_exception c v h) = s_mode h" "s_mode (set_dest_idx rd x h) = s_mode h"
  "supervisor_state (vm_set_exception c v h) = supervisor_state h"
  "supervisor_state (set_dest_idx rd x h) = supervisor_state h"
  "supervisor_state (mmu_invalidate h) = supervisor_state h"
  by (simp_all add: mode_ok_def vm_set_exception_def set_dest_idx_def supervisor_state_def)

lemma s_mode_csr_write [simp]: "s_mode (csr_write addr v h) = s_mode h"
  by (simp add: csr_write_def Let_def mmu_set_def split: option.split)

lemma mode_ok_csr_write: "mode_ok h \<Longrightarrow> mode_ok (csr_write addr v h)"
  by (cases "s_mode h") (simp_all add: mode_ok_def, simp add: csr_write_def vm_set_exception_def)

lemma csr_write_user: "\<not> s_mode h \<Longrightarrow> csr_write addr v h = vm_set_exception RV_EXC_ILLEGAL_INSN 0 h"
  by (simp add: csr_write_def)

lemma mode_ok_csr_ops:
  assumes "mode_ok h"
  shows "mode_ok (snd (op_csr_rw rd csr x c h))" "s_mode (snd (op_csr_rw rd csr x c h)) = s_mode h"
    "mode_ok (snd (op_csr_cs rd rs1 csr sm cm c h))" "s_mode (snd (op_csr_cs rd rs1 csr sm cm c h)) = s_mode h"
proof -
  obtain v c' h' where r: "csr_read csr 0 c h = (v, c', h')" by (cases "csr_read csr 0 c h") auto
  have h': "mode_ok h'" "s_mode h' = s_mode h" using csr_read_hart [OF r] assms by auto
  show "mode_ok (snd (op_csr_rw rd csr x c h))" "s_mode (snd (op_csr_rw rd csr x c h)) = s_mode h"
    using h' assms by (simp_all add: op_csr_rw_def r mode_ok_csr_write)
  show "mode_ok (snd (op_csr_cs rd rs1 csr sm cm c h))" "s_mode (snd (op_csr_cs rd rs1 csr sm cm c h)) = s_mode h"
    using h' by (simp_all add: op_csr_cs_def r mode_ok_csr_write Let_def)
qed

lemma csr_ops_user:
  assumes "\<not> s_mode h"
  shows "supervisor_state (snd (op_csr_rw rd csr x c h)) = supervisor_state h"
    "supervisor_state (snd (op_csr_cs rd rs1 csr sm cm c h)) = supervisor_state h"
proof -
  obtain v c' h' where r: "csr_read csr 0 c h = (v, c', h')" by (cases "csr_read csr 0 c h") auto
  have h': "supervisor_state h' = supervisor_state h" "\<not> s_mode h'" using csr_read_hart [OF r] assms by auto
  show "supervisor_state (snd (op_csr_rw rd csr x c h)) = supervisor_state h"
    using h' assms by (simp add: op_csr_rw_def r csr_write_user)
  show "supervisor_state (snd (op_csr_cs rd rs1 csr sm cm c h)) = supervisor_state h"
    using h' by (simp add: op_csr_cs_def r csr_write_user Let_def)
qed

lemma system_effect_mode:
  assumes "system_effect h h'" "mode_ok h"
  shows "mode_ok h' \<and> (\<not> s_mode h \<longrightarrow> \<not> s_mode h' \<and> supervisor_state h' = supervisor_state h)"
  using assms
proof (induction rule: system_effect.induct)
  case (fence insn)
  then show ?case by (simp add: mmu_fence_def) (simp add: mode_ok_def)
next
  case (sret clock)
  then show ?case by (auto simp: op_sret_def Let_def mode_ok_def supervisor_state_def)
next
  case (wait w)
  then show ?case by (simp add: mode_ok_def supervisor_state_def)
qed (simp_all add: mode_ok_csr_ops csr_ops_user)

section \<open>Properties\<close>

lemma only_hartE:
  assumes "only_hart i e e'"
  obtains h c where "e' = e\<lparr>harts := (harts e)(i := h), clk := c\<rparr>"
  using assms by (auto simp: only_hart_def)

lemma only_hart_other: "only_hart i e e' \<Longrightarrow> j \<noteq> i \<Longrightarrow> harts e' j = harts e j"
  by (erule only_hartE) simp

definition all_caches_ok :: "emu_state_t \<Rightarrow> bool" where
  "all_caches_ok e \<longleftrightarrow> (\<forall>j. caches_ok (host_base e) (emu_ram e) (harts e j))"

lemma flushed_caches_ok: "all_caches_ok flushed_emu"
proof -
  have "epochs_ok (harts zero_emu j)" for j by (simp add: epochs_ok_def zero_emu_def zero_hart_def zero_block_def)
  then show ?thesis
    by (auto simp: all_caches_ok_def flushed_emu_def intro!: caches_ok_empty [OF _ _ _ refl])
      (simp_all add: zero_emu_def)
qed

text \<open>
  C12: The supervisor's instructions keep every translation cache right. If the load, store, fetch
  and instruction caches of all harts agree with the page tables, they still do after any system
  instruction (register access, \<^verbatim>\<open>SRET\<close>, \<^verbatim>\<open>SFENCE.VMA\<close>, \<^verbatim>\<open>WFI\<close>) and after a trap: whenever the
  privilege, \<^verbatim>\<open>SUM\<close>, \<^verbatim>\<open>MXR\<close> or the page table changes, the code invalidates. Only the hart that
  executes changes, besides the clock.
\<close>

theorem system_keeps_coherence:
  assumes "all_caches_ok e" and "op_system i d e = (y, e')"
  shows "all_caches_ok e' \<and> all_caches_ok (set_hart i (hart_trap (harts e i)) e) \<and> only_hart i e e'"
proof -
  have eff: "only_hart i e e'" "system_effect (harts e i) (harts e' i)" using op_system_effect [OF assms(2)] by auto
  have step: "all_caches_ok e2" if "caches_step (harts e i) (harts e2 i)" "only_hart i e e2" for e2
    unfolding all_caches_ok_def
  proof
    fix j
    have "caches_ok (host_base e) (emu_ram e) (harts e2 j)"
      using assms(1) caches_step_ok [OF that(1)] only_hart_other [OF that(2), of j]
      by (cases "j = i") (auto simp: all_caches_ok_def)
    moreover have "host_base e2 = host_base e" "emu_ram e2 = emu_ram e" using that(2) by (auto elim: only_hartE)
    ultimately show "caches_ok (host_base e2) (emu_ram e2) (harts e2 j)" by simp
  qed
  show ?thesis using eff step [OF system_effect_caches [OF eff(2)] eff(1)] step trap_caches by simp
qed

theorem system_keeps_coherence_witness:
  "all_caches_ok (snd (op_system 0 (decode_insn 0x10200073) flushed_emu))"
  using system_keeps_coherence [OF flushed_caches_ok, of 0 "decode_insn 0x10200073"]
  by (cases "op_system 0 (decode_insn 0x10200073) flushed_emu") auto

text \<open>
  What a supervisor register holds after a write: the fields it implements, and for the interrupt
  pending bits and the translation register also what it held before.
\<close>

definition csr_legal :: "u16 \<Rightarrow> u32 \<Rightarrow> hart_t \<Rightarrow> u32" where
  "csr_legal addr v h =
     (if addr = RV_CSR_SSTATUS then v AND 0xC0122
      else if addr = RV_CSR_SIE then v AND 0x222
      else if addr = RV_CSR_SIP then (sip h AND NOT 2) OR (v AND 2)
      else if addr = RV_CSR_STVEC then v AND NOT 2
      else if addr = RV_CSR_SATP then
        if bit v 31 then if v AND mask 22 < RAM_PAGES then v AND NOT 0x7FC00000 else satp h else 0
      else v)"

definition supervisor_csrs :: "u16 set" where
  "supervisor_csrs = {RV_CSR_SSTATUS, RV_CSR_SIE, RV_CSR_SIP, RV_CSR_STVEC, RV_CSR_SATP, RV_CSR_SCOUNTEREN,
     RV_CSR_SSCRATCH, RV_CSR_SEPC, RV_CSR_SCAUSE, RV_CSR_STVAL}"

lemma flag_test: "v AND push_bit k 1 = 0 \<longleftrightarrow> \<not> bit (v :: u32) k"
  by (simp add: push_bit_eq_mult and_exp_eq_0_iff_not_bit)

lemma flag_bit: "bit (if b then push_bit k 1 else 0 :: u32) n \<longleftrightarrow> b \<and> n = k \<and> k < 32"
  by (auto simp: bit_simps)

lemma sstatus_fields:
  assumes "s_mode h"
  shows "sstatus_sie (csr_write RV_CSR_SSTATUS v h) = bit v 1" "sstatus_spie (csr_write RV_CSR_SSTATUS v h) = bit v 5"
    "sstatus_spp (csr_write RV_CSR_SSTATUS v h) = bit v 8" "sstatus_sum (csr_write RV_CSR_SSTATUS v h) = bit v 18"
    "sstatus_mxr (csr_write RV_CSR_SSTATUS v h) = bit v 19"
  using assms unfolding csr_write_def flag_test by (simp_all add: Let_def)

lemma sstatus_write_value:
  assumes "s_mode h"
  shows "sstatus_value (csr_write RV_CSR_SSTATUS v h) = v AND 0xC0122"
  unfolding sstatus_value_def sstatus_fields [OF assms] word32_eq_bits bit_or_iff flag_bit
  by (simp add: bit_simps)

lemma stvec_value: "(v AND NOT 3) OR (if bit v 0 then push_bit 0 1 else 0) = v AND NOT (2 :: u32)"
  unfolding word32_eq_bits bit_or_iff flag_bit by (simp add: bit_simps)

lemma drop_bit_31: "drop_bit 31 v = 0 \<longleftrightarrow> \<not> bit (v :: u32) 31"
proof -
  have "bit (drop_bit 31 v) n \<longleftrightarrow> n = 0 \<and> bit v 31" for n
    using bit_u32_less [of v "31 + n"] by (cases n) (auto simp: bit_drop_bit_eq)
  then show ?thesis by (metis bit_0_eq bit_word_eqI bot_apply bot_bool_def)
qed

lemma satp_write_value: "s_mode h \<Longrightarrow> satp (csr_write RV_CSR_SATP v h) = csr_legal RV_CSR_SATP v h"
  by (simp add: csr_write_def csr_legal_def mmu_set_def Let_def mem_page_table_def drop_bit_31 mask_eq_exp_minus_1)

text \<open>
  C19: A supervisor register reads back what was written, reduced to what the register implements:
  the five fields of \<^verbatim>\<open>sstatus\<close>, the three interrupts of \<^verbatim>\<open>sie\<close>, the software interrupt of \<^verbatim>\<open>sip\<close>, a
  \<^verbatim>\<open>stvec\<close> without its reserved mode bit, and a \<^verbatim>\<open>satp\<close> that changes only to a root table inside RAM.
  Neither access raises an exception.
\<close>

theorem csr_write_read:
  assumes "s_mode h" and "addr \<in> supervisor_csrs"
  shows "csr_read addr x c (csr_write addr v h) = (csr_legal addr v h, c, csr_write addr v h) \<and>
    error (csr_write addr v h) = error h"
proof -
  let ?h = "csr_write addr v h"
  have err: "error (csr_write addr v h) = error h"
    using assms by (auto simp: supervisor_csrs_def csr_write_def Let_def mmu_set_def split: option.split)
  consider "addr = RV_CSR_SSTATUS" | "addr = RV_CSR_SATP" | "addr = RV_CSR_STVEC"
    | "addr \<in> supervisor_csrs - {RV_CSR_SSTATUS, RV_CSR_SATP, RV_CSR_STVEC}"
    using assms(2) by blast
  then show ?thesis
  proof cases
    case 1
    then show ?thesis
      using err assms sstatus_write_value [OF assms(1), of v] by (simp add: csr_read_def csr_legal_def)
  next
    case 2
    then show ?thesis using err assms satp_write_value [OF assms(1), of v] by (simp add: csr_read_def)
  next
    case 3
    have "stvec_addr ?h = v AND NOT 3" "stvec_vectored ?h = bit v 0"
      using 3 assms unfolding csr_write_def flag_test by simp_all
    then show ?thesis using 3 err assms stvec_value [of v] by (simp add: csr_read_def csr_legal_def)
  next
    case 4
    then show ?thesis
      using err assms by (auto simp: csr_read_def csr_write_def csr_legal_def supervisor_csrs_def or.commute)
  qed
qed

theorem csr_write_read_witness:
  "csr_read RV_CSR_SSTATUS 0 (still_clock 0) (csr_write RV_CSR_SSTATUS 0xFFFFFFFF (zero_hart\<lparr>s_mode := True\<rparr>)) =
     (0xC0122, still_clock 0, csr_write RV_CSR_SSTATUS 0xFFFFFFFF (zero_hart\<lparr>s_mode := True\<rparr>))"
  using csr_write_read [of "zero_hart\<lparr>s_mode := True\<rparr>" RV_CSR_SSTATUS 0 "still_clock 0" "0xFFFFFFFF"]
  by (simp add: supervisor_csrs_def csr_legal_def)

text \<open>
  C15: A trap followed by a return resumes the interrupted program: the program counter is the one
  of the instruction that trapped, privilege, interrupt enable, address space and registers are
  what they were. In between the hart runs the handler at \<^verbatim>\<open>stvec\<close> in supervisor mode with
  interrupts disabled and the cause recorded.
\<close>

theorem trap_sret_resumes:
  "(let t = hart_trap h; h' = snd (op_sret c t)
    in pc h' = current_pc h \<and> s_mode h' = s_mode h \<and> sstatus_sie h' = sstatus_sie h \<and>
       tr_ctx h' = tr_ctx h \<and> satp h' = satp h \<and> x_regs h' = x_regs h \<and> error h' = ERR_NONE \<and>
       s_mode t \<and> \<not> sstatus_sie t \<and> scause t = exc_cause h \<and> stval t = exc_val h \<and> error t = ERR_NONE \<and>
       pc t = stvec_addr h + (if stvec_vectored h then (exc_cause h AND mask 31) * 4 else 0))"
  by (simp add: hart_trap_def op_sret_def Let_def tr_ctx_def)

text \<open>
  \<^verbatim>\<open>SRET\<close> has no check of the privilege: in user mode it jumps to \<^verbatim>\<open>sepc\<close> and raises nothing.
\<close>

lemma user_sret_not_illegal:
  "\<not> s_mode (harts e i) \<Longrightarrow> error (harts e i) = ERR_NONE \<Longrightarrow>
     let h' = harts (snd (op_privileged i 0x10200073 e)) i
     in error h' = ERR_NONE \<and> pc h' = sepc (harts e i)"
  by (simp add: op_privileged_def op_sret_def decode_i_unsigned_def Let_def mask_eq_exp_minus_1)

end
