(* ===== verification/Exec.thy ===== *)
theory Exec
  imports Csr Alu
begin

text \<open>
  The interpreter of \<^verbatim>\<open>src/riscv.c\<close>: jumps, atomic memory operations, interrupts, the instruction
  handlers of the threaded interpreter (\<^verbatim>\<open>vm_step_many\<close> with computed \<^verbatim>\<open>goto\<close>) and of the switch
  (\<^verbatim>\<open>vm_execute_insn\<close>), and the loop that fetches and dispatches.

  A local variable that a callee may leave unset starts as 0.
\<close>

section \<open>Jumps\<close>

definition do_jump :: "u32 \<Rightarrow> hart_t \<Rightarrow> hart_t" where
  "do_jump addr h = (if addr AND 0b11 \<noteq> 0 then vm_set_exception RV_EXC_PC_MISALIGN addr h else h\<lparr>pc := addr\<rparr>)"

definition op_jump_link :: "u8 \<Rightarrow> u32 \<Rightarrow> hart_t \<Rightarrow> hart_t" where
  "op_jump_link rd addr h =
     (if addr AND 0b11 \<noteq> 0 then vm_set_exception RV_EXC_PC_MISALIGN addr h
      else (set_dest_idx rd (pc h) h)\<lparr>pc := addr\<rparr>)"

section \<open>Atomic memory operations\<close>

definition AMO_OP ::
  "u32 \<Rightarrow> decoded_insn_t \<Rightarrow> u32 \<Rightarrow> (u32 \<Rightarrow> u32 \<Rightarrow> u32) \<Rightarrow> emu_state_t \<Rightarrow> emu_state_t option" where
  "AMO_OP i d addr stored e =
     do { let value2 = x_regs (harts e i) (decoded_rs2 d);
          (value, e) \<leftarrow> mmu_load i addr RV_MEM_LW 0 False e;
          if error (harts e i) \<noteq> ERR_NONE then Some e
          else do {
            let e = set_hart i (set_dest_idx (decoded_rd d) value (harts e i)) e;
            (ok, e) \<leftarrow> mmu_store i addr RV_MEM_SW (stored value value2) False e;
            Some e } }"

definition op_amo :: "u32 \<Rightarrow> decoded_insn_t \<Rightarrow> emu_state_t \<Rightarrow> emu_state_t option" where
  "op_amo i d e =
     (let h = harts e i;
          raise = (\<lambda>c v. Some (set_hart i (vm_set_exception c v h) e));
          addr = x_regs h (decoded_rs1 d); f5 = decoded_funct5 d
      in if decoded_funct3 d \<noteq> 0b010 then raise RV_EXC_ILLEGAL_INSN 0
         else if f5 = 0b00010 then
           if addr AND 0b11 \<noteq> 0 then raise RV_EXC_LOAD_MISALIGN addr
           else if decoded_rs2 d \<noteq> 0 then raise RV_EXC_ILLEGAL_INSN 0
           else do {
             (value, e) \<leftarrow> mmu_load i addr RV_MEM_LW 0 True e;
             if error (harts e i) \<noteq> ERR_NONE then Some e
             else Some (set_hart i (set_dest_idx (decoded_rd d) value (harts e i)) e) }
         else if f5 = 0b00011 then
           if addr AND 0b11 \<noteq> 0 then raise RV_EXC_STORE_MISALIGN addr
           else do {
             (ok, e) \<leftarrow> mmu_store i addr RV_MEM_SW (x_regs h (decoded_rs2 d)) True e;
             if error (harts e i) \<noteq> ERR_NONE then Some e
             else Some (set_hart i (set_dest_idx (decoded_rd d) (if ok then 0 else 1) (harts e i)) e) }
         else if f5 = 0b00001 then AMO_OP i d addr (\<lambda>value value2. value2) e
         else if f5 = 0b00000 then AMO_OP i d addr (\<lambda>value value2. value + value2) e
         else if f5 = 0b00100 then AMO_OP i d addr (\<lambda>value value2. value XOR value2) e
         else if f5 = 0b01100 then AMO_OP i d addr (\<lambda>value value2. value AND value2) e
         else if f5 = 0b01000 then AMO_OP i d addr (\<lambda>value value2. value OR value2) e
         else if f5 = 0b10000 then AMO_OP i d addr (\<lambda>value value2. if sint value < sint value2 then value else value2) e
         else if f5 = 0b10100 then AMO_OP i d addr (\<lambda>value value2. if sint value > sint value2 then value else value2) e
         else if f5 = 0b11000 then AMO_OP i d addr (\<lambda>value value2. if value < value2 then value else value2) e
         else if f5 = 0b11100 then AMO_OP i d addr (\<lambda>value value2. if value > value2 then value else value2) e
         else raise RV_EXC_ILLEGAL_INSN 0)"

section \<open>Interrupts\<close>

definition vm_init :: "hart_t \<Rightarrow> hart_t" where
  "vm_init h = (mmu_invalidate h)\<lparr>ram_load_last_page := 0xFFFFFFFF, ram_store_last_page := 0xFFFFFFFF\<rparr>"

definition interrupt_taken :: "hart_t \<Rightarrow> bool" where
  "interrupt_taken h \<longleftrightarrow> (sstatus_sie h \<or> \<not> s_mode h) \<and> sip h AND sie h \<noteq> 0"

definition vm_handle_pending_interrupt :: "u32 \<Rightarrow> emu_state_t \<Rightarrow> emu_state_t option" where
  "vm_handle_pending_interrupt i e =
     (let h = harts e i
      in if interrupt_taken h then
           let applicable = sip h AND sie h; idx = (word_of_nat (ilog2 applicable) :: u8);
               trap = (\<lambda>e. set_hart i (hart_trap (h\<lparr>exc_cause := push_bit 31 1 OR ucast idx, stval := 0\<rparr>)) e)
           in if idx = 1 then
                if mhartid h < sswi_n_hart (sswi e)
                then Some (trap (e\<lparr>sswi := (sswi e)\<lparr>ssip := (ssip (sswi e))(mhartid h := 0)\<rparr>\<rparr>))
                else None
              else Some (trap e)
         else Some e)"

section \<open>The handlers of the threaded interpreter\<close>

text \<open>
  How a handler ends: with one of the three dispatch macros, at \<^verbatim>\<open>L_error\<close>, or suspended in a
  \<^verbatim>\<open>WFI\<close>, in which case \<^verbatim>\<open>DISPATCH_BREAK\<close> follows when the hart is resumed.
\<close>

datatype dispatch = DISPATCH_NEXT | DISPATCH_BREAK | DISPATCH_CHAIN | L_error | Suspended

definition set_reg :: "u8 \<Rightarrow> u32 \<Rightarrow> hart_t \<Rightarrow> hart_t" where
  "set_reg rd x h = (if rd \<noteq> 0 then h\<lparr>x_regs := (x_regs h)(rd := x)\<rparr> else h)"

definition op_imm_tbl :: "u8 \<Rightarrow> bool \<Rightarrow> u32 \<Rightarrow> u32 \<Rightarrow> u32 option" where
  "op_imm_tbl funct3 neg rs1 imm =
     (if funct3 = 0 then Some (rs1 + imm)
      else if funct3 = 1 then Some (push_bit (unat (imm AND MASK 5)) rs1)
      else if funct3 = 2 then Some (if sint rs1 < sint imm then 1 else 0)
      else if funct3 = 3 then Some (if rs1 < imm then 1 else 0)
      else if funct3 = 4 then Some (rs1 XOR imm)
      else if funct3 = 5 then
        Some (if neg then signed_drop_bit (unat (imm AND MASK 5)) rs1 else drop_bit (unat (imm AND MASK 5)) rs1)
      else if funct3 = 6 then Some (rs1 OR imm)
      else if funct3 = 7 then Some (rs1 AND imm)
      else None)"

definition op_tbl :: "u8 \<Rightarrow> bool \<Rightarrow> u32 \<Rightarrow> u32 \<Rightarrow> u32 option" where
  "op_tbl funct3 neg rs1 rs2 =
     (if funct3 = 0 then Some (if neg then rs1 - rs2 else rs1 + rs2)
      else if funct3 = 1 then Some (push_bit (unat (rs2 AND MASK 5)) rs1)
      else if funct3 = 2 then Some (if sint rs1 < sint rs2 then 1 else 0)
      else if funct3 = 3 then Some (if rs1 < rs2 then 1 else 0)
      else if funct3 = 4 then Some (rs1 XOR rs2)
      else if funct3 = 5 then
        Some (if neg then signed_drop_bit (unat (rs2 AND MASK 5)) rs1 else drop_bit (unat (rs2 AND MASK 5)) rs1)
      else if funct3 = 6 then Some (rs1 OR rs2)
      else if funct3 = 7 then Some (rs1 AND rs2)
      else None)"

type_synonym handler = "u32 \<Rightarrow> u32 \<Rightarrow> emu_state_t \<Rightarrow> (dispatch \<times> emu_state_t) option"

definition L_op_imm :: handler where
  "L_op_imm i insn e =
     (let h = harts e i
      in do { x \<leftarrow> op_imm_tbl (decode_func3 insn) (insn AND push_bit 30 1 \<noteq> 0)
                     (x_regs h (decode_rs1 insn)) (decode_i insn);
              Some (DISPATCH_NEXT, set_hart i (set_reg (decode_rd insn) x h) e) })"

definition L_op :: handler where
  "L_op i insn e =
     (let h = harts e i; rs1 = x_regs h (decode_rs1 insn); rs2 = x_regs h (decode_rs2 insn)
      in do { x \<leftarrow> (if insn AND push_bit 25 1 \<noteq> 0 then op_mul (decode_func3 insn) rs1 rs2
                     else op_tbl (decode_func3 insn) (insn AND push_bit 30 1 \<noteq> 0) rs1 rs2);
              Some (DISPATCH_NEXT, set_hart i (set_reg (decode_rd insn) x h) e) })"

definition L_lui :: handler where
  "L_lui i insn e =
     Some (DISPATCH_NEXT, set_hart i (set_dest_idx (decode_rd insn) (decode_u insn) (harts e i)) e)"

definition L_auipc :: handler where
  "L_auipc i insn e =
     (let h = harts e i
      in Some (DISPATCH_NEXT, set_hart i (set_dest_idx (decode_rd insn) (decode_u insn + current_pc h) h) e))"

text \<open>The common body of \<^verbatim>\<open>L_jal\<close> and \<^verbatim>\<open>L_jalr\<close>, which differ in the address.\<close>

definition jump_link_chain :: "u32 \<Rightarrow> u8 \<Rightarrow> u32 \<Rightarrow> emu_state_t \<Rightarrow> (dispatch \<times> emu_state_t) option" where
  "jump_link_chain i rd addr e =
     (let h = harts e i
      in if addr AND 0b11 \<noteq> 0
         then Some (L_error, set_hart i (vm_set_exception RV_EXC_PC_MISALIGN addr h) e)
         else
           let h = (if rd = 1 then h\<lparr>x_regs := (x_regs h)(1 := pc h)\<rparr>
                    else if rd \<noteq> 0 then h\<lparr>x_regs := (x_regs h)(rd := pc h)\<rparr> else h)
           in Some (DISPATCH_CHAIN, set_hart i (h\<lparr>pc := addr\<rparr>) e))"

definition L_jal :: handler where
  "L_jal i insn e = jump_link_chain i (decode_rd insn) (decode_j insn + current_pc (harts e i)) e"

definition L_jalr :: handler where
  "L_jalr i insn e =
     jump_link_chain i (decode_rd insn) ((decode_i insn + x_regs (harts e i) (decode_rs1 insn)) AND NOT 1) e"

definition L_branch :: handler where
  "L_branch i insn e =
     (let h = harts e i; rs1 = x_regs h (decode_rs1 insn); rs2 = x_regs h (decode_rs2 insn);
          funct3 = decode_func3 insn;
          jump = (\<lambda>taken.
            if taken then
              let h = do_jump (decode_b insn + current_pc h) h
              in if error h \<noteq> ERR_NONE then Some (L_error, set_hart i h e)
                 else Some (DISPATCH_CHAIN, set_hart i h e)
            else Some (DISPATCH_NEXT, e))
      in if funct3 = 0b000 then jump (rs1 = rs2)
         else if funct3 = 0b001 then jump (rs1 \<noteq> rs2)
         else if funct3 = 0b100 then jump (sint rs1 < sint rs2)
         else if funct3 = 0b101 then jump (sint rs1 \<ge> sint rs2)
         else if funct3 = 0b110 then jump (rs1 < rs2)
         else if funct3 = 0b111 then jump (rs1 \<ge> rs2)
         else Some (L_error, set_hart i (vm_set_exception RV_EXC_ILLEGAL_INSN 0 h) e))"

definition L_load :: handler where
  "L_load i insn e =
     do { let h = harts e i;
          (load_value, e) \<leftarrow>
            mmu_load i (x_regs h (decode_rs1 insn) + decode_i insn) (decode_func3 insn) 0 False e;
          if error (harts e i) \<noteq> ERR_NONE then Some (L_error, e)
          else Some (DISPATCH_NEXT, set_hart i (set_dest_idx (decode_rd insn) load_value (harts e i)) e) }"

definition L_store :: handler where
  "L_store i insn e =
     do { let h = harts e i;
          (ok, e) \<leftarrow> mmu_store i (x_regs h (decode_rs1 insn) + decode_s insn) (decode_func3 insn)
                       (x_regs h (decode_rs2 insn)) False e;
          if error (harts e i) \<noteq> ERR_NONE then Some (L_error, e) else Some (DISPATCH_NEXT, e) }"

definition L_misc_mem :: handler where
  "L_misc_mem i insn e =
     (let h = harts e i; funct3 = decode_func3 insn
      in if funct3 = 0b000 then Some (DISPATCH_BREAK, e)
         else if funct3 = 0b001 then Some (DISPATCH_BREAK, set_hart i (vm_fence_i h) e)
         else Some (L_error, set_hart i (vm_set_exception RV_EXC_ILLEGAL_INSN 0 h) e))"

definition L_amo :: handler where
  "L_amo i insn e =
     do { e \<leftarrow> op_amo i (decode_insn insn) e;
          Some (if error (harts e i) \<noteq> ERR_NONE then L_error else DISPATCH_BREAK, e) }"

definition L_system :: handler where
  "L_system i insn e =
     (let (suspended, e) = op_system i (decode_insn insn) e
      in Some (if suspended then Suspended
               else if error (harts e i) \<noteq> ERR_NONE then L_error else DISPATCH_BREAK, e))"

definition L_illegal :: handler where
  "L_illegal i insn e = Some (L_error, set_hart i (vm_set_exception RV_EXC_ILLEGAL_INSN 0 (harts e i)) e)"

definition DISPATCH_PTR :: "u32 \<Rightarrow> handler" where
  "DISPATCH_PTR opcode =
     (let k = opcode AND MASK 7
      in if k = RV32_OP_IMM then L_op_imm
         else if k = RV32_OP then L_op
         else if k = RV32_LUI then L_lui
         else if k = RV32_AUIPC then L_auipc
         else if k = RV32_JAL then L_jal
         else if k = RV32_JALR then L_jalr
         else if k = RV32_BRANCH then L_branch
         else if k = RV32_LOAD then L_load
         else if k = RV32_STORE then L_store
         else if k = RV32_MISC_MEM then L_misc_mem
         else if k = RV32_AMO then L_amo
         else if k = RV32_SYSTEM then L_system
         else L_illegal)"

section \<open>The switch\<close>

text \<open>
  The reference interpretation of one instruction, which compilers without computed \<^verbatim>\<open>goto\<close> use.
  The result is \<^verbatim>\<open>keep_linear\<close>, whether the hart has suspended, and the state.
\<close>

definition vm_execute_insn :: "u32 \<Rightarrow> u32 \<Rightarrow> emu_state_t \<Rightarrow> (bool \<times> bool \<times> emu_state_t) option" where
  "vm_execute_insn i insn e =
     (let h = harts e i; opcode = insn AND MASK 7; funct3 = decode_func3 insn; rd = decode_rd insn;
          rs1 = x_regs h (decode_rs1 insn); rs2 = x_regs h (decode_rs2 insn);
          neg = (insn AND push_bit 30 1 \<noteq> 0);
          put = (\<lambda>h. Some (True, False, set_hart i h e));
          illegal = Some (False, False, set_hart i (vm_set_exception RV_EXC_ILLEGAL_INSN 0 h) e)
      in if opcode = RV32_OP_IMM then
           do { x \<leftarrow> op_rv32i funct3 neg False rs1 (decode_i insn); put (set_dest_idx rd x h) }
         else if opcode = RV32_OP then
           do { x \<leftarrow> (if insn AND push_bit 25 1 = 0 then op_rv32i funct3 neg True rs1 rs2
                       else op_mul funct3 rs1 rs2);
                put (set_dest_idx rd x h) }
         else if opcode = RV32_LUI then put (set_dest_idx rd (decode_u insn) h)
         else if opcode = RV32_AUIPC then put (set_dest_idx rd (decode_u insn + current_pc h) h)
         else if opcode = RV32_JAL then put (op_jump_link rd (decode_j insn + current_pc h) h)
         else if opcode = RV32_JALR then put (op_jump_link rd ((decode_i insn + rs1) AND NOT 1) h)
         else if opcode = RV32_BRANCH then
           (let (taken, h) = op_jmp funct3 rs1 rs2 h
            in put (if taken then do_jump (decode_b insn + current_pc h) h else h))
         else if opcode = RV32_LOAD then
           do { (value, e) \<leftarrow> mmu_load i (rs1 + decode_i insn) funct3 0 False e;
                if error (harts e i) \<noteq> ERR_NONE then Some (False, False, e)
                else Some (True, False, set_hart i (set_dest_idx rd value (harts e i)) e) }
         else if opcode = RV32_STORE then
           do { (ok, e) \<leftarrow> mmu_store i (rs1 + decode_s insn) funct3 rs2 False e;
                Some (error (harts e i) = ERR_NONE, False, e) }
         else if opcode = RV32_MISC_MEM then
           if funct3 = 0b000 \<or> funct3 = 0b001 then Some (False, False, e) else illegal
         else if opcode = RV32_AMO then
           do { e \<leftarrow> op_amo i (decode_insn insn) e; Some (False, False, e) }
         else if opcode = RV32_SYSTEM then Some (False, op_system i (decode_insn insn) e)
         else illegal)"

section \<open>The loop\<close>

text \<open>
  \<^verbatim>\<open>seq_ptr\<close> is a byte offset into the RAM array, like \<open>base\<close> of a block. A fetch ends with the
  instruction and the new \<^verbatim>\<open>seq_ptr\<close>, or with nothing when it has raised an exception.
\<close>

type_synonym fetch = "((u32 \<times> u32 option) option \<times> emu_state_t) option"

definition seq_limit :: "hart_t \<Rightarrow> u32 option \<Rightarrow> u32 option" where
  "seq_limit h seq_ptr = (if pc h AND ICACHE_BLOCK_MASK = 0 then None else seq_ptr)"

definition seq_from_block :: "hart_t \<Rightarrow> u32 option option" where
  "seq_from_block h =
     (case seq_fetch_block h of
        None \<Rightarrow> Some None
      | Some b \<Rightarrow>
          (let offset_words = drop_bit 2 (pc h AND ICACHE_BLOCK_MASK) + 1; max_words = drop_bit 2 ICACHE_BLOCKS_SIZE
           in if offset_words < max_words
              then do { p \<leftarrow> base (icache h b); Some (Some (p + push_bit 2 offset_words)) }
              else Some None))"

text \<open>
  The label \<^verbatim>\<open>L_slow_path\<close> up to the dispatch; the caller has checked \<^verbatim>\<open>executed < steps\<close>. It has
  three parts: the interrupt, the fetch proper, and the step over the instruction.
\<close>

definition take_interrupt :: "u32 \<Rightarrow> emu_state_t \<Rightarrow> (bool \<times> emu_state_t) option" where
  "take_interrupt i e =
     do { let h = harts e i;
          e \<leftarrow> vm_handle_pending_interrupt i (set_hart i (h\<lparr>current_pc := pc h\<rparr>) e);
          let h = harts e i;
          Some (if pc h \<noteq> current_pc h then (True, set_hart i (h\<lparr>current_pc := pc h\<rparr>) e) else (False, e)) }"

definition slow_fetch :: "u32 \<Rightarrow> u32 option \<Rightarrow> u32 \<Rightarrow> emu_state_t \<Rightarrow> fetch" where
  "slow_fetch i seq_ptr insn e =
     (case seq_ptr of
        Some p \<Rightarrow> do { insn \<leftarrow> code_word (emu_ram e) (Some p) 0; Some (Some (insn, Some (p + 4)), e) }
      | None \<Rightarrow>
          do { (insn, e) \<leftarrow> mmu_fetch i (pc (harts e i)) insn e;
               if error (harts e i) \<noteq> ERR_NONE then Some (None, e)
               else do { seq \<leftarrow> seq_from_block (harts e i); Some (Some (insn, seq), e) } })"

definition advance :: "u32 \<Rightarrow> (u32 \<times> u32 option) option \<times> emu_state_t \<Rightarrow> (u32 \<times> u32 option) option \<times> emu_state_t" where
  "advance i = (\<lambda>(r, e).
     case r of
       None \<Rightarrow> (None, e)
     | Some (insn, seq_ptr) \<Rightarrow>
         (let h = harts e i; h = h\<lparr>pc := pc h + 4\<rparr> in (Some (insn, seq_limit h seq_ptr), set_hart i h e)))"

definition L_slow_path :: "u32 \<Rightarrow> u32 option \<Rightarrow> u32 \<Rightarrow> emu_state_t \<Rightarrow> fetch" where
  "L_slow_path i seq_ptr insn e =
     do { (moved, e) \<leftarrow> take_interrupt i e;
          r \<leftarrow> slow_fetch i (if moved then None else seq_ptr) insn e;
          Some (advance i r) }"

definition fetch_next :: "u32 \<Rightarrow> u32 option \<Rightarrow> u32 \<Rightarrow> emu_state_t \<Rightarrow> fetch" where
  "fetch_next i seq_ptr insn e =
     (let h = harts e i; h = h\<lparr>current_pc := pc h\<rparr>
      in case seq_ptr of
           Some p \<Rightarrow>
             do { insn \<leftarrow> code_word (emu_ram e) (Some p) 0;
                  let h = h\<lparr>pc := pc h + 4\<rparr>;
                  Some (Some (insn, seq_limit h (Some (p + 4))), set_hart i h e) }
         | None \<Rightarrow> L_slow_path i None insn (set_hart i h e))"

definition fetch_chain :: "u32 \<Rightarrow> u32 option \<Rightarrow> u32 \<Rightarrow> emu_state_t \<Rightarrow> fetch" where
  "fetch_chain i seq_ptr insn e =
     do { (moved, e) \<leftarrow> take_interrupt i e;
          let h = harts e i;
          let (addr, idx, ofs) = (pc h, icache_idx (pc h), pc h AND ICACHE_BLOCK_MASK);
          let blk = icache h idx;
          if icache_block_valid h blk \<and> tag blk = icache_tag addr then
            do { insn \<leftarrow> code_word (emu_ram e) (base blk) ofs;
                 b \<leftarrow> base blk;
                 let next_ofs = ofs + 4;
                 let (next_pc, seq) = (if next_ofs < ICACHE_BLOCKS_SIZE then (addr + 4, Some (b + next_ofs))
                                       else (0xFFFFFFFF, None));
                 Some (Some (insn, seq),
                       set_hart i (h\<lparr>seq_fetch_block := Some idx, seq_fetch_next_pc := next_pc, pc := pc h + 4\<rparr>) e) }
          else L_slow_path i None insn e }"

definition fetch_after :: "dispatch \<Rightarrow> u32 \<Rightarrow> u32 option \<Rightarrow> u32 \<Rightarrow> emu_state_t \<Rightarrow> fetch" where
  "fetch_after n i seq_ptr insn e =
     (case n of
        DISPATCH_NEXT \<Rightarrow> fetch_next i seq_ptr insn e
      | DISPATCH_CHAIN \<Rightarrow> fetch_chain i seq_ptr insn e
      | _ \<Rightarrow> L_slow_path i None insn e)"

definition retire :: "u32 \<Rightarrow> emu_state_t \<Rightarrow> emu_state_t" where
  "retire i e = set_hart i ((harts e i)\<lparr>instret := instret (harts e i) + 1\<rparr>) e"

text \<open>
  The loop from the dispatch of an instruction on. \<open>togo\<close> is \<^verbatim>\<open>steps - executed - 1\<close>, the number of
  instructions that may follow; the result is whether the hart has suspended, the number
  \<^verbatim>\<open>steps - executed\<close> at that moment, and the state.
\<close>

fun threaded :: "nat \<Rightarrow> u32 \<Rightarrow> u32 option \<Rightarrow> u32 \<Rightarrow> emu_state_t \<Rightarrow> (bool \<times> nat \<times> emu_state_t) option" where
  "threaded togo i seq_ptr insn e =
     do { (n, e) \<leftarrow> DISPATCH_PTR insn i insn e;
          case n of
            L_error \<Rightarrow> Some (False, togo, e)
          | Suspended \<Rightarrow> Some (True, Suc togo, e)
          | _ \<Rightarrow>
              (let e = retire i e
               in case togo of
                    0 \<Rightarrow> Some (False, 0, e)
                  | Suc k \<Rightarrow>
                      do { (r, e) \<leftarrow> fetch_after n i seq_ptr insn e;
                           case r of
                             None \<Rightarrow> Some (False, Suc k, e)
                           | Some (insn, seq_ptr) \<Rightarrow> threaded k i seq_ptr insn e }) }"

declare threaded.simps [simp del]

text \<open>From \<^verbatim>\<open>L_slow_path\<close> with \<open>left\<close> instructions to go.\<close>

definition run_from :: "nat \<Rightarrow> u32 \<Rightarrow> u32 \<Rightarrow> emu_state_t \<Rightarrow> (bool \<times> nat \<times> emu_state_t) option" where
  "run_from left i insn e =
     (case left of
        0 \<Rightarrow> Some (False, 0, e)
      | Suc k \<Rightarrow>
          do { (r, e) \<leftarrow> L_slow_path i None insn e;
               case r of
                 None \<Rightarrow> Some (False, left, e)
               | Some (insn, seq_ptr) \<Rightarrow> threaded k i seq_ptr insn e })"

text \<open>
  The steps are a small positive \<^verbatim>\<open>int\<close> in every call. The number returned by the code is
  \<^verbatim>\<open>steps\<close> minus the second component.
\<close>

definition vm_step_many :: "u32 \<Rightarrow> nat \<Rightarrow> emu_state_t \<Rightarrow> (bool \<times> nat \<times> emu_state_t) option" where
  "vm_step_many i steps e =
     (if hsm_status (harts e i) \<noteq> SBI_HSM_STATE_STARTED \<or> error (harts e i) \<noteq> ERR_NONE
      then Some (False, steps, e) else run_from steps i 0 e)"

text \<open>What follows when the scheduler resumes a hart that \<^verbatim>\<open>WFI\<close> has suspended with \<open>left\<close> instructions to go.\<close>

definition vm_resume :: "u32 \<Rightarrow> nat \<Rightarrow> emu_state_t \<Rightarrow> (bool \<times> nat \<times> emu_state_t) option" where
  "vm_resume i left e =
     (if error (harts e i) \<noteq> ERR_NONE then Some (False, left - 1, e)
      else run_from (left - 1) i 0 (retire i e))"

definition vm_step :: "u32 \<Rightarrow> emu_state_t \<Rightarrow> (bool \<times> nat \<times> emu_state_t) option" where
  "vm_step i e =
     (if hsm_status (harts e i) \<noteq> SBI_HSM_STATE_STARTED then Some (False, 1, e)
      else if error (harts e i) \<noteq> ERR_NONE then Some (False, 1, e)
      else vm_step_many i 1 e)"

end
