(* ===== verification/Run.thy ===== *)
theory Run
  imports Exec
begin

text \<open>
  Properties of the interpreter: the threaded handlers agree with the switch, what a memory access
  and an instruction may change of the machine, and invariants of whole runs.
\<close>

section \<open>The handlers and the switch\<close>

lemma op_imm_tbl_eq: "f < 8 \<Longrightarrow> op_imm_tbl f neg a b = op_rv32i f neg False a b"
  by (drule u8_less_8_cases) (auto simp: op_imm_tbl_def op_rv32i_def)

lemma op_tbl_eq: "f < 8 \<Longrightarrow> op_tbl f neg a b = op_rv32i f neg True a b"
  by (drule u8_less_8_cases) (auto simp: op_tbl_def op_rv32i_def)

lemma set_reg_eq: "set_reg rd x h = set_dest_idx rd x h"
  by (simp add: set_reg_def set_dest_idx_def)

text \<open>How the switch classifies what the threaded interpreter dispatches on.\<close>

definition ends_as :: "u32 \<Rightarrow> bool \<Rightarrow> bool \<Rightarrow> emu_state_t \<Rightarrow> dispatch \<Rightarrow> bool" where
  "ends_as i keep_linear suspended e n \<longleftrightarrow>
     (n = Suspended \<longleftrightarrow> suspended) \<and>
     (\<not> suspended \<longrightarrow>
       (n = L_error \<longleftrightarrow> error (harts e i) \<noteq> ERR_NONE) \<and>
       (n = DISPATCH_BREAK \<longleftrightarrow> error (harts e i) = ERR_NONE \<and> \<not> keep_linear))"

definition agrees :: "u32 \<Rightarrow> u32 \<Rightarrow> emu_state_t \<Rightarrow> handler \<Rightarrow> bool" where
  "agrees i insn e f \<longleftrightarrow>
     (case vm_execute_insn i insn e of
        None \<Rightarrow> f i insn e = None
      | Some (keep_linear, suspended, e') \<Rightarrow> \<exists>n. f i insn e = Some (n, e') \<and> ends_as i keep_linear suspended e' n)"

lemma alu_agrees:
  assumes "error (harts e i) = ERR_NONE"
  shows "insn AND MASK 7 = RV32_OP_IMM \<Longrightarrow> agrees i insn e L_op_imm"
    "insn AND MASK 7 = RV32_OP \<Longrightarrow> agrees i insn e L_op"
    "insn AND MASK 7 = RV32_LUI \<Longrightarrow> agrees i insn e L_lui"
    "insn AND MASK 7 = RV32_AUIPC \<Longrightarrow> agrees i insn e L_auipc"
  using assms
  by (auto simp: agrees_def vm_execute_insn_def L_op_imm_def L_op_def L_lui_def L_auipc_def Let_def
      op_imm_tbl_eq op_tbl_eq decode_func3_less_8 set_reg_eq ends_as_def set_dest_idx_def split: option.splits bind_splits)

lemma jump_agrees:
  assumes "error (harts e i) = ERR_NONE"
  shows "insn AND MASK 7 = RV32_JAL \<Longrightarrow> agrees i insn e L_jal"
    "insn AND MASK 7 = RV32_JALR \<Longrightarrow> agrees i insn e L_jalr"
  using assms
  by (auto simp: agrees_def vm_execute_insn_def L_jal_def L_jalr_def jump_link_chain_def op_jump_link_def Let_def
      ends_as_def set_dest_idx_def)

lemma branch_agrees:
  assumes "error (harts e i) = ERR_NONE" "insn AND MASK 7 = RV32_BRANCH"
  shows "agrees i insn e L_branch"
  using assms u8_less_8_cases [OF decode_func3_less_8 [of insn]]
  by (auto simp: agrees_def L_branch_def vm_execute_insn_def op_jmp_def do_jump_def Let_def ends_as_def set_hart_def
      vm_set_exception_def)

lemma memory_agrees:
  assumes "error (harts e i) = ERR_NONE"
  shows "insn AND MASK 7 = RV32_LOAD \<Longrightarrow> agrees i insn e L_load"
    "insn AND MASK 7 = RV32_STORE \<Longrightarrow> agrees i insn e L_store"
  using assms
  by (auto simp: agrees_def vm_execute_insn_def L_load_def L_store_def Let_def ends_as_def set_dest_idx_def
      split: option.splits bind_splits)

lemma misc_agrees:
  assumes "error (harts e i) = ERR_NONE"
  shows "insn AND MASK 7 = RV32_MISC_MEM \<Longrightarrow> decode_func3 insn \<noteq> 1 \<Longrightarrow> agrees i insn e L_misc_mem"
    "insn AND MASK 7 = RV32_AMO \<Longrightarrow> agrees i insn e L_amo"
    "insn AND MASK 7 = RV32_SYSTEM \<Longrightarrow> agrees i insn e L_system"
  using assms
  by (auto simp: agrees_def vm_execute_insn_def L_misc_mem_def L_amo_def L_system_def Let_def ends_as_def
      split: option.splits bind_splits prod.splits)

lemma illegal_agrees:
  assumes "error (harts e i) = ERR_NONE"
    and "insn AND MASK 7 \<notin> {RV32_OP_IMM, RV32_OP, RV32_LUI, RV32_AUIPC, RV32_JAL, RV32_JALR, RV32_BRANCH,
      RV32_LOAD, RV32_STORE, RV32_MISC_MEM, RV32_AMO, RV32_SYSTEM}"
  shows "agrees i insn e L_illegal"
  using assms by (simp add: agrees_def vm_execute_insn_def L_illegal_def Let_def ends_as_def)

lemmas handlers_agree = alu_agrees jump_agrees branch_agrees memory_agrees misc_agrees illegal_agrees

lemma dispatch_agrees:
  assumes "error (harts e i) = ERR_NONE"
    and "\<not> (insn AND MASK 7 = RV32_MISC_MEM \<and> decode_func3 insn = 1)"
  shows "agrees i insn e (DISPATCH_PTR insn)"
  using handlers_agree [OF assms(1), where insn = insn] assms(2) unfolding DISPATCH_PTR_def Let_def
  by (simp split: if_split)

section \<open>What a memory access leaves alone\<close>

text \<open>
  The part of a hart that no memory access and no fetch changes: everything but the caches, the
  pending exception, the reservation, the interrupt lines and the wait flag.
\<close>

definition core where
  "core h =
     ((x_regs h, pc h, current_pc h, instret h, time h),
      (s_mode h, sstatus_sie h, sstatus_spp h, sstatus_spie h, sstatus_mxr h, sstatus_sum h, sie h),
      (sepc h, scause h, stval h, stvec_addr h, stvec_vectored h, sscratch h, scounteren h, satp h, page_table h),
      (mhartid h, hsm_status h, hsm_resume_is_ret h, hsm_resume_pc h, hsm_resume_opaque h, ram_base h, ram_size h))"

lemma core_update [simp]:
  "core (h\<lparr>error := a0\<rparr>) = core h" "core (h\<lparr>exc_cause := a1\<rparr>) = core h" "core (h\<lparr>exc_val := a1\<rparr>) = core h"
  "core (h\<lparr>lr_reservation := a1\<rparr>) = core h" "core (h\<lparr>sip := a1\<rparr>) = core h" "core (h\<lparr>in_wfi := a2\<rparr>) = core h"
  "core (h\<lparr>cache_load := a3\<rparr>) = core h" "core (h\<lparr>cache_store := a3\<rparr>) = core h"
  "core (h\<lparr>cache_fetch := a4\<rparr>) = core h" "core (h\<lparr>icache := a5\<rparr>) = core h"
  "core (h\<lparr>seq_fetch_block := a6\<rparr>) = core h" "core (h\<lparr>seq_fetch_next_pc := a1\<rparr>) = core h"
  "core (h\<lparr>icache_epoch := a1\<rparr>) = core h"
  "core (h\<lparr>cache_load_last_vpn := a1\<rparr>) = core h" "core (h\<lparr>cache_load_last_phys_ppn := a1\<rparr>) = core h"
  "core (h\<lparr>cache_load_last_data_minus_addr := a7\<rparr>) = core h" "core (h\<lparr>cache_store_last_vpn := a1\<rparr>) = core h"
  "core (h\<lparr>cache_store_last_phys_ppn := a1\<rparr>) = core h" "core (h\<lparr>cache_store_last_data_minus_addr := a7\<rparr>) = core h"
  "core (h\<lparr>ram_load_last_page := a1\<rparr>) = core h" "core (h\<lparr>ram_load_last_ptr := a6\<rparr>) = core h"
  "core (h\<lparr>ram_store_last_page := a1\<rparr>) = core h" "core (h\<lparr>ram_store_last_ptr := a6\<rparr>) = core h"
  by (simp_all add: core_def)

lemma core_ops [simp]:
  "core (vm_set_exception c v h) = core h" "core (drop_reservation p h) = core h"
  "core (put_set st k x h) = core h" "core (put_last st a b d h) = core h"
  "core (snd (ram_cache_lookup p st h)) = core h" "core (snd (ram_data_minus_addr hb g p st h)) = core h"
  "core (snd (tlb_hit st sp a w h)) = core h" "core (tlb_fill st hb a p h) = core h"
proof -
  show "core (vm_set_exception c v h) = core h" "core (drop_reservation p h) = core h"
    and put: "core (put_set st k x h) = core h" "core (put_last st a b d h) = core h" for c v p st k x a b d h
    by (simp_all add: vm_set_exception_def drop_reservation_def put_set_def put_last_def)
  show look: "core (snd (ram_cache_lookup p st h)) = core h" for p st h
    by (simp add: ram_cache_lookup_def Let_def split: option.split)
  show dma: "core (snd (ram_data_minus_addr hb g p st h)) = core h" for hb g p st h
    using look [of p st h] by (auto simp: ram_data_minus_addr_def split: prod.split option.split)
  show "core (snd (tlb_hit st sp a w h)) = core h" by (simp add: tlb_hit_def Let_def put)
  show "core (tlb_fill st hb a p h) = core h"
    using dma [of hb a p st h] by (auto simp: tlb_fill_def Let_def put split: prod.split)
qed

lemma core_raises: "raises h h' \<Longrightarrow> core h' = core h"
  by (auto simp: raises_def)

lemma core_bus: "bus_frame h h' \<Longrightarrow> core h' = core h"
  unfolding bus_frame_def by (erule ssubst) simp

text \<open>The same for the whole machine: no hart's core changes, and no global flag of the emulator.\<close>

definition quiet :: "emu_state_t \<Rightarrow> emu_state_t \<Rightarrow> bool" where
  "quiet e e' \<longleftrightarrow>
     (\<forall>j. core (harts e' j) = core (harts e j)) \<and> n_hart e' = n_hart e \<and> stopped e' = stopped e \<and>
     host_base e' = host_base e \<and> coro_hart e' = coro_hart e \<and>
     peripheral_update_ctr e' = peripheral_update_ctr e"

lemma quiet_refl [simp, intro]: "quiet e e"
  by (simp add: quiet_def)

lemma quiet_trans [trans]: "quiet e e1 \<Longrightarrow> quiet e1 e2 \<Longrightarrow> quiet e e2"
  by (simp add: quiet_def)

lemma quiet_bus: "emu_frame_of e e' \<Longrightarrow> quiet e e'"
  using core_bus by (auto simp: emu_frame_of_def quiet_def)

lemma quiet_set_hart:
  "core h = core (harts e i) \<Longrightarrow> quiet e (set_hart i h e)"
  "core h = core (harts e i) \<Longrightarrow> quiet e (set_hart i h (e\<lparr>emu_ram := mem\<rparr>))"
  "quiet e (e\<lparr>emu_ram := mem\<rparr>)"
  by (auto simp: quiet_def set_hart_def)

lemma quiet_reservations: "quiet e (clear_reservations i p e)"
  by (auto simp: quiet_def clear_reservations_def set_hart_def
      for_upto_pointwise [where f = "\<lambda>_ h. drop_reservation p h"])

lemma core_mem_ops:
  "fast_read mem lane cell w v h = Some (v', h') \<Longrightarrow> core h' = core h"
  "fast_write mem lane cell w v h = Some (mem', h') \<Longrightarrow> core h' = core h"
  "mmu_translate mem h a ab sb sk f pf = Some (p, mem', h') \<Longrightarrow> core h' = core h"
  subgoal by (auto simp: fast_read_def Let_def split: if_splits bind_splits)
  subgoal by (auto simp: fast_write_def Let_def split: if_splits bind_splits)
  subgoal by (auto simp: mmu_translate_def Let_def split: if_splits bind_splits option.splits)
  done

lemma core_resolve:
  assumes "mmu_resolve st special hb mem h a = Some (r, mem', h')"
  shows "core h' = core h"
proof -
  have hit: "core h2 = core h1" if "tlb_hit st special a w h1 = (r, h2)" for st w h1 r h2
    using core_ops(7) [of st special a w h1] that by simp
  have walk: "core h2 = core h1" if "translate_for k mem h1 a = Some (p, mem', h2)" for k h1 p mem' h2
    using that by (auto simp: translate_for_eq dest: core_mem_ops)
  show ?thesis
    using assms
    by (auto simp: mmu_resolve_def Let_def dest!: hit walk split: if_splits option.splits prod.splits bind_splits)
qed

lemma quiet_load:
  assumes "mmu_load i a w v reserved e = Some (v', e')"
  shows "quiet e e'"
proof -
  obtain r mem h where r: "mmu_resolve False reserved (host_base e) (emu_ram e) (harts e i) a = Some (r, mem, h)"
    using assms by (auto simp: mmu_load_def split: bind_splits)
  have h: "core h = core (harts e i)" using core_resolve [OF r] .
  have put: "quiet e (set_hart i h' (e\<lparr>emu_ram := mem\<rparr>))" if "core h' = core h" for h'
    using that h by (intro quiet_set_hart) simp
  show ?thesis
  proof (cases r)
    case (Host a2 p)
    then show ?thesis
      using assms put by (auto simp: mmu_load_def r ram_read_host_fast_def dest: core_mem_ops split: bind_splits)
  next
    case (Phys p)
    obtain q h2 where q: "ram_cache_lookup p False h = (q, h2)" by fastforce
    have h2: "core h2 = core h" using core_ops(5) [of p False h] q by simp
    show ?thesis
    proof (cases q)
      case None
      then obtain v2 e2 where l: "mem_load i p w v (set_hart i h2 (e\<lparr>emu_ram := mem\<rparr>)) = Some (v2, e2)"
        using assms Phys by (auto simp: mmu_load_def r q split: bind_splits)
      have "quiet e e2" using quiet_trans [OF put [OF h2] quiet_bus] mem_load_frame [OF l] by blast
      moreover have "quiet e2 (set_hart i ((harts e2 i)\<lparr>lr_reservation := p OR 1\<rparr>) e2)"
        by (intro quiet_set_hart) simp
      moreover have "e' = e2 \<or> e' = set_hart i ((harts e2 i)\<lparr>lr_reservation := p OR 1\<rparr>) e2"
        using assms Phys None l by (auto simp: mmu_load_def r q Let_def split: if_splits)
      ultimately show ?thesis using quiet_trans by blast
    next
      case (Some ptr)
      then show ?thesis
        using put h2 assms Phys
        by (auto simp: mmu_load_def r q ram_read_fast_def Let_def dest!: core_mem_ops split: if_splits bind_splits)
    qed
  next
    case Fault
    then show ?thesis using assms put by (auto simp: mmu_load_def r)
  qed
qed

lemma quiet_do_store:
  assumes "do_store i ha p w v cond e = Some (ok, e')"
  shows "quiet e e'"
proof (cases "cond \<and> lr_reservation (harts e i) \<noteq> p OR 1")
  case True
  then show ?thesis using assms by (simp add: do_store_def)
next
  case False
  let ?e = "clear_reservations i p e"
  have put: "quiet e (set_hart i h' (?e\<lparr>emu_ram := mem\<rparr>))" "quiet e (set_hart i h' ?e)"
    if "core h' = core (harts ?e i)" for h' mem
    using that quiet_trans [OF quiet_reservations] quiet_set_hart by blast+
  show ?thesis
  proof (cases ha)
    case (Some a)
    then show ?thesis
      using assms False put by (auto simp: do_store_def ram_write_host_fast_def Let_def dest: core_mem_ops split: bind_splits)
  next
    case None
    obtain q h2 where q: "ram_cache_lookup p True (harts ?e i) = (q, h2)" by fastforce
    have h2: "core h2 = core (harts ?e i)" using core_ops(5) [of p True "harts ?e i"] q by simp
    show ?thesis
    proof (cases q)
      case None
      then have "mem_store i p w v (set_hart i h2 ?e) = Some e'"
        using assms False \<open>ha = None\<close> by (auto simp: do_store_def q Let_def split: bind_splits)
      then show ?thesis using quiet_trans [OF put(2) [OF h2] quiet_bus] mem_store_frame by blast
    next
      case (Some ptr)
      then show ?thesis
        using assms False None put h2
        by (auto simp: do_store_def q ram_write_fast_def Let_def dest!: core_mem_ops split: bind_splits)
    qed
  qed
qed

lemma quiet_store:
  assumes "mmu_store i a w v cond e = Some (ok, e')"
  shows "quiet e e'"
proof -
  obtain r mem h where r: "mmu_resolve True cond (host_base e) (emu_ram e) (harts e i) a = Some (r, mem, h)"
    using assms by (auto simp: mmu_store_def split: bind_splits)
  have "quiet e (set_hart i h (e\<lparr>emu_ram := mem\<rparr>))" using core_resolve [OF r] by (intro quiet_set_hart) simp
  then show ?thesis
    using assms quiet_trans quiet_do_store by (cases r) (fastforce simp: mmu_store_def r)+
qed

lemma core_fetch_fill: "fetch_fill mem k idx tg a h = Some (v, h') \<Longrightarrow> core h' = core h"
  by (auto simp: fetch_fill_def Let_def split: bind_splits)

lemma quiet_fetch:
  assumes "mmu_fetch i a v e = Some (v', e')"
  shows "quiet e e'"
proof -
  let ?h = "harts e i" and ?idx = "icache_idx a" and ?k = "fetch_index (drop_bit 12 a)"
  consider (seq) b where "seq_fetch_hit ?h a = Some b"
    | (block) "seq_fetch_hit ?h a = None" "icache_block_valid ?h (icache ?h ?idx) \<and> tag (icache ?h ?idx) = icache_tag a"
    | (tlb) "seq_fetch_hit ?h a = None" "\<not> (icache_block_valid ?h (icache ?h ?idx) \<and> tag (icache ?h ?idx) = icache_tag a)"
        "drop_bit 12 a = fc_n_pages (cache_fetch ?h ?k)"
    | (walk) "seq_fetch_hit ?h a = None" "\<not> (icache_block_valid ?h (icache ?h ?idx) \<and> tag (icache ?h ?idx) = icache_tag a)"
        "drop_bit 12 a \<noteq> fc_n_pages (cache_fetch ?h ?k)"
    by (cases "seq_fetch_hit ?h a") auto
  then show ?thesis
  proof cases
    case seq
    then show ?thesis using assms by (auto simp: mmu_fetch_def Let_def split: bind_splits intro!: quiet_set_hart)
  next
    case block
    then show ?thesis using assms by (auto simp: mmu_fetch_def Let_def split: bind_splits intro!: quiet_set_hart)
  next
    case tlb
    then show ?thesis
      using assms by (auto simp: mmu_fetch_def Let_def split: bind_splits intro!: quiet_set_hart dest!: core_fetch_fill)
  next
    case walk
    obtain p mem h where t: "translate_for Fetching (emu_ram e) ?h a = Some (p, mem, h)"
      using assms walk by (auto simp: mmu_fetch_def Let_def split: bind_splits)
    then have "core h = core ?h" by (auto simp: translate_for_eq dest: core_mem_ops)
    then have put: "quiet e (set_hart i h' (e\<lparr>emu_ram := mem\<rparr>))" if "core h' = core h" for h'
      using that by (intro quiet_set_hart) simp
    show ?thesis
      using assms walk put
      by (auto simp: mmu_fetch_def Let_def t mem_fetch_def split: bind_splits if_splits dest!: core_fetch_fill)
  qed
qed

section \<open>What an instruction may change\<close>

text \<open>The registers that only supervisor mode and traps may change.\<close>

definition privileged where
  "privileged h =
     ((satp h, page_table h, stvec_addr h, stvec_vectored h, sstatus_sum h, sstatus_mxr h),
      (sepc h, scause h, stval h, sscratch h, scounteren h, sie h))"

definition fixed_part where
  "fixed_part h =
     (current_pc h, instret h, time h, x_regs h 0,
      mhartid h, hsm_status h, hsm_resume_is_ret h, hsm_resume_pc h, hsm_resume_opaque h, ram_base h, ram_size h)"

definition hart_effect :: "hart_t \<Rightarrow> hart_t \<Rightarrow> bool" where
  "hart_effect h h' \<longleftrightarrow>
     fixed_part h' = fixed_part h \<and> (mode_ok h \<longrightarrow> mode_ok h') \<and>
     (mode_ok h \<and> \<not> s_mode h \<longrightarrow> \<not> s_mode h' \<and> privileged h' = privileged h)"

definition insn_effect :: "u32 \<Rightarrow> emu_state_t \<Rightarrow> emu_state_t \<Rightarrow> bool" where
  "insn_effect i e e' \<longleftrightarrow>
     hart_effect (harts e i) (harts e' i) \<and> (\<forall>j. j \<noteq> i \<longrightarrow> core (harts e' j) = core (harts e j)) \<and>
     n_hart e' = n_hart e \<and> stopped e' = stopped e \<and> host_base e' = host_base e \<and> coro_hart e' = coro_hart e \<and>
     peripheral_update_ctr e' = peripheral_update_ctr e"

lemma core_parts:
  assumes "core h' = core h"
  shows "fixed_part h' = fixed_part h" "mode_ok h' = mode_ok h" "s_mode h' = s_mode h" "privileged h' = privileged h"
  using assms by (simp_all add: core_def fixed_part_def mode_ok_def privileged_def)

lemma quiet_effect: "quiet e e' \<Longrightarrow> insn_effect i e e'"
  using core_parts [of "harts e' i" "harts e i"] by (simp add: quiet_def insn_effect_def hart_effect_def)

lemma hart_effect_trans: "hart_effect h h1 \<Longrightarrow> hart_effect h1 h2 \<Longrightarrow> hart_effect h h2"
  unfolding hart_effect_def by presburger

lemma insn_effect_trans:
  "insn_effect i e e1 \<Longrightarrow> insn_effect i e1 e2 \<Longrightarrow> insn_effect i e e2"
  unfolding insn_effect_def using hart_effect_trans [of "harts e i" "harts e1 i" "harts e2 i"] by simp

lemma effect_set_hart: "hart_effect (harts e i) h \<Longrightarrow> insn_effect i e (set_hart i h e)"
  by (simp add: insn_effect_def set_hart_def)

lemma hart_effect_simps [simp]:
  "hart_effect h h" "hart_effect h (vm_set_exception c v h)" "hart_effect h (set_dest_idx rd x h)"
  "hart_effect h (h\<lparr>pc := a\<rparr>)" "hart_effect h ((set_dest_idx rd x h)\<lparr>pc := a\<rparr>)"
  by (simp_all add: hart_effect_def fixed_part_def mode_ok_def privileged_def vm_set_exception_def set_dest_idx_def)

lemma quiet_then: "quiet e e1 \<Longrightarrow> hart_effect (harts e1 i) h \<Longrightarrow> insn_effect i e (set_hart i h e1)"
  using insn_effect_trans quiet_effect effect_set_hart by blast

lemma fixed_part_update [simp]:
  "fixed_part (h\<lparr>pc := a0\<rparr>) = fixed_part h" "fixed_part (h\<lparr>error := a1\<rparr>) = fixed_part h"
  "fixed_part (h\<lparr>exc_cause := a2\<rparr>) = fixed_part h" "fixed_part (h\<lparr>exc_val := a3\<rparr>) = fixed_part h"
  "fixed_part (h\<lparr>in_wfi := a4\<rparr>) = fixed_part h" "fixed_part (h\<lparr>s_mode := a5\<rparr>) = fixed_part h"
  "fixed_part (h\<lparr>sstatus_sie := a6\<rparr>) = fixed_part h" "fixed_part (h\<lparr>sstatus_spp := a7\<rparr>) = fixed_part h"
  "fixed_part (h\<lparr>sstatus_spie := a8\<rparr>) = fixed_part h" "fixed_part (h\<lparr>sstatus_mxr := a9\<rparr>) = fixed_part h"
  "fixed_part (h\<lparr>sstatus_sum := a10\<rparr>) = fixed_part h" "fixed_part (h\<lparr>sie := a11\<rparr>) = fixed_part h"
  "fixed_part (h\<lparr>sip := a12\<rparr>) = fixed_part h" "fixed_part (h\<lparr>sepc := a13\<rparr>) = fixed_part h"
  "fixed_part (h\<lparr>scause := a14\<rparr>) = fixed_part h" "fixed_part (h\<lparr>stval := a15\<rparr>) = fixed_part h"
  "fixed_part (h\<lparr>stvec_addr := a16\<rparr>) = fixed_part h" "fixed_part (h\<lparr>stvec_vectored := a17\<rparr>) = fixed_part h"
  "fixed_part (h\<lparr>sscratch := a18\<rparr>) = fixed_part h" "fixed_part (h\<lparr>scounteren := a19\<rparr>) = fixed_part h"
  "fixed_part (h\<lparr>satp := a20\<rparr>) = fixed_part h" "fixed_part (h\<lparr>page_table := a21\<rparr>) = fixed_part h"
  by (simp_all add: fixed_part_def)

lemma fixed_part_ops [simp]:
  "fixed_part (set_dest_idx rd x h) = fixed_part h" "fixed_part (vm_set_exception c v h) = fixed_part h"
  "fixed_part (mmu_invalidate h) = fixed_part h"
  by (simp_all add: fixed_part_def set_dest_idx_def vm_set_exception_def)

lemma fixed_part_csr_write [simp]: "fixed_part (csr_write a v h) = fixed_part h"
  by (simp add: csr_write_def Let_def mmu_set_def split: option.split)

lemma system_fixed:
  assumes "system_effect h h'"
  shows "fixed_part h' = fixed_part h"
proof -
  have r: "fixed_part h2 = fixed_part h" if "csr_read csr x c h = (v, c', h2)" for csr x c v c' h2 h
    using csr_read_hart [OF that] by auto
  from assms show ?thesis
  proof (induction rule: system_effect.induct)
    case (sret clock)
    show ?case by (simp add: op_sret_def Let_def)
  next
    case (wait wf)
    show ?case by simp
  next
    case (csr_rw rd csr x clock)
    show ?case by (auto simp: op_csr_rw_def dest!: r split: prod.split)
  next
    case (csr_cs rd rs1 csr s cl clock)
    show ?case by (auto simp: op_csr_cs_def Let_def dest!: r split: prod.split)
  qed (simp_all add: mmu_fence_def)
qed

lemma system_insn_effect:
  assumes "op_system i d e = (y, e')"
  shows "insn_effect i e e'"
proof -
  have eff: "only_hart i e e'" "system_effect (harts e i) (harts e' i)" using op_system_effect [OF assms] by auto
  have "privileged (harts e' i) = privileged (harts e i)" if "supervisor_state (harts e' i) = supervisor_state (harts e i)"
    using that by (simp add: supervisor_state_def privileged_def)
  then have "hart_effect (harts e i) (harts e' i)"
    using system_fixed [OF eff(2)] system_effect_mode [OF eff(2)] by (auto simp: hart_effect_def)
  then show ?thesis using eff(1) by (auto simp: insn_effect_def elim: only_hartE)
qed

lemma amo_effect:
  assumes "op_amo i d e = Some e'"
  shows "insn_effect i e e'"
proof -
  have raise: "insn_effect i e (set_hart i (vm_set_exception c v (harts e i)) e)" for c v
    by (intro effect_set_hart) simp
  have amo: "insn_effect i e e'" if amo: "AMO_OP i d a f e = Some e'" for a f
  proof -
    obtain v e1 where l: "mmu_load i a RV_MEM_LW 0 False e = Some (v, e1)"
      using amo by (auto simp: AMO_OP_def split: bind_splits)
    show ?thesis
    proof (cases "error (harts e1 i) = ERR_NONE")
      case True
      let ?e2 = "set_hart i (set_dest_idx (decoded_rd d) v (harts e1 i)) e1"
      have "insn_effect i e ?e2" using quiet_load [OF l] by (intro quiet_then) simp_all
      moreover have "insn_effect i ?e2 e'"
        using amo True quiet_effect [OF quiet_store] by (auto simp: AMO_OP_def l Let_def split: bind_splits)
      ultimately show ?thesis by (rule insn_effect_trans)
    next
      case False
      then show ?thesis using amo quiet_effect [OF quiet_load [OF l]] by (simp add: AMO_OP_def l Let_def)
    qed
  qed
  show ?thesis
    using assms raise amo
    by (auto simp: op_amo_def Let_def dest!: quiet_load quiet_store split: if_splits bind_splits)
      (blast intro: quiet_effect quiet_then hart_effect_simps)+
qed

lemma memory_effect:
  "L_load i insn e = Some (n, e') \<Longrightarrow> insn_effect i e e'"
  "L_store i insn e = Some (n, e') \<Longrightarrow> insn_effect i e e'"
  by (auto simp: L_load_def L_store_def Let_def dest!: quiet_load quiet_store split: if_splits bind_splits)
    (blast intro: quiet_effect quiet_then hart_effect_simps)+

lemma register_effect:
  "L_op_imm i insn e = Some (n, e') \<Longrightarrow> insn_effect i e e'"
  "L_op i insn e = Some (n, e') \<Longrightarrow> insn_effect i e e'"
  "L_lui i insn e = Some (n, e') \<Longrightarrow> insn_effect i e e'"
  "L_auipc i insn e = Some (n, e') \<Longrightarrow> insn_effect i e e'"
  by (auto simp: L_op_imm_def L_op_def L_lui_def L_auipc_def Let_def set_reg_eq
      intro!: effect_set_hart split: if_splits bind_splits)

lemma jump_effect:
  "L_jal i insn e = Some (n, e') \<Longrightarrow> insn_effect i e e'"
  "L_jalr i insn e = Some (n, e') \<Longrightarrow> insn_effect i e e'"
  "L_branch i insn e = Some (n, e') \<Longrightarrow> insn_effect i e e'"
proof -
  have "insn_effect i e e'" if "jump_link_chain i rd a e = Some (n, e')" for rd a
  proof -
    have "e' = set_hart i (op_jump_link rd a (harts e i)) e"
      using that by (auto simp: jump_link_chain_def op_jump_link_def set_dest_idx_def Let_def split: if_splits)
    then show ?thesis by (auto simp: op_jump_link_def intro: effect_set_hart)
  qed
  then show "L_jal i insn e = Some (n, e') \<Longrightarrow> insn_effect i e e'"
    "L_jalr i insn e = Some (n, e') \<Longrightarrow> insn_effect i e e'"
    by (auto simp: L_jal_def L_jalr_def)
  show "L_branch i insn e = Some (n, e') \<Longrightarrow> insn_effect i e e'"
    using quiet_effect [OF quiet_refl]
    by (auto simp: L_branch_def do_jump_def Let_def intro!: effect_set_hart split: if_splits)
qed

lemma misc_effect:
  "L_misc_mem i insn e = Some (n, e') \<Longrightarrow> insn_effect i e e'"
  "L_amo i insn e = Some (n, e') \<Longrightarrow> insn_effect i e e'"
  "L_system i insn e = Some (n, e') \<Longrightarrow> insn_effect i e e'"
  "L_illegal i insn e = Some (n, e') \<Longrightarrow> insn_effect i e e'"
proof -
  have "core (vm_fence_i h) = core h" for h by (simp add: vm_fence_i_def invalidate_icache_all)
  then show "L_misc_mem i insn e = Some (n, e') \<Longrightarrow> insn_effect i e e'"
    by (auto simp: L_misc_mem_def Let_def intro!: quiet_effect quiet_set_hart split: if_splits)
qed (auto simp: L_amo_def L_system_def L_illegal_def intro: amo_effect system_insn_effect effect_set_hart
      split: bind_splits prod.splits)

lemma dispatch_effect:
  assumes "DISPATCH_PTR insn i insn e = Some (n, e')"
  shows "insn_effect i e e'"
proof -
  have "DISPATCH_PTR insn \<in> {L_op_imm, L_op, L_lui, L_auipc, L_jal, L_jalr, L_branch, L_load, L_store, L_misc_mem,
      L_amo, L_system, L_illegal}"
    by (simp add: DISPATCH_PTR_def Let_def)
  then show ?thesis
    using assms by (auto dest: register_effect jump_effect memory_effect misc_effect)
qed

section \<open>Runs\<close>

text \<open>
  Between two instructions a hart takes interrupts and fetches. What a whole run keeps: the other
  harts' cores, the identity and the state of the hart, \<open>x0\<close>, and the condition on the modes.
\<close>

definition run_part where
  "run_part h =
     (time h, x_regs h 0, mhartid h, hsm_status h, hsm_resume_is_ret h, hsm_resume_pc h, hsm_resume_opaque h,
      ram_base h, ram_size h)"

definition run_effect :: "u32 \<Rightarrow> emu_state_t \<Rightarrow> emu_state_t \<Rightarrow> bool" where
  "run_effect i e e' \<longleftrightarrow>
     run_part (harts e' i) = run_part (harts e i) \<and> (mode_ok (harts e i) \<longrightarrow> mode_ok (harts e' i)) \<and>
     (\<forall>j. j \<noteq> i \<longrightarrow> core (harts e' j) = core (harts e j)) \<and>
     n_hart e' = n_hart e \<and> stopped e' = stopped e \<and> host_base e' = host_base e \<and> coro_hart e' = coro_hart e \<and>
     peripheral_update_ctr e' = peripheral_update_ctr e"

lemma run_effect_refl [simp]: "run_effect i e e"
  by (simp add: run_effect_def)

lemma run_effect_trans: "run_effect i e e1 \<Longrightarrow> run_effect i e1 e2 \<Longrightarrow> run_effect i e e2"
  by (simp add: run_effect_def)

lemma insn_run_effect: "insn_effect i e e' \<Longrightarrow> run_effect i e e'"
  by (simp add: insn_effect_def hart_effect_def run_effect_def fixed_part_def run_part_def)

lemma run_effect_hart:
  "run_part h = run_part (harts e i) \<Longrightarrow> mode_ok h = mode_ok (harts e i) \<Longrightarrow> run_effect i e (set_hart i h e)"
  by (simp add: run_effect_def set_hart_def)

lemma run_part_update [simp]:
  "run_part (h\<lparr>pc := a\<rparr>) = run_part h" "run_part (h\<lparr>current_pc := a\<rparr>) = run_part h"
  "run_part (h\<lparr>instret := b\<rparr>) = run_part h" "run_part (h\<lparr>seq_fetch_next_pc := a\<rparr>) = run_part h"
  "run_part (h\<lparr>seq_fetch_block := c\<rparr>) = run_part h"
  "mode_ok (h\<lparr>pc := a\<rparr>) = mode_ok h" "mode_ok (h\<lparr>current_pc := a\<rparr>) = mode_ok h"
  "mode_ok (h\<lparr>instret := b\<rparr>) = mode_ok h" "mode_ok (h\<lparr>seq_fetch_next_pc := a\<rparr>) = mode_ok h"
  "mode_ok (h\<lparr>seq_fetch_block := c\<rparr>) = mode_ok h"
  by (simp_all add: run_part_def mode_ok_def)

lemma trap_run: "run_part (hart_trap h) = run_part h" "mode_ok (hart_trap h)" "instret (hart_trap h) = instret h"
  "error (hart_trap h) = ERR_NONE"
  by (simp_all add: hart_trap_def Let_def run_part_def mode_ok_def)

lemma interrupt_effect:
  assumes "vm_handle_pending_interrupt i e = Some e'"
  shows "run_effect i e e'" "instret (harts e' i) = instret (harts e i)"
    "error (harts e i) = ERR_NONE \<Longrightarrow> error (harts e' i) = ERR_NONE"
proof -
  have part: "run_part (h\<lparr>exc_cause := c, stval := v\<rparr>) = run_part h" for h c v by (simp add: run_part_def)
  show "run_effect i e e'"
    using assms
    by (auto simp: vm_handle_pending_interrupt_def Let_def run_effect_def set_hart_def trap_run part split: if_splits)
  show "instret (harts e' i) = instret (harts e i)"
    "error (harts e i) = ERR_NONE \<Longrightarrow> error (harts e' i) = ERR_NONE"
    using assms by (auto simp: vm_handle_pending_interrupt_def Let_def trap_run split: if_splits)
qed

text \<open>A fetch ends with an instruction and no exception pending, or with neither.\<close>

definition fetch_effect :: "u32 \<Rightarrow> emu_state_t \<Rightarrow> (u32 \<times> u32 option) option \<Rightarrow> emu_state_t \<Rightarrow> bool" where
  "fetch_effect i e r e' \<longleftrightarrow>
     run_effect i e e' \<and> instret (harts e' i) = instret (harts e i) \<and>
     (error (harts e i) = ERR_NONE \<longrightarrow> (error (harts e' i) = ERR_NONE \<longleftrightarrow> r \<noteq> None))"

lemma fetch_insn_effect:
  assumes "mmu_fetch i a v e = Some (v', e')"
  shows "run_effect i e e' \<and> instret (harts e' i) = instret (harts e i)"
proof -
  have "core (harts e' i) = core (harts e i)" using quiet_fetch [OF assms] by (simp add: quiet_def)
  then show ?thesis using insn_run_effect [OF quiet_effect [OF quiet_fetch [OF assms]]] by (simp add: core_def)
qed

lemma current_pc_effect: "run_effect i e (set_hart i ((harts e i)\<lparr>current_pc := a\<rparr>) e)"
  by (intro run_effect_hart) simp_all

lemma fetch_effect_trans:
  "fetch_effect i e (Some x) e1 \<Longrightarrow> fetch_effect i e1 r e2 \<Longrightarrow> fetch_effect i e r e2"
  using run_effect_trans [of i e e1 e2] by (auto simp: fetch_effect_def)

lemma take_interrupt_effect:
  assumes "take_interrupt i e = Some (moved, e')"
  shows "fetch_effect i e (Some x) e'" "current_pc (harts e' i) = pc (harts e' i)"
proof -
  let ?e0 = "set_hart i ((harts e i)\<lparr>current_pc := pc (harts e i)\<rparr>) e"
  obtain e1 where e1: "vm_handle_pending_interrupt i ?e0 = Some e1"
    and e': "e' = set_hart i ((harts e1 i)\<lparr>current_pc := pc (harts e1 i)\<rparr>) e1 \<or>
      e' = e1 \<and> pc (harts e1 i) = current_pc (harts e1 i)"
    using assms by (auto simp: take_interrupt_def Let_def split: bind_splits if_splits)
  have "run_effect i e e1" using interrupt_effect(1) [OF e1] current_pc_effect run_effect_trans by blast
  then have "run_effect i e e'" using e' current_pc_effect run_effect_trans by blast
  then show "fetch_effect i e (Some x) e'" "current_pc (harts e' i) = pc (harts e' i)"
    using e' interrupt_effect(2,3) [OF e1] by (auto simp: fetch_effect_def)
qed

lemma slow_fetch_effect: "slow_fetch i seq insn e = Some (r, e') \<Longrightarrow> fetch_effect i e r e'"
  using fetch_insn_effect
  by (auto simp: slow_fetch_def fetch_effect_def split: option.splits bind_splits if_splits)

lemma advance_effect: "fetch_effect i e r e1 \<Longrightarrow> advance i (r, e1) = (r2, e2) \<Longrightarrow> fetch_effect i e r2 e2"
  using run_effect_hart [of "(harts e1 i)\<lparr>pc := pc (harts e1 i) + 4\<rparr>" e1 i] run_effect_trans [of i e e1]
  by (auto simp: advance_def fetch_effect_def Let_def split: option.splits)

lemma slow_path_effect:
  assumes "L_slow_path i seq insn e = Some (r, e')"
  shows "fetch_effect i e r e'"
proof -
  obtain moved e1 r2 e2 where f: "take_interrupt i e = Some (moved, e1)"
    "slow_fetch i (if moved then None else seq) insn e1 = Some (r2, e2)" "advance i (r2, e2) = (r, e')"
    using assms by (auto simp: L_slow_path_def split: bind_splits)
  show ?thesis
    using advance_effect [OF fetch_effect_trans [OF take_interrupt_effect(1) [OF f(1)] slow_fetch_effect [OF f(2)]] f(3)] .
qed

lemma fetch_after_effect:
  assumes "fetch_after n i seq insn e = Some (r, e')"
  shows "fetch_effect i e r e'"
proof -
  have linear: "fetch_effect i e r e'" if f: "fetch_next i seq insn e = Some (r, e')"
  proof (cases seq)
    case None
    have "fetch_effect i e (Some x) (set_hart i ((harts e i)\<lparr>current_pc := pc (harts e i)\<rparr>) e)" for x
      using current_pc_effect by (simp add: fetch_effect_def)
    then show ?thesis
      using f None fetch_effect_trans slow_path_effect by (auto simp: fetch_next_def Let_def) blast
  next
    case (Some p)
    then show ?thesis
      using f by (auto simp: fetch_next_def fetch_effect_def Let_def intro!: run_effect_hart split: bind_splits)
  qed
  have chain: "fetch_effect i e r e'" if f: "fetch_chain i seq insn e = Some (r, e')"
  proof -
    obtain moved e1 where t: "take_interrupt i e = Some (moved, e1)"
      using f by (auto simp: fetch_chain_def split: bind_splits)
    have "fetch_effect i e1 r e'"
      using f slow_path_effect
      by (auto simp: fetch_chain_def t Let_def fetch_effect_def intro!: run_effect_hart split: if_splits bind_splits prod.splits)
    then show ?thesis using fetch_effect_trans [OF take_interrupt_effect(1) [OF t]] by blast
  qed
  show ?thesis
    using assms linear chain slow_path_effect by (cases n) (auto simp: fetch_after_def)
qed

lemma dispatch_ends:
  assumes "error (harts e i) = ERR_NONE" "DISPATCH_PTR insn i insn e = Some (n, e')" "n \<noteq> Suspended"
  shows "n = L_error \<longleftrightarrow> error (harts e' i) \<noteq> ERR_NONE"
proof (cases "insn AND MASK 7 = RV32_MISC_MEM \<and> decode_func3 insn = 1")
  case True
  then show ?thesis
    using assms by (auto simp: DISPATCH_PTR_def L_misc_mem_def Let_def vm_fence_i_def invalidate_icache_all)
next
  case False
  have "agrees i insn e (DISPATCH_PTR insn)" using dispatch_agrees [OF assms(1)] False by blast
  then show ?thesis using assms(2,3) by (auto simp: agrees_def ends_as_def split: option.splits)
qed

lemma retire_effect:
  "run_effect i e (retire i e)" "instret (harts (retire i e) i) = instret (harts e i) + 1"
  "error (harts (retire i e) i) = error (harts e i)"
  by (auto simp: retire_def intro!: run_effect_hart)

text \<open>
  A run over \<open>n\<close> instructions that ends with \<open>left\<close> to go: it suspends, or raises an exception, or
  has none to go; the instruction that raised the exception is executed but not retired.
\<close>

definition run_ends :: "u32 \<Rightarrow> nat \<Rightarrow> emu_state_t \<Rightarrow> bool \<times> nat \<times> emu_state_t \<Rightarrow> bool" where
  "run_ends i n e = (\<lambda>(suspended, left, e').
     run_effect i e e' \<and> left \<le> n \<and> (suspended \<or> error (harts e' i) \<noteq> ERR_NONE \<or> left = 0) \<and>
     (suspended \<longrightarrow> 0 < left) \<and>
     (instret (harts e' i) = instret (harts e i) + of_nat (n - left) \<or>
      \<not> suspended \<and> error (harts e' i) \<noteq> ERR_NONE \<and>
      instret (harts e' i) + 1 = instret (harts e i) + of_nat (n - left)))"

lemma run_ends_step:
  assumes "run_effect i e e1" "instret (harts e1 i) = instret (harts e i) + 1" "run_ends i n e1 r"
  shows "run_ends i (Suc n) e r"
proof -
  obtain y left e' where r: "r = (y, left, e')" by (cases r)
  show ?thesis
    using assms run_effect_trans [OF assms(1), of e']
    by (auto simp: run_ends_def r Suc_diff_le algebra_simps)
qed

lemma run_ends_fetch:
  assumes "fetch_effect i e (Some x) e1" "run_ends i n e1 r"
  shows "run_ends i n e r"
  using assms run_effect_trans [of i e e1] by (auto simp: run_ends_def fetch_effect_def)

lemma insn_effect_instret: "insn_effect i e e' \<Longrightarrow> instret (harts e' i) = instret (harts e i)"
  by (simp add: insn_effect_def hart_effect_def fixed_part_def)

lemma threaded_ends:
  assumes "threaded k i seq insn e = Some r" "error (harts e i) = ERR_NONE"
  shows "run_ends i (Suc k) e r"
  using assms
proof (induction k arbitrary: seq insn e)
  case 0
  obtain n e1 where d: "DISPATCH_PTR insn i insn e = Some (n, e1)"
    using 0(1) by (subst (asm) threaded.simps) (auto split: bind_splits)
  note eff = insn_run_effect [OF dispatch_effect [OF d]] insn_effect_instret [OF dispatch_effect [OF d]]
  have "run_effect i e (retire i e1)" using run_effect_trans [OF eff(1) retire_effect(1)] .
  then show ?case
    using 0 eff dispatch_ends [OF 0(2) d]
    by (subst (asm) threaded.simps) (auto simp: d run_ends_def retire_effect Let_def split: dispatch.splits)
next
  case (Suc k)
  obtain n e1 where d: "DISPATCH_PTR insn i insn e = Some (n, e1)"
    using Suc(2) by (subst (asm) threaded.simps) (auto split: bind_splits)
  note eff = insn_run_effect [OF dispatch_effect [OF d]] insn_effect_instret [OF dispatch_effect [OF d]]
  show ?case
  proof (cases "n = L_error \<or> n = Suspended")
    case True
    then show ?thesis
      using Suc(2,3) eff dispatch_ends [OF Suc(3) d]
      by (subst (asm) threaded.simps) (auto simp: d run_ends_def)
  next
    case False
    let ?e2 = "retire i e1"
    have e2: "run_effect i e ?e2" "instret (harts ?e2 i) = instret (harts e i) + 1" "error (harts ?e2 i) = ERR_NONE"
      using run_effect_trans [OF eff(1) retire_effect(1)] eff retire_effect dispatch_ends [OF Suc(3) d] False by auto
    obtain f e3 where f: "fetch_after n i seq insn ?e2 = Some (f, e3)"
      using Suc(2) False by (subst (asm) threaded.simps) (auto simp: d Let_def split: bind_splits dispatch.splits)
    have "run_ends i (Suc k) ?e2 r"
    proof (cases f)
      case None
      then have "r = (False, Suc k, e3)"
        using Suc(2) False f by (subst (asm) threaded.simps) (auto simp: d Let_def split: dispatch.splits)
      then show ?thesis
        using fetch_after_effect [OF f] e2 None by (simp add: run_ends_def fetch_effect_def)
    next
      case (Some x)
      then have "threaded k i (snd x) (fst x) e3 = Some r"
        using Suc(2) False f
        by (subst (asm) threaded.simps) (auto simp: d Let_def case_prod_beta split: dispatch.splits)
      moreover have "fetch_effect i ?e2 (Some x) e3" using fetch_after_effect [OF f] Some by simp
      ultimately show ?thesis
        using Suc(1) [of "snd x" "fst x" e3] e2 run_ends_fetch by (auto simp: fetch_effect_def)
    qed
    then show ?thesis by (rule run_ends_step [OF e2(1,2)])
  qed
qed

lemma run_from_ends:
  assumes "run_from n i insn e = Some r" "error (harts e i) = ERR_NONE"
  shows "run_ends i n e r"
proof (cases n)
  case 0
  then show ?thesis using assms by (auto simp: run_from_def run_ends_def)
next
  case (Suc k)
  obtain f e1 where f: "L_slow_path i None insn e = Some (f, e1)"
    using assms Suc by (auto simp: run_from_def split: bind_splits)
  note eff = slow_path_effect [OF f]
  show ?thesis
  proof (cases f)
    case None
    then show ?thesis using assms Suc f eff by (auto simp: run_from_def run_ends_def fetch_effect_def)
  next
    case (Some x)
    then have "threaded k i (snd x) (fst x) e1 = Some r"
      using assms Suc f by (simp add: run_from_def case_prod_beta)
    then have "run_ends i n e1 r"
      using threaded_ends eff assms(2) Some Suc by (auto simp: fetch_effect_def)
    then show ?thesis using run_ends_fetch eff Some by blast
  qed
qed

section \<open>Properties\<close>

text \<open>
  C1: The threaded interpreter does what the switch does. For every instruction other than
  \<^verbatim>\<open>FENCE.I\<close> the handler that the dispatch table selects ends in the same state as
  \<^verbatim>\<open>vm_execute_insn\<close>, is undefined exactly when it is, and dispatches accordingly: to \<^verbatim>\<open>L_error\<close> if
  there is an exception, by \<^verbatim>\<open>DISPATCH_BREAK\<close> if the switch ends linear execution, suspended if the
  hart waits.
\<close>

theorem threaded_matches_switch:
  assumes "error (harts e i) = ERR_NONE"
    and "insn AND MASK 7 \<noteq> RV32_MISC_MEM \<or> decode_func3 insn \<noteq> 1"
  shows "map_option snd (DISPATCH_PTR insn i insn e) = map_option (snd \<circ> snd) (vm_execute_insn i insn e) \<and>
    (\<forall>n keep_linear suspended e1 e2.
       DISPATCH_PTR insn i insn e = Some (n, e1) \<and> vm_execute_insn i insn e = Some (keep_linear, suspended, e2) \<longrightarrow>
       (n = Suspended \<longleftrightarrow> suspended) \<and>
       (\<not> suspended \<longrightarrow>
          (n = L_error \<longleftrightarrow> error (harts e1 i) \<noteq> ERR_NONE) \<and>
          (n = DISPATCH_BREAK \<longleftrightarrow> error (harts e1 i) = ERR_NONE \<and> \<not> keep_linear)))"
  using dispatch_agrees [OF assms(1), of insn] assms(2)
  by (auto simp: agrees_def ends_as_def split: option.splits)

theorem threaded_matches_switch_witness:
  "map_option snd (DISPATCH_PTR 0x02A00093 0 0x02A00093 zero_emu) =
     map_option (snd \<circ> snd) (vm_execute_insn 0 0x02A00093 zero_emu)"
proof -
  have "error (harts zero_emu 0) = ERR_NONE" by (simp add: zero_emu_def zero_hart_def)
  moreover have "(0x02A00093 :: u32) AND MASK 7 \<noteq> RV32_MISC_MEM" by (simp add: mask_eq_exp_minus_1)
  ultimately show ?thesis using threaded_matches_switch [of zero_emu 0 "0x02A00093"] by blast
qed

text \<open>
  \<^verbatim>\<open>FENCE.I\<close> is where the two differ: the threaded handler empties the instruction cache, the switch
  does nothing.
\<close>

lemma fence_i_differs:
  assumes "insn AND MASK 7 = RV32_MISC_MEM" "decode_func3 insn = 1"
  shows "vm_execute_insn i insn e = Some (False, False, e) \<and>
    DISPATCH_PTR insn i insn e = Some (DISPATCH_BREAK, set_hart i (icache_invalidate_all (harts e i)) e)"
  using assms by (simp add: vm_execute_insn_def DISPATCH_PTR_def L_misc_mem_def vm_fence_i_def Let_def)



text \<open>
  C16: \<^verbatim>\<open>vm_step_many\<close> comes back after at most the steps it was given, and accounts for them. It
  executes all of them unless the hart suspends or an exception is pending; the retired-instruction
  counter grows by the number it reports, less the one instruction that raised an exception. Over
  the whole run \<open>x0\<close> and the identity of the hart stay, no other hart changes beyond caches,
  reservation, interrupt lines and exception, and user mode never has \<^verbatim>\<open>SPP\<close> set.
\<close>

theorem step_many_accounts:
  assumes "vm_step_many i steps e = Some (suspended, left, e')"
    and "hsm_status (harts e i) = SBI_HSM_STATE_STARTED" "error (harts e i) = ERR_NONE"
  shows "left \<le> steps \<and> (suspended \<or> error (harts e' i) \<noteq> ERR_NONE \<or> left = 0) \<and>
    (let h = harts e i; h' = harts e' i; executed = of_nat (steps - left)
     in (instret h' = instret h + executed \<or> error h' \<noteq> ERR_NONE \<and> instret h' + 1 = instret h + executed) \<and>
        x_regs h' 0 = x_regs h 0 \<and> mhartid h' = mhartid h \<and> hsm_status h' = hsm_status h \<and>
        (mode_ok h \<longrightarrow> mode_ok h')) \<and>
    (\<forall>j. j \<noteq> i \<longrightarrow> core (harts e' j) = core (harts e j)) \<and> stopped e' = stopped e"
  using assms run_from_ends [of steps i 0 e "(suspended, left, e')"]
  by (auto simp: vm_step_many_def run_ends_def run_effect_def run_part_def Let_def)

text \<open>An example: a started hart of the flushed machine at the first word of RAM, an illegal instruction.\<close>

lemma flushed_step:
  "\<exists>e'. vm_step_many 1 1 flushed_emu = Some (False, 0, e') \<and>
     error (harts e' 1) = ERR_EXCEPTION \<and> exc_cause (harts e' 1) = RV_EXC_ILLEGAL_INSN"
proof -
  let ?h = "harts flushed_emu 1"
  have h: "pc ?h = 0" "current_pc ?h = 0" "sip ?h = 0" "hsm_status ?h = 0" "error ?h = ERR_NONE"
    by (simp_all add: flushed_emu_def zero_emu_def zero_hart_def)
  have e: "set_hart 1 (?h\<lparr>current_pc := 0\<rparr>) flushed_emu = flushed_emu"
    using h by (simp add: set_hart_def flushed_emu_def zero_emu_def zero_hart_def fun_eq_iff)
  have "take_interrupt 1 flushed_emu = Some (False, flushed_emu)"
    by (simp add: take_interrupt_def vm_handle_pending_interrupt_def interrupt_taken_def Let_def h e)
  moreover have "mmu_fetch 1 0 0 flushed_emu = Some (0, set_hart 1 (?h\<lparr>exc_val := 0,
     cache_fetch := (cache_fetch ?h)(0 := \<lparr>fc_n_pages = 0, fc_page_addr = Some 0\<rparr>),
     icache := (icache ?h)(0 := \<lparr>tag = 0, epoch = 1, base = Some 0, valid = True\<rparr>),
     seq_fetch_block := Some 0, seq_fetch_next_pc := 4\<rparr>) (flushed_emu\<lparr>emu_ram := \<lambda>_. 0\<rparr>))"
    using h
    by (simp add: mmu_fetch_def seq_fetch_hit_def icache_block_valid_def flushed_fetch fetch_index_def icache_idx_def
        icache_tag_def next_seq_def translate_for_def mmu_translate_def mem_fetch_def fetch_fill_def code_word_def
        ram_cell_def Let_def set_hart_def)
  ultimately have "\<exists>seq e'. L_slow_path 1 None 0 flushed_emu = Some (Some (0, seq), e')"
    using h by (simp add: L_slow_path_def slow_fetch_def advance_def seq_from_block_def Let_def)
  moreover have "DISPATCH_PTR 0 = L_illegal" by (simp add: DISPATCH_PTR_def Let_def)
  ultimately show ?thesis
    using h by (auto simp: vm_step_many_def run_from_def L_illegal_def vm_set_exception_def threaded.simps [of 0])
qed

theorem step_many_accounts_witness:
  "\<exists>e'. vm_step_many 1 1 flushed_emu = Some (False, 0, e') \<and> x_regs (harts e' 1) 0 = 0 \<and>
     core (harts e' 0) = core (harts flushed_emu 0)"
proof -
  obtain e' where r: "vm_step_many 1 1 flushed_emu = Some (False, 0, e')" using flushed_step by blast
  have "hsm_status (harts flushed_emu 1) = 0" "error (harts flushed_emu 1) = ERR_NONE" "x_regs (harts flushed_emu 1) 0 = 0"
    by (simp_all add: flushed_emu_def zero_emu_def zero_hart_def)
  then show ?thesis using step_many_accounts [OF r] r by (auto simp: Let_def)
qed



section \<open>Atomic operations\<close>

lemma ram_word_access:
  assumes "a AND 3 = 0" "a < RAM_SIZE"
  shows "mem_load i a RV_MEM_LW v e = Some (emu_ram e (drop_bit 2 a), e)"
    "mem_store i a RV_MEM_SW x e = Some (e\<lparr>emu_ram := (emu_ram e)(drop_bit 2 a := x)\<rparr>)"
  using assms ram_word_index [of a]
  by (simp_all add: mem_load_def mem_store_def ram_read_def ram_write_def RAM_FUNC_def ram_cell_def Let_def set_hart_def)

lemma forget_sel:
  assumes "forget h = forget h'"
  shows "error h = error h'" "x_regs h = x_regs h'" "tr_ctx h = tr_ctx h'"
  using arg_cong [OF assms, of error] arg_cong [OF assms, of x_regs] forget_ctx [OF assms] by (simp_all add: forget_def)

lemma join_page_ram:
  assumes "maps k mem h (drop_bit 12 addr) ppn" "ppn < RAM_PAGES"
  shows "join_page ppn addr < RAM_SIZE" "join_page ppn addr AND 3 = addr AND 3"
proof -
  show "join_page ppn addr < RAM_SIZE"
    using assms maps_small [OF assms(1)] by (simp add: ram_page_iff page_of_join)
  show "join_page ppn addr AND 3 = addr AND 3"
    unfolding join_page_def lane_mask MASK_eq_mask by (rule bit_word_eqI) (auto simp: bit_simps)
qed

lemma set_dest_regs: "x_regs (set_dest_idx rd x h) = (if rd = 0 then x_regs h else (x_regs h)(rd := x))"
  by (simp add: set_dest_idx_def)

lemma amo_op_atomic:
  assumes coh: "coherent (host_base e) (emu_ram e) (harts e i)" and err: "error (harts e i) = ERR_NONE"
    and hb: "host_base e AND 3 = 0" and i: "i < n_hart e" and al: "addr AND 3 = 0"
    and m: "maps Loading (emu_ram e) (harts e i) (drop_bit 12 addr) ppn"
      "maps Storing (emu_ram e) (harts e i) (drop_bit 12 addr) ppn" "ppn < RAM_PAGES"
  defines "w \<equiv> drop_bit 2 (join_page ppn addr)"
  shows "\<exists>e'. AMO_OP i d addr f e = Some e' \<and> error (harts e' i) = ERR_NONE \<and>
    emu_ram e' = (emu_ram e)(w := f (emu_ram e w) (x_regs (harts e i) (decoded_rs2 d))) \<and>
    x_regs (harts e' i) = x_regs (set_dest_idx (decoded_rd d) (emu_ram e w) (harts e i))"
proof -
  let ?h = "harts e i" and ?p = "join_page ppn addr" and ?mem = "emu_ram e"
  have p: "?p AND 3 = 0" "?p < RAM_SIZE" using join_page_ram [OF m(1,3)] al by auto
  obtain h1 where h1: "forget h1 = forget (?h\<lparr>exc_val := addr\<rparr>)" "coherent (host_base e) ?mem h1"
    "mmu_load i addr RV_MEM_LW 0 False e = load_at i ?p RV_MEM_LW 0 False (set_hart i h1 e)"
    using mmu_load_at [OF coh err hb, of addr ?p ?mem "?h\<lparr>exc_val := addr\<rparr>" RV_MEM_LW 0 False]
      translate_maps [OF m(1)] err by auto
  have l: "mmu_load i addr RV_MEM_LW 0 False e = Some (?mem w, set_hart i h1 e)"
    unfolding h1(3) load_at_def using ram_word_access(1) [OF p] by (simp add: w_def)
  let ?h2 = "set_dest_idx (decoded_rd d) (?mem w) h1"
  let ?e1 = "set_hart i ?h2 e" and ?x = "f (?mem w) (x_regs ?h (decoded_rs2 d))"
  have sel: "error h1 = ERR_NONE" "x_regs h1 = x_regs ?h" "tr_ctx h1 = tr_ctx ?h"
    using forget_sel [OF h1(1)] err by (simp_all add: tr_ctx_def)
  have "tlb_state ?h2 = tlb_state h1" by (simp add: tlb_state_def) (simp add: set_dest_idx_def)
  then have coh1: "coherent (host_base ?e1) (emu_ram ?e1) (harts ?e1 i)"
    using coherent_cong [OF _ h1(2) ad_ext_refl] by simp
  have m1: "maps Storing ?mem ?h2 (drop_bit 12 addr) ppn"
    using maps_ad [OF m(2) ad_ext_refl, of ?h2] sel(3) by simp
  have err1: "error (harts ?e1 i) = ERR_NONE" using sel by (simp add: set_dest_idx_def)
  obtain h3 where h3: "forget h3 = forget (?h2\<lparr>exc_val := addr\<rparr>)"
    "mmu_store i addr RV_MEM_SW ?x False ?e1 = store_at i ?p RV_MEM_SW ?x False (set_hart i h3 e)"
    using mmu_store_at [OF coh1 err1, of addr ?p ?mem "?h2\<lparr>exc_val := addr\<rparr>" RV_MEM_SW ?x False]
      translate_maps [OF m1] err1 hb i by (auto simp: set_hart_upd_ram)
  let ?e2 = "clear_reservations i ?p (set_hart i h3 e)"
  have e2: "harts ?e2 i = drop_reservation ?p h3" "emu_ram ?e2 = ?mem"
    using clear_reservations_hart [OF i] by simp_all
  have "AMO_OP i d addr f e = Some (?e2\<lparr>emu_ram := ?mem(w := ?x)\<rparr>)"
    using sel(1,2) l h3(2) ram_word_access(2) [OF p, of i ?x ?e2] e2
    by (simp add: AMO_OP_def store_at_def w_def)
  moreover have "error h3 = ERR_NONE" "x_regs h3 = x_regs (set_dest_idx (decoded_rd d) (?mem w) ?h)"
    using forget_sel [OF h3(1)] sel by (simp_all add: set_dest_idx_def)
  ultimately show ?thesis using e2(1) by (simp add: drop_reservation_def)
qed

text \<open>What an atomic operation computes, over the integers that the words stand for.\<close>

definition amo_spec :: "u8 \<Rightarrow> u32 \<Rightarrow> u32 \<Rightarrow> u32" where
  "amo_spec funct5 old src =
     (if funct5 = 0b00001 then src
      else if funct5 = 0b00000 then word_of_int (uint old + uint src)
      else if funct5 = 0b00100 then old XOR src
      else if funct5 = 0b01100 then old AND src
      else if funct5 = 0b01000 then old OR src
      else if funct5 = 0b10000 then word_of_int (min (sint old) (sint src))
      else if funct5 = 0b10100 then word_of_int (max (sint old) (sint src))
      else if funct5 = 0b11000 then word_of_int (min (uint old) (uint src))
      else word_of_int (max (uint old) (uint src)))"

definition amo_ops :: "u8 set" where
  "amo_ops = {0b00001, 0b00000, 0b00100, 0b01100, 0b01000, 0b10000, 0b10100, 0b11000, 0b11100}"

lemma op_amo_is_AMO_OP:
  assumes "decoded_funct3 d = 2" "decoded_funct5 d \<in> amo_ops"
  shows "op_amo i d e = AMO_OP i d (x_regs (harts e i) (decoded_rs1 d)) (amo_spec (decoded_funct5 d)) e"
proof -
  have min_max: "(\<lambda>a b :: u32. if sint a < sint b then a else b) = (\<lambda>a b. word_of_int (min (sint a) (sint b)))"
    "(\<lambda>a b :: u32. if sint b < sint a then a else b) = (\<lambda>a b. word_of_int (max (sint a) (sint b)))"
    "(\<lambda>a b :: u32. if a < b then a else b) = (\<lambda>a b. word_of_int (min (uint a) (uint b)))"
    "(\<lambda>a b :: u32. if b < a then a else b) = (\<lambda>a b. word_of_int (max (uint a) (uint b)))"
    by (auto simp: fun_eq_iff min_def max_def word_less_def)
  show ?thesis
    using assms unfolding amo_ops_def
    by (elim insertE emptyE) (simp_all add: op_amo_def amo_spec_def [abs_def] Let_def min_max)
qed

text \<open>
  C18: An atomic memory operation is a read, a computation and a write of one word with nothing in
  between. On an aligned word that is mapped for loads and stores to the same page of RAM, and with
  coherent caches, it raises nothing, stores the result of the operation on the old value and the
  source register, changes no other word of RAM, and leaves the old value in the destination.
\<close>

theorem amo_atomic:
  assumes "coherent (host_base e) (emu_ram e) (harts e i)" "error (harts e i) = ERR_NONE"
    and "host_base e AND 3 = 0" "i < n_hart e"
    and "decoded_funct3 d = 2" "decoded_funct5 d \<in> amo_ops"
    and "addr = x_regs (harts e i) (decoded_rs1 d)" "addr AND 3 = 0"
    and "maps Loading (emu_ram e) (harts e i) (drop_bit 12 addr) ppn"
      "maps Storing (emu_ram e) (harts e i) (drop_bit 12 addr) ppn" "ppn < RAM_PAGES"
    and "w = drop_bit 2 (join_page ppn addr)"
  shows "\<exists>e'. op_amo i d e = Some e' \<and> error (harts e' i) = ERR_NONE \<and>
    emu_ram e' = (emu_ram e)(w := amo_spec (decoded_funct5 d) (emu_ram e w) (x_regs (harts e i) (decoded_rs2 d))) \<and>
    x_regs (harts e' i) = (if decoded_rd d = 0 then x_regs (harts e i)
                           else (x_regs (harts e i))(decoded_rd d := emu_ram e w))"
proof -
  obtain e' where "AMO_OP i d addr (amo_spec (decoded_funct5 d)) e = Some e'" "error (harts e' i) = ERR_NONE"
    "emu_ram e' = (emu_ram e)(w := amo_spec (decoded_funct5 d) (emu_ram e w) (x_regs (harts e i) (decoded_rs2 d)))"
    "x_regs (harts e' i) = x_regs (set_dest_idx (decoded_rd d) (emu_ram e w) (harts e i))"
    using amo_op_atomic [OF assms(1-4,8-11), of d "amo_spec (decoded_funct5 d)"] assms(12) by blast
  then show ?thesis
    using op_amo_is_AMO_OP [OF assms(5,6), of i e] assms(7) by (intro exI [of _ e']) (simp add: set_dest_regs)
qed

theorem amo_atomic_witness:
  "\<exists>e'. op_amo 0 (decode_insn 0x00A5A5AF) (set_hart 0 ((harts flushed_emu 0)\<lparr>x_regs := (\<lambda>_. 0)(10 := 7)\<rparr>) flushed_emu) =
     Some e' \<and> emu_ram e' 0 = 7"
proof -
  let ?h = "(harts flushed_emu 0)\<lparr>x_regs := (\<lambda>_. 0)(10 := 7)\<rparr>"
  let ?e = "set_hart 0 ?h flushed_emu" and ?d = "decode_insn 0x00A5A5AF"
  have d: "decode_func3 0x00A5A5AF = 2" "decode_rs1 0x00A5A5AF = 11" "decode_rs2 0x00A5A5AF = 10" "decoded_funct5 ?d = 0"
    by code_simp+
  have "tlb_state ?h = tlb_state (harts flushed_emu 0)" by (simp add: tlb_state_def tr_ctx_def)
  then have coh: "coherent (host_base ?e) (emu_ram ?e) (harts ?e 0)"
    using coherent_cong [OF _ _ ad_ext_refl] flushed_coherent by (simp add: all_coherent_def)
  have "maps k (emu_ram ?e) (harts ?e 0) 0 0" for k by (simp add: maps_def)
  then show ?thesis
    using amo_atomic [OF coh, of ?d 0 0 0] by (auto simp: d amo_ops_def amo_spec_def join_page_def)
qed

end
