(* ===== verification/Sbi.thy ===== *)
theory Sbi
  imports Run
begin

text \<open>
  The supervisor binary interface of \<^verbatim>\<open>src/main.c\<close>: what an environment call from supervisor mode
  does. The handlers take the calling hart and return the pair \<^verbatim>\<open>sbi_ret_t\<close>; the messages printed on
  a system reset are not modelled. An access outside \<^verbatim>\<open>mtimecmp\<close> or \<^verbatim>\<open>ssip\<close> is undefined.
\<close>

section \<open>Constants\<close>

abbreviation (input) SBI_SUCCESS :: u32 where "SBI_SUCCESS \<equiv> 0"
abbreviation (input) SBI_ERR_FAILED :: u32 where "SBI_ERR_FAILED \<equiv> - 1"
abbreviation (input) SBI_ERR_NOT_SUPPORTED :: u32 where "SBI_ERR_NOT_SUPPORTED \<equiv> - 2"
abbreviation (input) SBI_ERR_INVALID_PARAM :: u32 where "SBI_ERR_INVALID_PARAM \<equiv> - 3"
abbreviation (input) SBI_EID_BASE :: u32 where "SBI_EID_BASE \<equiv> 0x10"
abbreviation (input) SBI_EID_TIMER :: u32 where "SBI_EID_TIMER \<equiv> 0x54494D45"
abbreviation (input) SBI_EID_RST :: u32 where "SBI_EID_RST \<equiv> 0x53525354"
abbreviation (input) SBI_EID_HSM :: u32 where "SBI_EID_HSM \<equiv> 0x48534D"
abbreviation (input) SBI_EID_IPI :: u32 where "SBI_EID_IPI \<equiv> 0x735049"
abbreviation (input) SBI_EID_RFENCE :: u32 where "SBI_EID_RFENCE \<equiv> 0x52464E43"

section \<open>Handlers\<close>

record sbi_ret_t =
  sbi_error :: u32
  sbi_value :: u32

definition sbi_ret :: "u32 \<Rightarrow> u32 \<Rightarrow> sbi_ret_t" where
  "sbi_ret err v = \<lparr>sbi_error = err, sbi_value = v\<rparr>"

type_synonym sbi_handler = "u32 \<Rightarrow> u32 \<Rightarrow> emu_state_t \<Rightarrow> (sbi_ret_t \<times> emu_state_t) option"

definition handle_sbi_ecall_TIMER :: sbi_handler where
  "handle_sbi_ecall_TIMER i fid e =
     (let h = harts e i
      in if fid = 0 then
           if mhartid h < mtimer_n_hart (mtimer e) then
             let t = push_bit 32 (ucast (x_regs h RV_R_A1)) OR ucast (x_regs h RV_R_A0);
                 e = e\<lparr>mtimer := (mtimer e)\<lparr>mtimecmp := (mtimecmp (mtimer e))(mhartid h := t)\<rparr>\<rparr>
             in Some (sbi_ret SBI_SUCCESS 0, set_hart i (h\<lparr>sip := sip h AND NOT RV_INT_STI_BIT\<rparr>) e)
           else None
         else Some (sbi_ret SBI_ERR_NOT_SUPPORTED 0, e))"

definition handle_sbi_ecall_RST :: sbi_handler where
  "handle_sbi_ecall_RST i fid e =
     Some (if fid = 0 then (sbi_ret SBI_SUCCESS 0, e\<lparr>stopped := True\<rparr>) else (sbi_ret SBI_ERR_NOT_SUPPORTED 0, e))"

definition hart_start :: "u32 \<Rightarrow> u32 \<Rightarrow> u32 \<Rightarrow> hart_t \<Rightarrow> hart_t" where
  "hart_start hartid start_addr opaque h =
     h\<lparr>hsm_status := SBI_HSM_STATE_STARTED, satp := 0, sstatus_sie := False,
       x_regs := (x_regs h)(RV_R_A0 := hartid, RV_R_A1 := opaque), pc := start_addr, s_mode := True\<rparr>"

definition hart_suspend :: "u32 \<Rightarrow> u32 \<Rightarrow> u32 \<Rightarrow> hart_t \<Rightarrow> hart_t" where
  "hart_suspend suspend_type resume_addr opaque h =
     (let h = h\<lparr>hsm_status := SBI_HSM_STATE_SUSPENDED\<rparr>
      in if suspend_type = 0x00000000 then h\<lparr>hsm_resume_is_ret := True, hsm_resume_pc := pc h\<rparr>
         else if suspend_type = 0x80000000
         then h\<lparr>hsm_resume_is_ret := False, hsm_resume_pc := resume_addr, hsm_resume_opaque := opaque\<rparr>
         else h)"

definition handle_sbi_ecall_HSM :: sbi_handler where
  "handle_sbi_ecall_HSM i fid e =
     (let h = harts e i; a0 = x_regs h RV_R_A0; a1 = x_regs h RV_R_A1; a2 = x_regs h RV_R_A2
      in Some (
         if fid = 0 then
           if a0 \<ge> n_hart e then (sbi_ret SBI_ERR_INVALID_PARAM 0, e)
           else (sbi_ret SBI_SUCCESS 0, set_hart a0 (hart_start a0 a1 a2 (harts e a0)) e)
         else if fid = 1 then (sbi_ret SBI_SUCCESS 0, set_hart i (h\<lparr>hsm_status := SBI_HSM_STATE_STOPPED\<rparr>) e)
         else if fid = 2 then
           if a0 \<ge> n_hart e then (sbi_ret SBI_ERR_INVALID_PARAM 0, e)
           else (sbi_ret SBI_SUCCESS (hsm_status (harts e a0)), e)
         else if fid = 3 then (sbi_ret SBI_SUCCESS 0, set_hart i (hart_suspend a0 a1 a2 h) e)
         else (sbi_ret SBI_ERR_NOT_SUPPORTED 0, e)))"

lemma unat_succ_below: "unat (k :: u32) < unat (n :: u32) \<Longrightarrow> unat (k + 1) = Suc (unat k)"
  using unsigned_less [of n, where ?'a = nat] by (simp add: unat_word_ariths)

text \<open>
  The loop over the harts of a mask, \<^verbatim>\<open>for (i = base; hart_mask && i < n_hart; hart_mask >>= 1, i++)\<close>,
  which ends because the index grows; the body is applied to the harts whose bit is set.
\<close>

function for_mask :: "u32 \<Rightarrow> (u32 \<Rightarrow> 's \<Rightarrow> 's) \<Rightarrow> u32 \<Rightarrow> u64 \<Rightarrow> 's \<Rightarrow> 's" where
  "for_mask n f k hart_mask s =
     (if hart_mask \<noteq> 0 \<and> k < n
      then for_mask n f (k + 1) (drop_bit 1 hart_mask) (if hart_mask AND 1 \<noteq> 0 then f k s else s)
      else s)"
  by pat_completeness auto
termination
proof (relation "measure (\<lambda>(n, f, k, hart_mask, s). unat n - unat k)")
  fix n k :: u32 and f :: "u32 \<Rightarrow> 'a \<Rightarrow> 'a" and hart_mask :: u64 and s
  assume "hart_mask \<noteq> 0 \<and> k < n"
  then have "unat k < unat n" by (simp add: word_less_nat_alt)
  then have "unat (k + 1) = Suc (unat k)" by (rule unat_succ_below)
  then show "((n, f, k + 1, drop_bit 1 hart_mask, if hart_mask AND 1 \<noteq> 0 then f k s else s), n, f, k, hart_mask, s)
      \<in> measure (\<lambda>(n, f, k, hart_mask, s). unat n - unat k)"
    using \<open>unat k < unat n\<close> by simp
qed simp

declare for_mask.simps [simp del]

definition for_mask_harts :: "u32 \<Rightarrow> u32 \<Rightarrow> u32 \<Rightarrow> (u32 \<Rightarrow> 's \<Rightarrow> 's) \<Rightarrow> 's \<Rightarrow> 's" where
  "for_mask_harts n hart_mask hart_mask_base f s =
     (if hart_mask_base = 0xFFFFFFFF then for_upto n f s else for_mask n f hart_mask_base (ucast hart_mask) s)"

definition handle_sbi_ecall_IPI :: sbi_handler where
  "handle_sbi_ecall_IPI i fid e =
     (let h = harts e i
      in if fid = 0 then
           if n_hart e \<le> sswi_n_hart (sswi e) then
             Some (sbi_ret SBI_SUCCESS 0,
                   e\<lparr>sswi := (sswi e)\<lparr>ssip := for_mask_harts (n_hart e) (x_regs h RV_R_A0) (x_regs h RV_R_A1)
                                        (\<lambda>k s. s(k := 1)) (ssip (sswi e))\<rparr>\<rparr>)
           else None
         else Some (sbi_ret SBI_ERR_FAILED 0, e))"

definition handle_sbi_ecall_RFENCE :: sbi_handler where
  "handle_sbi_ecall_RFENCE i fid e =
     (let h = harts e i; a0 = x_regs h RV_R_A0; a1 = x_regs h RV_R_A1;
          start_addr = x_regs h RV_R_A2; sz = x_regs h RV_R_A3;
          on = (\<lambda>f. e\<lparr>harts := for_mask_harts (n_hart e) a0 a1 (\<lambda>k hs. hs(k := f (hs k))) (harts e)\<rparr>)
      in Some (
         if fid = 0 then (sbi_ret SBI_SUCCESS 0, on vm_fence_i)
         else if fid = 1 \<or> fid = 2 then (sbi_ret SBI_SUCCESS 0, on (mmu_invalidate_range start_addr sz))
         else if fid = 3 \<or> fid = 4 \<or> fid = 5 \<or> fid = 6 then (sbi_ret SBI_SUCCESS 0, e)
         else (sbi_ret SBI_ERR_FAILED 0, e)))"

definition handle_sbi_ecall_BASE :: sbi_handler where
  "handle_sbi_ecall_BASE i fid e =
     Some (if fid = 1 then sbi_ret SBI_SUCCESS 0x999
           else if fid = 2 then sbi_ret SBI_SUCCESS 1
           else if fid = 4 then sbi_ret SBI_SUCCESS 0x12345678
           else if fid = 5 then sbi_ret SBI_SUCCESS (push_bit 31 1 OR 1)
           else if fid = 6 then sbi_ret SBI_SUCCESS 1
           else if fid = 0 then sbi_ret SBI_SUCCESS (push_bit 24 2 OR 0)
           else if fid = 3 then
             sbi_ret SBI_SUCCESS
               (if x_regs (harts e i) RV_R_A0 \<in>
                   {SBI_EID_BASE, SBI_EID_TIMER, SBI_EID_RST, SBI_EID_HSM, SBI_EID_IPI, SBI_EID_RFENCE} then 1 else 0)
           else sbi_ret SBI_ERR_NOT_SUPPORTED 0, e)"

definition sbi_dispatch :: "u32 \<Rightarrow> sbi_handler" where
  "sbi_dispatch eid =
     (if eid = SBI_EID_BASE then handle_sbi_ecall_BASE
      else if eid = SBI_EID_TIMER then handle_sbi_ecall_TIMER
      else if eid = SBI_EID_RST then handle_sbi_ecall_RST
      else if eid = SBI_EID_HSM then handle_sbi_ecall_HSM
      else if eid = SBI_EID_IPI then handle_sbi_ecall_IPI
      else if eid = SBI_EID_RFENCE then handle_sbi_ecall_RFENCE
      else (\<lambda>i fid e. Some (sbi_ret SBI_ERR_NOT_SUPPORTED 0, e)))"

definition handle_sbi_ecall :: "u32 \<Rightarrow> emu_state_t \<Rightarrow> emu_state_t option" where
  "handle_sbi_ecall i e =
     do { (ret, e) \<leftarrow> sbi_dispatch (x_regs (harts e i) RV_R_A7) i (x_regs (harts e i) RV_R_A6) e;
          let h = harts e i;
          Some (set_hart i (h\<lparr>x_regs := (x_regs h)(RV_R_A0 := sbi_error ret, RV_R_A1 := sbi_value ret),
                              error := ERR_NONE\<rparr>) e) }"

section \<open>Lemmas\<close>

text \<open>The harts that a mask and its base select.\<close>

definition selected :: "u32 \<Rightarrow> u32 \<Rightarrow> u32 \<Rightarrow> u32 \<Rightarrow> bool" where
  "selected n hart_mask hart_mask_base j \<longleftrightarrow>
     j < n \<and> (hart_mask_base = 0xFFFFFFFF \<or> hart_mask_base \<le> j \<and> bit hart_mask (unat (j - hart_mask_base)))"

lemma for_mask_pointwise:
  "for_mask n (\<lambda>k s. s(k := f (s k))) b m s =
     (\<lambda>j. if b \<le> j \<and> j < n \<and> bit m (unat (j - b)) then f (s j) else s j)"
proof (induction n "\<lambda>(k :: u32) s. s(k := f (s k))" b m s rule: for_mask.induct)
  case (1 n b m s)
  show ?case
  proof (cases "m \<noteq> 0 \<and> b < n")
    case False
    then show ?thesis by (subst for_mask.simps) (auto simp: fun_eq_iff)
  next
    case True
    have b: "unat (b + 1) = Suc (unat b)" using True unat_succ_below [of b n] by (simp add: word_less_nat_alt)
    have low: "m AND 1 \<noteq> 0 \<longleftrightarrow> bit m 0" using and_exp_eq_0_iff_not_bit [of m 0] by simp
    have "b \<le> j \<and> bit m (unat (j - b)) \<longleftrightarrow> j = b \<and> bit m 0 \<or> b + 1 \<le> j \<and> bit (drop_bit 1 m) (unat (j - (b + 1)))"
      if "j < n" for j
    proof (cases "j = b")
      case True
      then show ?thesis using b by (simp add: word_le_nat_alt)
    next
      case False
      then have "b \<le> j \<longleftrightarrow> b + 1 \<le> j" using b by (auto simp: word_le_nat_alt word_unat_eq_iff)
      moreover have "unat (j - b) = Suc (unat (j - (b + 1)))" if "b + 1 \<le> j"
        using that b by (simp add: unat_sub word_le_nat_alt)
      ultimately show ?thesis using False by (auto simp: bit_drop_bit_eq)
    qed
    moreover have "\<not> b + 1 \<le> b" using b by (simp add: word_le_nat_alt)
    ultimately show ?thesis
      using True 1 low by (subst for_mask.simps) (auto simp: fun_eq_iff)
  qed
qed

lemma for_mask_harts_pointwise:
  "for_mask_harts n m b (\<lambda>k s. s(k := f (s k))) s = (\<lambda>j. if selected n m b j then f (s j) else s j)"
  using for_upto_pointwise [of n "\<lambda>_. f" s]
  by (auto simp: for_mask_harts_def selected_def for_mask_pointwise fun_eq_iff bit_simps dest: bit_imp_le_length)

text \<open>What every call does to the caller: the result in two registers, and no exception pending.\<close>

definition sbi_result :: "sbi_ret_t \<Rightarrow> hart_t \<Rightarrow> hart_t" where
  "sbi_result ret h =
     h\<lparr>x_regs := (x_regs h)(RV_R_A0 := sbi_error ret, RV_R_A1 := sbi_value ret), error := ERR_NONE\<rparr>"

lemma handle_sbi_ecall_eq:
  "handle_sbi_ecall i e =
     do { (ret, e) \<leftarrow> sbi_dispatch (x_regs (harts e i) RV_R_A7) i (x_regs (harts e i) RV_R_A6) e;
          Some (set_hart i (sbi_result ret (harts e i)) e) }"
  by (simp add: handle_sbi_ecall_def sbi_result_def Let_def)

lemma sbi_result_sel [simp]:
  "caches_of (sbi_result ret h) = caches_of h" "hsm_status (sbi_result ret h) = hsm_status h"
  "error (sbi_result ret h) = ERR_NONE" "x_regs (sbi_result ret h) 10 = sbi_error ret" "mode_ok (sbi_result ret h) = mode_ok h"
  "x_regs (sbi_result ret h) 0 = x_regs h 0"
  by (simp_all add: sbi_result_def mode_ok_def)

lemma cache_entries_of:
  assumes "caches_of h' = caches_of h"
  shows "tlb_entries st h' = tlb_entries st h" "fetch_entries h' = fetch_entries h" "icache_entries h' = icache_entries h"
  using caches_of_eqD [OF assms] by simp_all

lemma harts_set_hart: "harts (set_hart i h e) j = (if j = i then h else harts e j)"
  by (simp add: set_hart_def)

text \<open>What a call leaves alone: the fences change caches only, the other calls a few fields.\<close>

lemma core_fences [simp]:
  "core (mmu_invalidate h) = core h" "core (mmu_invalidate_range a sz h) = core h" "core (vm_fence_i h) = core h"
proof -
  show inv: "core (mmu_invalidate h) = core h" by (simp add: mmu_invalidate_def Let_def invalidate_icache_all)
  show "core (mmu_invalidate_range a sz h) = core h" by (simp add: mmu_invalidate_range_def Let_def inv)
  show "core (vm_fence_i h) = core h" by (simp add: vm_fence_i_def invalidate_icache_all)
qed

inductive hsm_trans :: "u32 \<Rightarrow> u32 \<Rightarrow> bool" where
  same: "hsm_trans s s"
| start: "hsm_trans s SBI_HSM_STATE_STARTED"
| stop: "hsm_trans SBI_HSM_STATE_STARTED SBI_HSM_STATE_STOPPED"
| suspend: "hsm_trans SBI_HSM_STATE_STARTED SBI_HSM_STATE_SUSPENDED"

definition sbi_keeps :: "hart_t \<Rightarrow> hart_t \<Rightarrow> bool" where
  "sbi_keeps h h' \<longleftrightarrow>
     x_regs h' 0 = x_regs h 0 \<and> mhartid h' = mhartid h \<and> (mode_ok h \<longrightarrow> mode_ok h') \<and>
     (hsm_status h = SBI_HSM_STATE_STARTED \<longrightarrow> hsm_trans (hsm_status h) (hsm_status h')) \<and>
     (hsm_status h \<noteq> SBI_HSM_STATE_STARTED \<longrightarrow> hsm_status h' \<in> {hsm_status h, SBI_HSM_STATE_STARTED})"

lemma sbi_keeps_core: "core h' = core h \<Longrightarrow> sbi_keeps h h'"
  by (simp add: sbi_keeps_def core_def mode_ok_def hsm_trans.same)

lemma sbi_keeps_simps [simp]:
  "sbi_keeps h h" "sbi_keeps h (h\<lparr>sip := a\<rparr>)" "sbi_keeps h (hart_start b c d h)"
  by (simp_all add: sbi_keeps_core) (simp add: sbi_keeps_def hart_start_def mode_ok_def hsm_trans.start)

lemma sbi_keeps_caller:
  "hsm_status h = SBI_HSM_STATE_STARTED \<Longrightarrow> sbi_keeps h (h\<lparr>hsm_status := SBI_HSM_STATE_STOPPED\<rparr>)"
  "hsm_status h = SBI_HSM_STATE_STARTED \<Longrightarrow> sbi_keeps h (hart_suspend a b c h)"
  by (auto simp: sbi_keeps_def mode_ok_def hart_suspend_def Let_def intro: hsm_trans.intros)

definition sbi_frame :: "u32 \<Rightarrow> emu_state_t \<Rightarrow> emu_state_t \<Rightarrow> bool" where
  "sbi_frame i e e' \<longleftrightarrow>
     (\<forall>j. sbi_keeps (harts e j) (harts e' j)) \<and>
     (\<forall>j. j \<noteq> i \<longrightarrow> hsm_status (harts e' j) \<in> {hsm_status (harts e j), SBI_HSM_STATE_STARTED}) \<and>
     n_hart e' = n_hart e \<and> emu_ram e' = emu_ram e \<and> host_base e' = host_base e"

lemma sbi_frame_refl [simp]: "sbi_frame i e e"
  by (simp add: sbi_frame_def)

lemma sbi_frame_hart:
  "sbi_keeps (harts e k) h \<Longrightarrow> k = i \<or> hsm_status h \<in> {hsm_status (harts e k), SBI_HSM_STATE_STARTED} \<Longrightarrow>
   sbi_frame i e (set_hart k h e)"
  by (auto simp: sbi_frame_def harts_set_hart set_hart_def)

lemma sbi_frame_fence:
  assumes "\<And>h. core (f h) = core h"
  shows "sbi_frame i e (e\<lparr>harts := \<lambda>j. if s j then f (harts e j) else harts e j\<rparr>)"
proof -
  have "hsm_status (f h) = hsm_status h" for h using assms [of h] by (simp add: core_def)
  then show ?thesis using assms by (simp add: sbi_frame_def sbi_keeps_core)
qed

definition sbi_ok :: "u32 \<Rightarrow> emu_state_t \<Rightarrow> (sbi_ret_t \<times> emu_state_t) option \<Rightarrow> bool" where
  "sbi_ok i e r \<longleftrightarrow>
     (\<forall>ret e'. r = Some (ret, e') \<longrightarrow>
        sbi_frame i e e' \<and>
        sbi_error ret \<in> {SBI_SUCCESS, SBI_ERR_FAILED, SBI_ERR_NOT_SUPPORTED, SBI_ERR_INVALID_PARAM})"

lemma sbi_handlers_ok:
  assumes "hsm_status (harts e i) = SBI_HSM_STATE_STARTED"
  shows "sbi_ok i e (handle_sbi_ecall_BASE i fid e)" "sbi_ok i e (handle_sbi_ecall_TIMER i fid e)"
    "sbi_ok i e (handle_sbi_ecall_RST i fid e)" "sbi_ok i e (handle_sbi_ecall_HSM i fid e)"
    "sbi_ok i e (handle_sbi_ecall_IPI i fid e)" "sbi_ok i e (handle_sbi_ecall_RFENCE i fid e)"
proof -
  have start: "hsm_status (hart_start a b c h) = SBI_HSM_STATE_STARTED" for a b c h by (simp add: hart_start_def)
  show "sbi_ok i e (handle_sbi_ecall_BASE i fid e)"
    by (simp add: sbi_ok_def handle_sbi_ecall_BASE_def sbi_ret_def)
  show "sbi_ok i e (handle_sbi_ecall_TIMER i fid e)"
    by (simp add: sbi_ok_def handle_sbi_ecall_TIMER_def sbi_ret_def Let_def sbi_frame_def set_hart_def)
  show "sbi_ok i e (handle_sbi_ecall_RST i fid e)"
    by (simp add: sbi_ok_def handle_sbi_ecall_RST_def sbi_ret_def sbi_frame_def)
  show "sbi_ok i e (handle_sbi_ecall_HSM i fid e)"
    using assms
    by (auto simp: sbi_ok_def handle_sbi_ecall_HSM_def sbi_ret_def Let_def start sbi_keeps_caller intro!: sbi_frame_hart)
  show "sbi_ok i e (handle_sbi_ecall_IPI i fid e)"
    by (simp add: sbi_ok_def handle_sbi_ecall_IPI_def sbi_ret_def Let_def sbi_frame_def)
  show "sbi_ok i e (handle_sbi_ecall_RFENCE i fid e)"
    by (simp add: sbi_ok_def handle_sbi_ecall_RFENCE_def sbi_ret_def for_mask_harts_pointwise Let_def sbi_frame_fence)
qed

lemma sbi_dispatch_ok:
  "hsm_status (harts e i) = SBI_HSM_STATE_STARTED \<Longrightarrow> sbi_ok i e (sbi_dispatch eid i fid e)"
  using sbi_handlers_ok [of e i fid] by (simp add: sbi_dispatch_def) (simp add: sbi_ok_def sbi_ret_def)

lemma sbi_ecall_frame:
  assumes "handle_sbi_ecall i e = Some e'" "hsm_status (harts e i) = SBI_HSM_STATE_STARTED"
  shows "sbi_frame i e e' \<and> error (harts e' i) = ERR_NONE \<and>
    x_regs (harts e' i) RV_R_A0 \<in> {SBI_SUCCESS, SBI_ERR_FAILED, SBI_ERR_NOT_SUPPORTED, SBI_ERR_INVALID_PARAM}"
proof -
  obtain ret e1 where d: "sbi_dispatch (x_regs (harts e i) RV_R_A7) i (x_regs (harts e i) RV_R_A6) e = Some (ret, e1)"
    and e': "e' = set_hart i (sbi_result ret (harts e1 i)) e1"
    using assms(1) by (auto simp: handle_sbi_ecall_eq split: bind_splits)
  have "sbi_frame i e e1" "sbi_error ret \<in> {SBI_SUCCESS, SBI_ERR_FAILED, SBI_ERR_NOT_SUPPORTED, SBI_ERR_INVALID_PARAM}"
    using sbi_dispatch_ok [OF assms(2)] d by (auto simp: sbi_ok_def)
  moreover have "sbi_keeps h (sbi_result ret h') = sbi_keeps h h'" for h h'
    by (simp add: sbi_keeps_def) (simp add: sbi_result_def)
  ultimately show ?thesis by (simp add: e' sbi_frame_def harts_set_hart)
qed

section \<open>Properties\<close>

text \<open>
  C13: A remote fence reaches every hart it names. After the call for \<^verbatim>\<open>SFENCE.VMA\<close> (with or without
  an address space) no hart that the mask and its base select, or no hart at all when the base is
  all ones, caches a translation for an address of the range, neither for data nor for instructions;
  a hart that is neither selected nor the caller is untouched, and the call succeeds.
\<close>

theorem remote_fence_invalidates:
  assumes "handle_sbi_ecall i e = Some e'"
    and "x_regs (harts e i) RV_R_A7 = SBI_EID_RFENCE" "x_regs (harts e i) RV_R_A6 \<in> {1, 2}"
    and "a = x_regs (harts e i) RV_R_A2" "a \<le> b" "unat b < unat a + unat (x_regs (harts e i) RV_R_A3)"
    and "\<And>j. epochs_ok (harts e j)"
  shows "(\<forall>j. selected (n_hart e) (x_regs (harts e i) RV_R_A0) (x_regs (harts e i) RV_R_A1) j \<longrightarrow>
      (\<forall>st x. (drop_bit 12 b, x) \<notin> tlb_entries st (harts e' j)) \<and>
      (\<forall>x. (drop_bit 12 b, x) \<notin> fetch_entries (harts e' j)) \<and>
      (\<forall>x. (drop_bit 12 b, x) \<notin> icache_entries (harts e' j))) \<and>
    (\<forall>j. \<not> selected (n_hart e) (x_regs (harts e i) RV_R_A0) (x_regs (harts e i) RV_R_A1) j \<and> j \<noteq> i \<longrightarrow>
       harts e' j = harts e j) \<and>
    x_regs (harts e' i) RV_R_A0 = SBI_SUCCESS"
proof -
  let ?sel = "selected (n_hart e) (x_regs (harts e i) RV_R_A0) (x_regs (harts e i) RV_R_A1)"
  let ?inv = "mmu_invalidate_range a (x_regs (harts e i) RV_R_A3)"
  let ?hs = "\<lambda>j. if ?sel j then ?inv (harts e j) else harts e j"
  have e': "e' = set_hart i (sbi_result (sbi_ret SBI_SUCCESS 0) (?hs i)) (e\<lparr>harts := ?hs\<rparr>)"
    using assms(1-4)
    by (auto simp: handle_sbi_ecall_eq sbi_dispatch_def handle_sbi_ecall_RFENCE_def for_mask_harts_pointwise Let_def)
  then have c: "caches_of (harts e' j) = caches_of (?hs j)" for j by (simp add: harts_set_hart)
  have "(\<forall>st x. (drop_bit 12 b, x) \<notin> tlb_entries st (harts e' j)) \<and>
      (\<forall>x. (drop_bit 12 b, x) \<notin> fetch_entries (harts e' j)) \<and> (\<forall>x. (drop_bit 12 b, x) \<notin> icache_entries (harts e' j))"
    if "?sel j" for j
    using range_is_invalidated [OF assms(7) assms(5,6), of j] that unfolding cache_entries_of [OF c [of j]] by auto
  then show ?thesis using e' by (auto simp: harts_set_hart sbi_ret_def)
qed

text \<open>The example machine with the arguments of a call in the registers of hart 0.\<close>

definition calling :: "u32 \<Rightarrow> u32 \<Rightarrow> u32 \<Rightarrow> u32 \<Rightarrow> u32 \<Rightarrow> u32 \<Rightarrow> emu_state_t" where
  "calling a7 a6 a0 a1 a2 a3 =
     set_hart 0 ((harts zero_emu 0)\<lparr>x_regs := (\<lambda>_. 0)(17 := a7, 16 := a6, 10 := a0, 11 := a1, 12 := a2, 13 := a3)\<rparr>) zero_emu"

lemma calling_sel:
  "x_regs (harts (calling a7 a6 a0 a1 a2 a3) 0) = (\<lambda>_. 0)(17 := a7, 16 := a6, 10 := a0, 11 := a1, 12 := a2, 13 := a3)"
  "n_hart (calling a7 a6 a0 a1 a2 a3) = 2" "hsm_status (harts (calling a7 a6 a0 a1 a2 a3) j) = SBI_HSM_STATE_STARTED"
  "epochs_ok (harts (calling a7 a6 a0 a1 a2 a3) j)" "sswi_n_hart (sswi (calling a7 a6 a0 a1 a2 a3)) = 2"
  by (simp_all add: calling_def set_hart_def zero_emu_def zero_hart_def epochs_ok_def zero_block_def)

theorem remote_fence_invalidates_witness:
  "\<exists>e'. handle_sbi_ecall 0 (calling SBI_EID_RFENCE 1 0b10 0 0x4000 0x1000) = Some e' \<and>
     (\<forall>st x. (4, x) \<notin> tlb_entries st (harts e' 1))"
proof -
  let ?e = "calling SBI_EID_RFENCE 1 0b10 0 0x4000 0x1000"
  obtain e' where r: "handle_sbi_ecall 0 ?e = Some e'"
    by (simp add: handle_sbi_ecall_eq sbi_dispatch_def handle_sbi_ecall_RFENCE_def calling_sel Let_def)
  have "selected 2 2 0 1" by (simp add: selected_def bit_simps)
  then show ?thesis
    using remote_fence_invalidates [OF r, of "0x4000" "0x4000"] r by (simp add: calling_sel)
qed



text \<open>
  C21: The state of a hart changes as hart state management allows. A call by a started hart moves
  harts only along these edges: any state to started, started to stopped, started to suspended; a
  hart other than the caller can only be started. The call always ends with a result code in \<open>a0\<close> and no
  pending exception, an unknown extension with \<^verbatim>\<open>SBI_ERR_NOT_SUPPORTED\<close>.
\<close>

theorem sbi_hart_states:
  assumes "handle_sbi_ecall i e = Some e'" "hsm_status (harts e i) = SBI_HSM_STATE_STARTED"
  shows "(\<forall>j. hsm_trans (hsm_status (harts e j)) (hsm_status (harts e' j))) \<and>
    (\<forall>j. j \<noteq> i \<longrightarrow> hsm_status (harts e' j) \<in> {hsm_status (harts e j), SBI_HSM_STATE_STARTED}) \<and>
    error (harts e' i) = ERR_NONE \<and>
    x_regs (harts e' i) RV_R_A0 \<in> {SBI_SUCCESS, SBI_ERR_FAILED, SBI_ERR_NOT_SUPPORTED, SBI_ERR_INVALID_PARAM} \<and>
    (x_regs (harts e i) RV_R_A7 \<notin>
       {SBI_EID_BASE, SBI_EID_TIMER, SBI_EID_RST, SBI_EID_HSM, SBI_EID_IPI, SBI_EID_RFENCE} \<longrightarrow>
     x_regs (harts e' i) RV_R_A0 = SBI_ERR_NOT_SUPPORTED)"
proof -
  note f = sbi_ecall_frame [OF assms]
  have "hsm_trans (hsm_status (harts e j)) (hsm_status (harts e' j))" for j
  proof -
    have "sbi_keeps (harts e j) (harts e' j)" using f by (simp add: sbi_frame_def)
    then show ?thesis
      by (cases "hsm_status (harts e j) = SBI_HSM_STATE_STARTED")
        (auto simp: sbi_keeps_def hsm_trans.same hsm_trans.start)
  qed
  moreover have "x_regs (harts e' i) RV_R_A0 = SBI_ERR_NOT_SUPPORTED"
    if "x_regs (harts e i) RV_R_A7 \<notin>
       {SBI_EID_BASE, SBI_EID_TIMER, SBI_EID_RST, SBI_EID_HSM, SBI_EID_IPI, SBI_EID_RFENCE}"
    using that assms(1) by (auto simp: handle_sbi_ecall_eq sbi_dispatch_def sbi_ret_def)
  ultimately show ?thesis using f by (auto simp: sbi_frame_def)
qed

theorem sbi_hart_states_witness:
  "\<exists>e'. handle_sbi_ecall 0 (calling SBI_EID_HSM 1 0 0 0 0) = Some e' \<and> hsm_trans 0 (hsm_status (harts e' 0))"
proof -
  obtain e' where "handle_sbi_ecall 0 (calling SBI_EID_HSM 1 0 0 0 0) = Some e'"
    by (simp add: handle_sbi_ecall_eq sbi_dispatch_def handle_sbi_ecall_HSM_def calling_sel Let_def)
  then show ?thesis using sbi_hart_states [of 0 "calling SBI_EID_HSM 1 0 0 0 0" e'] by (auto simp: calling_sel)
qed

text \<open>
  Starting a hart sets \<^verbatim>\<open>satp\<close> to 0 but leaves the page table in use and the translations cached: the
  register says that translation is off while it is on.
\<close>

lemma hart_start_keeps_translation:
  "satp (hart_start a b c h) = 0 \<and> page_table (hart_start a b c h) = page_table h \<and>
   caches_of (hart_start a b c h) = caches_of h"
  by (simp add: hart_start_def)

end
