(* ===== verification/Coro.thy ===== *)
theory Coro
  imports Prelude
begin

text \<open>
  The coroutines of the harts, \<^verbatim>\<open>src/coro.c\<close>: one slot per hart, of which at most one runs. The saved
  context of a suspended coroutine (its stack and its callee-saved registers) is a value of type \<open>'c\<close>,
  the point at which it goes on; what runs between a resume and the next yield is the argument \<open>run\<close> of
  \<^verbatim>\<open>coro_resume_hart\<close>. Memory allocation succeeds, and the stacks do not overflow.
\<close>

datatype coro_state_t = CORO_STATE_SUSPENDED | CORO_STATE_RUNNING | CORO_STATE_DEAD

record 'c coro_t =
  co_id :: u32
  co_state :: coro_state_t
  co_context :: 'c

record 'c coro_global =
  coroutines :: "u32 \<Rightarrow> 'c coro_t option"
  total_slots :: u32
  hart_slots :: u32
  current_hart :: u32
  initialized :: bool
  running :: "u32 option"

abbreviation (input) CORO_HART_ID_IDLE :: u32 where "CORO_HART_ID_IDLE \<equiv> 0xFFFFFFFF"

text \<open>\<open>running\<close> is \<^verbatim>\<open>coro_state.running\<close> and its thread-local copy \<^verbatim>\<open>tls_running_coro\<close>, which change together.\<close>

definition coro_clear_running_state :: "'c coro_global \<Rightarrow> 'c coro_global" where
  "coro_clear_running_state g = g\<lparr>current_hart := CORO_HART_ID_IDLE, running := None\<rparr>"

definition coro_init :: "u32 \<Rightarrow> u32 \<Rightarrow> 'c coro_global \<Rightarrow> bool \<times> 'c coro_global" where
  "coro_init n_total n_harts g =
     (if initialized g then (False, g)
      else if n_total = 0 \<or> n_total > 256 \<or> n_harts > n_total then (False, g)
      else (True, g\<lparr>coroutines := (\<lambda>_. None), total_slots := n_total, hart_slots := n_harts,
                    current_hart := CORO_HART_ID_IDLE, initialized := True, running := None\<rparr>))"

definition coro_cleanup :: "'c coro_global \<Rightarrow> 'c coro_global" where
  "coro_cleanup g =
     (if \<not> initialized g then g
      else g\<lparr>coroutines := (\<lambda>_. None), total_slots := 0, hart_slots := 0, current_hart := CORO_HART_ID_IDLE,
             initialized := False, running := None\<rparr>)"

definition coro_create_hart :: "u32 \<Rightarrow> 'c \<Rightarrow> 'c coro_global \<Rightarrow> bool \<times> 'c coro_global" where
  "coro_create_hart slot_id func g =
     (if \<not> initialized g then (False, g)
      else if slot_id \<ge> total_slots g then (False, g)
      else if coroutines g slot_id \<noteq> None then (False, g)
      else (True, g\<lparr>coroutines := (coroutines g)(slot_id \<mapsto>
                      \<lparr>co_id = slot_id, co_state = CORO_STATE_SUSPENDED, co_context = func\<rparr>)\<rparr>))"

definition set_coro :: "'c coro_t \<Rightarrow> 'c coro_global \<Rightarrow> 'c coro_global" where
  "set_coro co g = g\<lparr>coroutines := (coroutines g)(co_id co \<mapsto> co)\<rparr>"

definition jump_into :: "'c coro_t \<Rightarrow> 'c coro_global \<Rightarrow> 'c coro_global" where
  "jump_into co g = g\<lparr>running := Some (co_id co)\<rparr>"

definition jump_out :: "'c coro_global \<Rightarrow> 'c coro_global" where
  "jump_out g = coro_clear_running_state g"

text \<open>
  \<^verbatim>\<open>coro_yield\<close> is called by the running coroutine, here with the point at which it goes on. The first
  component tells whether control has gone back to the scheduler.
\<close>

definition coro_yield :: "'c \<Rightarrow> 'c coro_global \<Rightarrow> bool \<times> 'c coro_global" where
  "coro_yield c g =
     (if \<not> initialized g then (False, g)
      else
        case running g of
          None \<Rightarrow> (False, g)
        | Some k \<Rightarrow>
            (case coroutines g k of
               None \<Rightarrow> (False, g)
             | Some co \<Rightarrow>
                 if co_state co \<noteq> CORO_STATE_RUNNING then (False, g)
                 else (True, jump_out (set_coro (co\<lparr>co_state := CORO_STATE_SUSPENDED, co_context := c\<rparr>) g))))"

text \<open>The end of \<^verbatim>\<open>coro_entry_wrapper\<close>, when the function of the coroutine has returned.\<close>

definition coro_entry_wrapper :: "'c coro_t \<Rightarrow> 'c coro_global \<Rightarrow> 'c coro_global" where
  "coro_entry_wrapper co g = jump_out (set_coro (co\<lparr>co_state := CORO_STATE_DEAD\<rparr>) g)"

definition coro_current_hart_id :: "'c coro_global \<Rightarrow> u32" where
  "coro_current_hart_id g = (if \<not> initialized g then 0xFFFFFFFF else current_hart g)"

definition coro_is_suspended :: "u32 \<Rightarrow> 'c coro_global \<Rightarrow> bool" where
  "coro_is_suspended slot_id g =
     (if \<not> initialized g \<or> slot_id \<ge> hart_slots g then False
      else case coroutines g slot_id of None \<Rightarrow> False | Some co \<Rightarrow> co_state co = CORO_STATE_SUSPENDED)"

text \<open>
  \<open>run id c s\<close> runs the coroutine \<open>id\<close> from the point \<open>c\<close> in the state \<open>s\<close> of the program until it yields,
  with the point at which it goes on, or returns.
\<close>

type_synonym ('c, 's) coro_body = "u32 \<Rightarrow> 'c \<Rightarrow> 's \<Rightarrow> ('c option \<times> 's) option"

definition coro_resume_hart ::
  "('c, 's) coro_body \<Rightarrow> u32 \<Rightarrow> 'c coro_global \<times> 's \<Rightarrow> ('c coro_global \<times> 's) option" where
  "coro_resume_hart run slot_id = (\<lambda>(g, s).
     if \<not> initialized g \<or> slot_id \<ge> total_slots g then Some (g, s)
     else
       case coroutines g slot_id of
         None \<Rightarrow> Some (g, s)
       | Some co \<Rightarrow>
           if co_state co \<noteq> CORO_STATE_SUSPENDED then Some (g, s)
           else
             do { let co = co\<lparr>co_state := CORO_STATE_RUNNING\<rparr>;
                  let g = jump_into co (set_coro co (g\<lparr>current_hart := slot_id\<rparr>));
                  (point, s) \<leftarrow> run (coro_current_hart_id g) (co_context co) s;
                  Some (case point of
                          Some c \<Rightarrow> (snd (coro_yield c g), s)
                        | None \<Rightarrow> (coro_entry_wrapper co g, s)) })"

text \<open>One round of the scheduler in \<^verbatim>\<open>semu_run\<close>: every hart is resumed, in the order of the slots.\<close>

fun resume_from :: "('c, 's) coro_body \<Rightarrow> nat \<Rightarrow> u32 \<Rightarrow> 'c coro_global \<times> 's \<Rightarrow> ('c coro_global \<times> 's) option" where
  "resume_from run 0 i gs = Some gs"
| "resume_from run (Suc k) i gs = do { gs \<leftarrow> coro_resume_hart run i gs; resume_from run k (i + 1) gs }"

definition resume_all :: "('c, 's) coro_body \<Rightarrow> u32 \<Rightarrow> 'c coro_global \<times> 's \<Rightarrow> ('c coro_global \<times> 's) option" where
  "resume_all run n gs = resume_from run (unat n) 0 gs"

section \<open>The invariant\<close>

text \<open>
  When the scheduler has control no coroutine is running, and every coroutine stands in the slot of
  its number; hart coroutines exist for every slot.
\<close>

definition idle :: "'c coro_global \<Rightarrow> bool" where
  "idle g \<longleftrightarrow>
     initialized g \<and> running g = None \<and> current_hart g = CORO_HART_ID_IDLE \<and>
     (\<forall>k co. coroutines g k = Some co \<longrightarrow>
        co_id co = k \<and> k < total_slots g \<and> co_state co \<noteq> CORO_STATE_RUNNING)"

lemmas coro_defs = set_coro_def jump_into_def jump_out_def coro_clear_running_state_def coro_current_hart_id_def

lemma idle_coro:
  assumes "idle g" "coroutines g k = Some co"
  shows "co_id co = k" "k < total_slots g" "co_state co \<noteq> CORO_STATE_RUNNING" "initialized g"
  using assms by (auto simp: idle_def)

text \<open>What a resume does, over the state of the scheduler.\<close>

definition with_coro :: "u32 \<Rightarrow> coro_state_t \<Rightarrow> 'c \<Rightarrow> 'c coro_global \<Rightarrow> 'c coro_global" where
  "with_coro k st c g = set_coro \<lparr>co_id = k, co_state = st, co_context = c\<rparr> g"

lemma idle_with_coro:
  "idle g \<Longrightarrow> k < total_slots g \<Longrightarrow> st \<noteq> CORO_STATE_RUNNING \<Longrightarrow> idle (with_coro k st c g)"
  by (auto simp: idle_def with_coro_def set_coro_def)

lemma resume_suspended:
  assumes "idle g" "coroutines g k = Some co" "co_state co = CORO_STATE_SUSPENDED"
  shows "coro_resume_hart run k (g, s) =
    do { (point, s) \<leftarrow> run k (co_context co) s;
         Some (case point of Some c \<Rightarrow> with_coro k CORO_STATE_SUSPENDED c g
                           | None \<Rightarrow> with_coro k CORO_STATE_DEAD (co_context co) g, s) }"
proof -
  note i = idle_coro [OF assms(1,2)]
  let ?co = "co\<lparr>co_state := CORO_STATE_RUNNING\<rparr>"
  let ?g = "jump_into ?co (set_coro ?co (g\<lparr>current_hart := k\<rparr>))"
  have rec: "co\<lparr>co_state := st, co_context := c\<rparr> = \<lparr>co_id = k, co_state = st, co_context = c\<rparr>" 
    "co\<lparr>co_state := st\<rparr> = \<lparr>co_id = k, co_state = st, co_context = co_context co\<rparr>" for st c
    using i(1) by (cases co; simp)+
  have put: "g\<lparr>coroutines := f, current_hart := CORO_HART_ID_IDLE, running := None\<rparr> = g\<lparr>coroutines := f\<rparr>" for f
    using assms(1) by (cases g) (simp add: idle_def)
  have y: "coro_yield c ?g = (True, with_coro k CORO_STATE_SUSPENDED c g)" for c
    using i put by (simp add: coro_yield_def coro_defs with_coro_def flip: rec(1))
  have x: "coro_entry_wrapper ?co ?g = with_coro k CORO_STATE_DEAD (co_context co) g"
    using i put by (simp add: coro_entry_wrapper_def coro_defs with_coro_def flip: rec(2))
  have c: "coro_current_hart_id ?g = k" using i(4) by (simp add: coro_defs)
  show ?thesis
    unfolding coro_resume_hart_def using i(2,4) assms(2,3)
    by (cases "run k (co_context co) s") (auto simp: Let_def c x y not_le split: option.split)
qed

lemma resume_other:
  assumes "\<And>co. coroutines g k = Some co \<Longrightarrow> co_state co \<noteq> CORO_STATE_SUSPENDED"
  shows "coro_resume_hart run k (g, s) = Some (g, s)"
  using assms by (auto simp: coro_resume_hart_def split: option.split)

section \<open>What the scheduler relies on\<close>

text \<open>
  The contract between the scheduler and the code of a coroutine: \<open>inv\<close> is an invariant of the whole
  program, \<open>ok k c s\<close> is what coroutine \<open>k\<close> needs to go on at \<open>c\<close>. Running one coroutine establishes both
  for itself and disturbs no other.
\<close>

locale coroutine_body =
  fixes run :: "u32 \<Rightarrow> 'c \<Rightarrow> 's \<Rightarrow> ('c option \<times> 's) option"
    and inv :: "'s \<Rightarrow> bool"
    and ok :: "u32 \<Rightarrow> 'c \<Rightarrow> 's \<Rightarrow> bool"
  assumes run_inv: "inv s \<Longrightarrow> ok k c s \<Longrightarrow> run k c s = Some (p, s') \<Longrightarrow> inv s'"
    and run_ok: "inv s \<Longrightarrow> ok k c s \<Longrightarrow> run k c s = Some (Some c', s') \<Longrightarrow> ok k c' s'"
    and run_stable: "inv s \<Longrightarrow> ok k c s \<Longrightarrow> run k c s = Some (p, s') \<Longrightarrow> j \<noteq> k \<Longrightarrow> ok j c' s \<Longrightarrow> ok j c' s'"
begin

definition sched_ok :: "'c coro_global \<times> 's \<Rightarrow> bool" where
  "sched_ok = (\<lambda>(g, s). idle g \<and> inv s \<and>
     (\<forall>k co. coroutines g k = Some co \<and> co_state co = CORO_STATE_SUSPENDED \<longrightarrow> ok k (co_context co) s))"

lemma resume_keeps:
  assumes "sched_ok (g, s)" "coro_resume_hart run k (g, s) = Some (g', s')"
  shows "sched_ok (g', s')"
proof (cases "\<exists>co. coroutines g k = Some co \<and> co_state co = CORO_STATE_SUSPENDED")
  case False
  then have "coro_resume_hart run k (g, s) = Some (g, s)" by (intro resume_other) blast
  then show ?thesis using assms by simp
next
  case True
  then obtain co where co: "coroutines g k = Some co" "co_state co = CORO_STATE_SUSPENDED" by blast
  have i: "idle g" "inv s" "ok k (co_context co) s" using assms(1) co by (auto simp: sched_ok_def)
  obtain p where r: "run k (co_context co) s = Some (p, s')"
    and g': "g' = (case p of Some c \<Rightarrow> with_coro k CORO_STATE_SUSPENDED c g
                          | None \<Rightarrow> with_coro k CORO_STATE_DEAD (co_context co) g)"
    using assms(2) by (auto simp: resume_suspended [OF i(1) co] split: bind_splits)
  have "idle g'" using idle_with_coro [OF i(1) idle_coro(2) [OF i(1) co(1)]] by (simp add: g' split: option.split)
  moreover have "ok j (co_context co') s'"
    if "coroutines g' j = Some co'" "co_state co' = CORO_STATE_SUSPENDED" for j co'
  proof (cases "j = k")
    case True
    then show ?thesis
      using that run_ok [OF i(2,3)] r by (auto simp: g' with_coro_def set_coro_def split: option.splits)
  next
    case False
    then have "coroutines g j = Some co'" using that(1) by (auto simp: g' with_coro_def set_coro_def split: option.splits)
    then have "ok j (co_context co') s" using assms(1) that(2) by (auto simp: sched_ok_def)
    then show ?thesis using run_stable [OF i(2,3) r] False by blast
  qed
  ultimately show ?thesis using run_inv [OF i(2,3) r] by (simp add: sched_ok_def)
qed

lemma resume_from_keeps:
  "sched_ok gs \<Longrightarrow> resume_from run n i gs = Some gs' \<Longrightarrow> sched_ok gs'"
proof (induction n arbitrary: i gs)
  case (Suc n)
  obtain gs1 where "coro_resume_hart run i gs = Some gs1" "resume_from run n (i + 1) gs1 = Some gs'"
    using Suc(3) by (auto split: bind_splits)
  then show ?case using Suc(1) resume_keeps [of "fst gs" "snd gs" i "fst gs1" "snd gs1"] Suc(2) by simp
qed simp

lemma resume_all_keeps: "sched_ok gs \<Longrightarrow> resume_all run n gs = Some gs' \<Longrightarrow> sched_ok gs'"
  unfolding resume_all_def by (rule resume_from_keeps)

end

end
