(* ===== verification/Sched.thy ===== *)
theory Sched
  imports Sbi Coro
begin

text \<open>
  The scheduler of \<^verbatim>\<open>src/main.c\<close>: how a hart is run for some steps with its exceptions handled, the
  coroutine of a hart in a machine with several, the loop that resumes the harts in turn, and the
  operations of the debugger.
\<close>

section \<open>Running a hart for some steps\<close>

text \<open>
  How an iteration of the loop of \<^verbatim>\<open>semu_step_chunk\<close> ends: the function returns, or the hart has
  suspended in a \<^verbatim>\<open>WFI\<close> with some steps to go, or the loop goes on.
\<close>

datatype chunk = Return int | Waiting nat | Continue nat

definition chunk_after :: "u32 \<Rightarrow> bool \<times> nat \<times> emu_state_t \<Rightarrow> (chunk \<times> emu_state_t) option" where
  "chunk_after i = (\<lambda>(suspended, steps, e).
     let h = harts e i
     in if suspended then Some (Waiting steps, e)
        else if error h = ERR_NONE then Some (Return 0, e)
        else if error h = ERR_EXCEPTION \<and> exc_cause h = RV_EXC_ECALL_S then
          do { e \<leftarrow> handle_sbi_ecall i e;
               Some (if stopped e then Return 0 else Continue steps, e) }
        else if error h = ERR_EXCEPTION then Some (Continue steps, set_hart i (hart_trap h) e)
        else Some (Return 2, e))"

partial_function (option) semu_step_chunk :: "u32 \<Rightarrow> nat \<Rightarrow> emu_state_t \<Rightarrow> (chunk \<times> emu_state_t) option" where
  "semu_step_chunk i steps e =
     (if steps = 0 then Some (Return 0, e)
      else
        do { r \<leftarrow> vm_step_many i steps e;
             (c, e) \<leftarrow> chunk_after i r;
             case c of Continue steps \<Rightarrow> semu_step_chunk i steps e | _ \<Rightarrow> Some (c, e) })"

text \<open>The same after the scheduler has resumed a hart that waits.\<close>

definition resume_chunk :: "u32 \<Rightarrow> nat \<Rightarrow> emu_state_t \<Rightarrow> (chunk \<times> emu_state_t) option" where
  "resume_chunk i steps e =
     do { r \<leftarrow> vm_resume i steps e;
          (c, e) \<leftarrow> chunk_after i r;
          case c of Continue steps \<Rightarrow> semu_step_chunk i steps e | _ \<Rightarrow> Some (c, e) }"

text \<open>
  Outside a coroutine \<^verbatim>\<open>coro_yield\<close> prints a message and comes back, so a \<^verbatim>\<open>WFI\<close> goes on at once.
\<close>

partial_function (option) no_coroutine :: "u32 \<Rightarrow> chunk \<times> emu_state_t \<Rightarrow> (int \<times> emu_state_t) option" where
  "no_coroutine i ce =
     (case fst ce of
        Return r \<Rightarrow> Some (r, snd ce)
      | Waiting steps \<Rightarrow> do { ce \<leftarrow> resume_chunk i steps (snd ce); no_coroutine i ce }
      | Continue steps \<Rightarrow> None)"

definition service :: "u32 \<Rightarrow> emu_state_t \<Rightarrow> emu_state_t option" where
  "service i e =
     do { e \<leftarrow> emu_tick_peripherals e;
          e \<leftarrow> emu_update_timer_interrupt i e;
          emu_update_swi_interrupt i e }"

definition semu_service_hart_step :: "u32 \<Rightarrow> emu_state_t \<Rightarrow> (int \<times> emu_state_t) option" where
  "semu_service_hart_step i e = do { e \<leftarrow> service i e; ce \<leftarrow> semu_step_chunk i 1 e; no_coroutine i ce }"

definition semu_run_chunk :: "nat \<Rightarrow> emu_state_t \<Rightarrow> (int \<times> emu_state_t) option" where
  "semu_run_chunk steps e = do { e \<leftarrow> service 0 e; ce \<leftarrow> semu_step_chunk 0 steps e; no_coroutine 0 ce }"

fun step_harts :: "nat \<Rightarrow> u32 \<Rightarrow> emu_state_t \<Rightarrow> (int \<times> emu_state_t) option" where
  "step_harts 0 i e = Some (0, e)"
| "step_harts (Suc k) i e =
     do { (ret, e) \<leftarrow> semu_service_hart_step i e;
          if ret \<noteq> 0 then Some (2, e) else step_harts k (i + 1) e }"

definition semu_step :: "emu_state_t \<Rightarrow> (int \<times> emu_state_t) option" where
  "semu_step e = step_harts (unat (n_hart e)) 0 e"

section \<open>The coroutine of a hart\<close>

text \<open>
  The points at which \<^verbatim>\<open>hart_exec_loop\<close> yields: at the head of its loop, and in a \<^verbatim>\<open>WFI\<close> of a slice, with
  the slices that follow in the batch and the steps to go in this one.
\<close>

datatype hart_point = Top | In_wfi nat nat

abbreviation (input) SEMU_SMP_SLICE_STEPS :: nat where "SEMU_SMP_SLICE_STEPS \<equiv> 8"
abbreviation (input) SEMU_SINGLE_SLICE_STEPS :: nat where "SEMU_SINGLE_SLICE_STEPS \<equiv> 512"

fun batch :: "nat \<Rightarrow> u32 \<Rightarrow> emu_state_t \<Rightarrow> (hart_point option \<times> emu_state_t) option"
  and batch_after :: "nat \<Rightarrow> u32 \<Rightarrow> chunk \<times> emu_state_t \<Rightarrow> (hart_point option \<times> emu_state_t) option" where
  "batch 0 i e = Some (Some Top, e)"
| "batch (Suc k) i e =
     do { e \<leftarrow> service i e;
          ce \<leftarrow> semu_step_chunk i SEMU_SMP_SLICE_STEPS e;
          batch_after k i ce }"
| "batch_after k i ce =
     (case fst ce of
        Waiting steps \<Rightarrow> Some (Some (In_wfi k steps), snd ce)
      | Return r \<Rightarrow>
          if r \<noteq> 0 then Some (None, (snd ce)\<lparr>stopped := True\<rparr>) else batch k i (snd ce)
      | Continue steps \<Rightarrow> None)"

definition hart_exec_loop :: "u32 \<Rightarrow> hart_point \<Rightarrow> emu_state_t \<Rightarrow> (hart_point option \<times> emu_state_t) option" where
  "hart_exec_loop i point e =
     (case point of
        Top \<Rightarrow>
          if stopped e then Some (None, e)
          else if hsm_status (harts e i) \<noteq> SBI_HSM_STATE_STARTED then
            do { e \<leftarrow> service i e; Some (Some Top, e) }
          else batch (64 div SEMU_SMP_SLICE_STEPS) i e
      | In_wfi k steps \<Rightarrow> do { ce \<leftarrow> resume_chunk i steps e; batch_after k i ce })"

text \<open>\<^verbatim>\<open>coro_current_hart_id\<close>, which the UART asks for, is the number of the hart while its coroutine runs.\<close>

definition hart_coroutine :: "(hart_point, emu_state_t) coro_body" where
  "hart_coroutine i point e =
     do { (point, e) \<leftarrow> hart_exec_loop i point (e\<lparr>coro_hart := i\<rparr>);
          Some (point, e\<lparr>coro_hart := CORO_HART_ID_IDLE\<rparr>) }"

section \<open>The main loop\<close>

text \<open>
  What the loop for several harts decides before it sleeps in \<^verbatim>\<open>poll\<close>. The two descriptors, of the timer
  and of the standard input, are open, so there is room for both.
\<close>

record poll_plan =
  watch_timer :: bool
  watch_uart :: bool
  poll_timeout :: int

definition count_harts :: "(u32 \<Rightarrow> bool) \<Rightarrow> u32 \<Rightarrow> nat" where
  "count_harts P n = length (filter (P \<circ> word_of_nat) [0..<unat n])"

definition hart_started :: "emu_state_t \<Rightarrow> u32 \<Rightarrow> bool" where
  "hart_started e i \<longleftrightarrow> hsm_status (harts e i) = SBI_HSM_STATE_STARTED"

definition hart_idle :: "emu_state_t \<Rightarrow> u32 \<Rightarrow> bool" where
  "hart_idle e i \<longleftrightarrow> in_wfi (harts e i) \<or> has_waiting_hart (uart e) \<and> waiting_hart_id (uart e) = i"

definition plan_poll :: "emu_state_t \<Rightarrow> poll_plan" where
  "plan_poll e =
     (let started_harts = count_harts (hart_started e) (n_hart e);
          idle_harts = count_harts (\<lambda>i. hart_started e i \<and> hart_idle e i) (n_hart e);
          all_harts_started = unat (n_hart e) \<le> started_harts;
          boot_complete = (all_harts_started \<and> peripheral_update_ctr e > 5000);
          harts_active = (n_hart e = 1 \<or> \<not> boot_complete \<or> idle_harts = 0);
          need_uart = (n_hart e = 1 \<or> \<not> boot_complete \<or> idle_harts = 0 \<or> has_waiting_hart (uart e))
      in \<lparr>watch_timer = harts_active, watch_uart = need_uart,
          poll_timeout =
            if (harts_active \<or> need_uart) \<and> (started_harts = 0 \<or> idle_harts = started_harts) then - 1
            else if idle_harts > 0 then 10
            else 0\<rparr>)"

text \<open>
  The loops of \<^verbatim>\<open>semu_run\<close>. The list holds the values of \<^verbatim>\<open>signal_received\<close> at the successive tests, one
  per iteration; the result is the exit code, or nothing when the list has ended before the loop.
\<close>

fun smp_loop ::
  "bool list \<Rightarrow> hart_point coro_global \<times> emu_state_t \<Rightarrow> (int option \<times> hart_point coro_global \<times> emu_state_t) option" where
  "smp_loop signals (g, e) =
     (if stopped e then Some (Some 1, coro_cleanup g, e)
      else
        case signals of
          [] \<Rightarrow> Some (None, g, e)
        | signal_received # signals \<Rightarrow>
            if signal_received then Some (Some 0, coro_cleanup g, e)
            else do { ge \<leftarrow> resume_all hart_coroutine (n_hart e) (g, e); smp_loop signals ge })"

fun single_loop :: "bool list \<Rightarrow> emu_state_t \<Rightarrow> (int option \<times> emu_state_t) option" where
  "single_loop signals e =
     (if stopped e then Some (Some 0, e)
      else
        case signals of
          [] \<Rightarrow> Some (None, e)
        | signal_received # signals \<Rightarrow>
            if signal_received then Some (Some 0, e)
            else
              do { (ret, e) \<leftarrow> semu_run_chunk SEMU_SINGLE_SLICE_STEPS e;
                   if ret \<noteq> 0 then Some (Some ret, e) else single_loop signals e })"

definition semu_run ::
  "bool list \<Rightarrow> hart_point coro_global \<times> emu_state_t \<Rightarrow> (int option \<times> hart_point coro_global \<times> emu_state_t) option" where
  "semu_run signals = (\<lambda>(g, e).
     if n_hart e > 1 then smp_loop signals (g, e)
     else do { (code, e) \<leftarrow> single_loop signals e; Some (code, g, e) })"

section \<open>The debugger\<close>

text \<open>The fields of \<^verbatim>\<open>emu_state_t\<close> that only the debugger uses.\<close>

record debug_t =
  is_interrupted :: bool
  curr_cpuid :: int

abbreviation (input) EFAULT :: int where "EFAULT \<equiv> 14"

definition semu_is_interrupt :: "debug_t \<Rightarrow> bool" where
  "semu_is_interrupt d = is_interrupted d"

definition semu_on_interrupt :: "debug_t \<Rightarrow> debug_t" where
  "semu_on_interrupt d = d\<lparr>is_interrupted := True\<rparr>"

definition semu_get_reg_bytes :: "int \<Rightarrow> nat" where
  "semu_get_reg_bytes regno = 4"

definition semu_get_cpu :: "debug_t \<Rightarrow> int" where
  "semu_get_cpu d = curr_cpuid d"

definition semu_set_cpu :: "int \<Rightarrow> debug_t \<Rightarrow> debug_t" where
  "semu_set_cpu cpuid d = d\<lparr>curr_cpuid := cpuid\<rparr>"

text \<open>
  The result is the value of the function and what it has stored at \<^verbatim>\<open>data\<close>; a failed assertion and a
  negative register number are undefined.
\<close>

definition semu_read_reg :: "int \<Rightarrow> u32 \<Rightarrow> debug_t \<Rightarrow> emu_state_t \<Rightarrow> (int \<times> u32) option" where
  "semu_read_reg regno data d e =
     (if regno > 32 then Some (EFAULT, data)
      else if \<not> (word_of_int (curr_cpuid d) :: u32) < n_hart e then None
      else
        let h = harts e (word_of_int (curr_cpuid d))
        in if regno = 32 then Some (0, pc h)
           else if regno < 0 then None
           else Some (0, x_regs h (word_of_int regno)))"

definition semu_read_mem :: "u64 \<Rightarrow> u64 \<Rightarrow> u32 \<Rightarrow> debug_t \<Rightarrow> emu_state_t \<Rightarrow> (int \<times> u32 \<times> emu_state_t) option" where
  "semu_read_mem addr len val d e =
     (if \<not> (0 \<le> curr_cpuid d \<and> curr_cpuid d < uint (n_hart e)) then None
      else do { (v, e) \<leftarrow> mem_load (word_of_int (curr_cpuid d)) (ucast addr) (ucast len) val e; Some (0, v, e) })"

datatype gdb_action_t = ACT_RESUME | ACT_SHUTDOWN

text \<open>
  \<^verbatim>\<open>semu_cont\<close> with the values of the two flags at the successive tests: an interrupt from the debugger, a
  signal. Nothing is returned when the list ends first.
\<close>

fun cont_loop :: "(bool \<times> bool) list \<Rightarrow> emu_state_t \<Rightarrow> (bool \<times> emu_state_t) option" where
  "cont_loop [] e = Some (False, e)"
| "cont_loop ((interrupted, signal_received) # flags) e =
     (if interrupted \<or> signal_received then Some (True, e)
      else do { (ret, e) \<leftarrow> semu_step e; cont_loop flags e })"

definition semu_cont ::
  "(bool \<times> bool) list \<Rightarrow> debug_t \<Rightarrow> emu_state_t \<Rightarrow> (gdb_action_t option \<times> debug_t \<times> emu_state_t) option" where
  "semu_cont flags d e =
     do { (finished, e) \<leftarrow> cont_loop flags e;
          Some (if finished then (Some ACT_RESUME, d\<lparr>is_interrupted := False\<rparr>, e) else (None, d, e)) }"

definition semu_stepi :: "emu_state_t \<Rightarrow> (gdb_action_t \<times> emu_state_t) option" where
  "semu_stepi e = do { (ret, e) \<leftarrow> semu_step e; Some (ACT_RESUME, e) }"

section \<open>What a turn keeps\<close>

definition hsm_ok :: "hart_t \<Rightarrow> bool" where
  "hsm_ok h \<longleftrightarrow> hsm_status h \<in> {SBI_HSM_STATE_STARTED, SBI_HSM_STATE_STOPPED, SBI_HSM_STATE_SUSPENDED}"

text \<open>
  What running hart \<open>i\<close>, its exceptions and its calls keep of every hart, and of the machine. A started
  hart is stopped or suspended by itself only.
\<close>

definition turn_keeps :: "hart_t \<Rightarrow> hart_t \<Rightarrow> bool" where
  "turn_keeps h h' \<longleftrightarrow>
     x_regs h' 0 = x_regs h 0 \<and> mhartid h' = mhartid h \<and> (mode_ok h \<longrightarrow> mode_ok h') \<and> (hsm_ok h \<longrightarrow> hsm_ok h')"

definition turn_effect :: "u32 \<Rightarrow> emu_state_t \<Rightarrow> emu_state_t \<Rightarrow> bool" where
  "turn_effect i e e' \<longleftrightarrow>
     (\<forall>j. turn_keeps (harts e j) (harts e' j)) \<and>
     (\<forall>j. j \<noteq> i \<and> hart_started e j \<longrightarrow> hart_started e' j) \<and>
     n_hart e' = n_hart e \<and> (peripheral_update_ctr e \<le> 64 \<longrightarrow> peripheral_update_ctr e' \<le> 64)"

lemma turn_effect_refl [simp]: "turn_effect i e e"
  by (simp add: turn_effect_def turn_keeps_def)

lemma turn_effect_trans: "turn_effect i e e1 \<Longrightarrow> turn_effect i e1 e2 \<Longrightarrow> turn_effect i e e2"
  by (auto simp: turn_effect_def turn_keeps_def)

lemma turn_effect_flags [simp]:
  "turn_effect i e (e'\<lparr>stopped := b\<rparr>) = turn_effect i e e'" "turn_effect i e (e'\<lparr>coro_hart := k\<rparr>) = turn_effect i e e'"
  "turn_effect i (e\<lparr>coro_hart := k\<rparr>) e' = turn_effect i e e'"
  by (simp_all add: turn_effect_def hart_started_def)

lemma turn_keeps_core: "core h' = core h \<Longrightarrow> turn_keeps h h'"
  by (simp add: turn_keeps_def hsm_ok_def core_def mode_ok_def)

lemma turn_effect_run:
  assumes "run_effect i e e'"
  shows "turn_effect i e e'"
proof -
  have "turn_keeps (harts e j) (harts e' j)" for j
    using assms turn_keeps_core [of "harts e' j" "harts e j"]
    by (cases "j = i") (auto simp: run_effect_def run_part_def turn_keeps_def hsm_ok_def)
  moreover have "hart_started e j \<Longrightarrow> hart_started e' j" if "j \<noteq> i" for j
    using assms that by (auto simp: run_effect_def hart_started_def core_def)
  ultimately show ?thesis using assms by (auto simp: turn_effect_def run_effect_def)
qed

lemma turn_effect_quiet: "quiet e e' \<Longrightarrow> turn_effect i e e'"
  using turn_effect_run insn_run_effect quiet_effect by blast

lemma turn_effect_hart: "turn_keeps (harts e i) h \<Longrightarrow> turn_effect i e (set_hart i h e)"
  by (auto simp: turn_effect_def harts_set_hart hart_started_def turn_keeps_def) (simp_all add: set_hart_def)

lemma turn_keeps_trap: "turn_keeps h (hart_trap h)"
  by (simp add: turn_keeps_def hart_trap_def Let_def hsm_ok_def mode_ok_def)

lemma sbi_turn_handlers:
  "handle_sbi_ecall_BASE i fid e = Some (ret, e') \<Longrightarrow> turn_effect i e e'"
  "handle_sbi_ecall_TIMER i fid e = Some (ret, e') \<Longrightarrow> turn_effect i e e'"
  "handle_sbi_ecall_RST i fid e = Some (ret, e') \<Longrightarrow> turn_effect i e e'"
  "handle_sbi_ecall_HSM i fid e = Some (ret, e') \<Longrightarrow> turn_effect i e e'"
  "handle_sbi_ecall_IPI i fid e = Some (ret, e') \<Longrightarrow> turn_effect i e e'"
  "handle_sbi_ecall_RFENCE i fid e = Some (ret, e') \<Longrightarrow> turn_effect i e e'"
proof -
  have start: "turn_effect i e (set_hart k (hart_start a b c (harts e k)) e)" for k a b c
    by (auto simp: turn_effect_def harts_set_hart hart_started_def turn_keeps_def hart_start_def hsm_ok_def mode_ok_def)
      (simp_all add: set_hart_def)
  have stop: "turn_keeps h (h\<lparr>hsm_status := SBI_HSM_STATE_STOPPED\<rparr>)" "turn_keeps h (hart_suspend a b c h)" for a b c h
    by (auto simp: turn_keeps_def hsm_ok_def mode_ok_def hart_suspend_def Let_def)
  show "handle_sbi_ecall_BASE i fid e = Some (ret, e') \<Longrightarrow> turn_effect i e e'"
    by (simp add: handle_sbi_ecall_BASE_def)
  show "handle_sbi_ecall_RST i fid e = Some (ret, e') \<Longrightarrow> turn_effect i e e'"
    by (auto simp: handle_sbi_ecall_RST_def split: if_splits)
  show "handle_sbi_ecall_HSM i fid e = Some (ret, e') \<Longrightarrow> turn_effect i e e'"
    by (auto simp: handle_sbi_ecall_HSM_def Let_def start stop intro: turn_effect_hart split: if_splits)
  show "handle_sbi_ecall_TIMER i fid e = Some (ret, e') \<Longrightarrow> turn_effect i e e'"
    by (auto simp: handle_sbi_ecall_TIMER_def Let_def turn_effect_def hart_started_def turn_keeps_def hsm_ok_def
        mode_ok_def set_hart_def split: if_splits)
  show "handle_sbi_ecall_IPI i fid e = Some (ret, e') \<Longrightarrow> turn_effect i e e'"
    by (auto simp: handle_sbi_ecall_IPI_def Let_def turn_effect_def hart_started_def turn_keeps_def split: if_splits)
  have fence: "quiet e (e\<lparr>harts := \<lambda>j. if s j then f (harts e j) else harts e j\<rparr>)" if "\<And>h. core (f h) = core h" for f s
    using that by (simp add: quiet_def)
  show "handle_sbi_ecall_RFENCE i fid e = Some (ret, e') \<Longrightarrow> turn_effect i e e'"
    using turn_effect_quiet [OF fence [OF core_fences(2)]] turn_effect_quiet [OF fence [OF core_fences(3)]]
    by (auto simp: handle_sbi_ecall_RFENCE_def for_mask_harts_pointwise Let_def split: if_splits)
qed

lemma sbi_turn:
  assumes "handle_sbi_ecall i e = Some e'"
  shows "turn_effect i e e'" "error (harts e' i) = ERR_NONE"
proof -
  obtain ret e1 where d: "sbi_dispatch (x_regs (harts e i) RV_R_A7) i (x_regs (harts e i) RV_R_A6) e = Some (ret, e1)"
    and e': "e' = set_hart i (sbi_result ret (harts e1 i)) e1"
    using assms by (auto simp: handle_sbi_ecall_eq split: bind_splits)
  have "turn_effect i e e1"
    using d sbi_turn_handlers by (auto simp: sbi_dispatch_def split: if_splits)
  moreover have "turn_effect i e1 e'"
    unfolding e' by (rule turn_effect_hart) (simp add: turn_keeps_def hsm_ok_def, simp add: sbi_result_def)
  ultimately show "turn_effect i e e'" by (rule turn_effect_trans)
  show "error (harts e' i) = ERR_NONE" by (simp add: e')
qed

text \<open>A run of \<^verbatim>\<open>vm_step_many\<close>, or of its continuation after a \<^verbatim>\<open>WFI\<close>: a hart that suspends is started.\<close>

definition run_turn :: "u32 \<Rightarrow> nat \<Rightarrow> emu_state_t \<Rightarrow> bool \<times> nat \<times> emu_state_t \<Rightarrow> bool" where
  "run_turn i n e = (\<lambda>(suspended, left, e').
     turn_effect i e e' \<and> left \<le> n \<and> (suspended \<longrightarrow> 0 < left) \<and> (suspended \<longrightarrow> hart_started e i \<longrightarrow> hart_started e' i))"

lemma run_ends_turn: "run_ends i n e r \<Longrightarrow> run_turn i n e r"
  using turn_effect_run by (auto simp: run_ends_def run_turn_def run_effect_def run_part_def hart_started_def)

lemma step_many_turn:
  assumes "vm_step_many i n e = Some r"
  shows "run_turn i n e r \<and> (fst r \<longrightarrow> hart_started e i)"
proof (cases "hart_started e i \<and> error (harts e i) = ERR_NONE")
  case False
  then have "r = (False, n, e)" using assms by (auto simp: vm_step_many_def hart_started_def)
  then show ?thesis by (simp add: run_turn_def)
next
  case True
  then have "run_from n i 0 e = Some r" using assms by (simp add: vm_step_many_def hart_started_def)
  then show ?thesis using run_ends_turn [OF run_from_ends] True by blast
qed

lemma resume_turn:
  assumes "vm_resume i n e = Some r"
  shows "run_turn i n e r"
proof (cases "error (harts e i) = ERR_NONE")
  case False
  then show ?thesis using assms by (auto simp: vm_resume_def run_turn_def)
next
  case True
  obtain suspended left e' where r: "r = (suspended, left, e')" by (cases r)
  have "run_turn i (n - 1) (retire i e) r"
    using assms True run_ends_turn [OF run_from_ends, of "n - 1" i 0 "retire i e" r] by (simp add: vm_resume_def retire_effect)
  moreover have "turn_effect i e (retire i e)" using turn_effect_run retire_effect(1) .
  moreover have "hart_started (retire i e) i = hart_started e i" by (simp add: hart_started_def retire_def)
  ultimately show ?thesis using turn_effect_trans [of i e "retire i e" e'] by (auto simp: run_turn_def r)
qed

definition chunk_turn :: "u32 \<Rightarrow> nat \<Rightarrow> emu_state_t \<Rightarrow> chunk \<times> emu_state_t \<Rightarrow> bool" where
  "chunk_turn i n e = (\<lambda>(c, e').
     turn_effect i e e' \<and> (\<forall>m. c = Waiting m \<longrightarrow> 0 < m \<and> m \<le> n \<and> hart_started e' i) \<and> (\<forall>m. c = Continue m \<longrightarrow> m \<le> n) \<and>
     (\<forall>r. c = Return r \<longrightarrow> r \<in> {0, 2}))"

lemma chunk_turn_trans:
  "turn_effect i e e1 \<Longrightarrow> m \<le> n \<Longrightarrow> chunk_turn i m e1 ce \<Longrightarrow> chunk_turn i n e ce"
  using turn_effect_trans [of i e e1] by (fastforce simp: chunk_turn_def)

lemma chunk_after_turn:
  assumes "run_turn i n e (suspended, left, e1)" "chunk_after i (suspended, left, e1) = Some ce"
    and "suspended \<Longrightarrow> hart_started e i"
  shows "chunk_turn i n e ce"
  using assms sbi_turn(1) [of i e1] turn_keeps_trap [of "harts e1 i"] turn_effect_trans [of i e e1]
  by (auto simp: run_turn_def chunk_after_def chunk_turn_def Let_def split: if_splits bind_splits
      intro: turn_effect_hart)

lemma step_chunk_turn:
  assumes "semu_step_chunk i n e = Some ce"
  shows "chunk_turn i n e ce \<and> (\<forall>m. fst ce \<noteq> Continue m)"
proof (rule semu_step_chunk.raw_induct [OF _ assms])
  fix f i n e ce
  assume IH: "\<And>i n e ce. f i n e = Some ce \<Longrightarrow> chunk_turn i n e ce \<and> (\<forall>m. fst ce \<noteq> Continue m)"
    and body: "(if n = 0 then Some (Return 0, e)
      else do { r \<leftarrow> vm_step_many i n e;
                (c, e) \<leftarrow> chunk_after i r;
                case c of Continue n \<Rightarrow> f i n e | _ \<Rightarrow> Some (c, e) }) = Some ce"
  show "chunk_turn i n e ce \<and> (\<forall>m. fst ce \<noteq> Continue m)"
  proof (cases "n = 0")
    case True
    then show ?thesis using body by (auto simp: chunk_turn_def)
  next
    case False
    obtain suspended left e1 c e2 where r: "vm_step_many i n e = Some (suspended, left, e1)"
      "chunk_after i (suspended, left, e1) = Some (c, e2)"
      and f: "(case c of Continue m \<Rightarrow> f i m e2 | _ \<Rightarrow> Some (c, e2)) = Some ce"
      using body False by (auto split: bind_splits)
    have t: "chunk_turn i n e (c, e2)" using chunk_after_turn [OF _ r(2)] step_many_turn [OF r(1)] by simp
    show ?thesis
    proof (cases c)
      case (Continue m)
      then have "chunk_turn i m e2 ce \<and> (\<forall>m. fst ce \<noteq> Continue m)" using IH f by simp
      moreover have "turn_effect i e e2" "m \<le> n" using t Continue by (auto simp: chunk_turn_def)
      ultimately show ?thesis using chunk_turn_trans by blast
    qed (use f t in auto)
  qed
qed

lemma resume_chunk_turn:
  assumes "resume_chunk i n e = Some ce" "hart_started e i"
  shows "chunk_turn i n e ce"
proof -
  obtain suspended left e1 c e2 where r: "vm_resume i n e = Some (suspended, left, e1)"
    "chunk_after i (suspended, left, e1) = Some (c, e2)"
    and f: "(case c of Continue m \<Rightarrow> semu_step_chunk i m e2 | _ \<Rightarrow> Some (c, e2)) = Some ce"
    using assms by (auto simp: resume_chunk_def split: bind_splits)
  have t: "chunk_turn i n e (c, e2)" using chunk_after_turn [OF resume_turn [OF r(1)] r(2)] assms(2) .
  show ?thesis
  proof (cases c)
    case (Continue m)
    have "turn_effect i e e2" "m \<le> n" using t Continue by (auto simp: chunk_turn_def)
    then show ?thesis using f Continue step_chunk_turn [of i m e2 ce] chunk_turn_trans [of i e e2 m n ce] by auto
  qed (use f t in auto)
qed

lemma bus_turn: "emu_frame_of e e' \<Longrightarrow> turn_effect i e e'"
  using quiet_bus turn_effect_quiet by blast

lemma tick_turn:
  assumes "emu_tick_peripherals e = Some e'"
  shows "turn_effect i e e'"
proof (cases "peripheral_update_ctr e = 0")
  case False
  then have "peripheral_update_ctr e - 1 \<le> 64" if "peripheral_update_ctr e \<le> 64"
    using that by (simp add: word_le_nat_alt unat_minus_one)
  then show ?thesis
    using assms False by (auto simp: emu_tick_peripherals_def turn_effect_def turn_keeps_def hart_started_def)
next
  case True
  obtain u hs e1 e2 where
    e1: "(if in_ready u then emu_update_uart_interrupts (e\<lparr>peripheral_update_ctr := 64, uart := u, host := hs\<rparr>)
          else Some (e\<lparr>peripheral_update_ctr := 64, uart := u, host := hs\<rparr>)) = Some e1"
    and e2: "(if InterruptStatus (vblk e1) \<noteq> 0 then emu_update_vblk_interrupts e1 else Some e1) = Some e2"
    and e': "(if InterruptStatus (vrng e2) \<noteq> 0 then emu_update_vrng_interrupts e2 else Some e2) = Some e'"
    using assms True by (auto simp: emu_tick_peripherals_def Let_def split: bind_splits prod.splits)
  have "turn_effect i e (e\<lparr>peripheral_update_ctr := 64, uart := u, host := hs\<rparr>)"
    by (simp add: turn_effect_def turn_keeps_def hart_started_def)
  moreover have "turn_effect i (e\<lparr>peripheral_update_ctr := 64, uart := u, host := hs\<rparr>) e1"
    using e1 device_updates_frame(1) bus_turn by (auto split: if_splits)
  moreover have "turn_effect i e1 e2" using e2 device_updates_frame(2) bus_turn by (auto split: if_splits)
  moreover have "turn_effect i e2 e'" using e' device_updates_frame(3) bus_turn by (auto split: if_splits)
  ultimately show ?thesis using turn_effect_trans by blast
qed

lemma service_turn:
  assumes "service i e = Some e'"
  shows "turn_effect i e e'"
proof -
  obtain e1 e2 e3 where s: "emu_tick_peripherals e = Some e1"
    "emu_mtimer_update i (set_hart i ((harts e1 i)\<lparr>time := mtime (mtimer e1)\<rparr>) e1) = Some e2"
    "emu_mswi_update i e2 = Some e3" "emu_sswi_update i e3 = Some e'"
    using assms by (auto simp: service_def emu_update_timer_interrupt_def emu_update_swi_interrupt_def split: bind_splits)
  have "turn_effect i e1 (set_hart i ((harts e1 i)\<lparr>time := mtime (mtimer e1)\<rparr>) e1)"
    by (rule turn_effect_hart) (simp add: turn_keeps_def hsm_ok_def mode_ok_def)
  then show ?thesis
    using tick_turn [OF s(1)] aclint_updates_frame(1) [OF s(2)] aclint_updates_frame(2) [OF s(3)] aclint_updates_frame(3) [OF s(4)]
      bus_turn turn_effect_trans by meson
qed

section \<open>The machine invariant\<close>

definition machine_ok :: "emu_state_t \<Rightarrow> bool" where
  "machine_ok e \<longleftrightarrow>
     (\<forall>j<n_hart e. x_regs (harts e j) 0 = 0 \<and> mhartid (harts e j) = j \<and> mode_ok (harts e j) \<and> hsm_ok (harts e j)) \<and>
     peripheral_update_ctr e \<le> 64"

text \<open>What a hart needs to go on: one that waits in a \<^verbatim>\<open>WFI\<close> is started and has steps to go.\<close>

definition point_ok :: "u32 \<Rightarrow> hart_point \<Rightarrow> emu_state_t \<Rightarrow> bool" where
  "point_ok i point e =
     (case point of Top \<Rightarrow> True
      | In_wfi k m \<Rightarrow> k < 8 \<and> 0 < m \<and> m \<le> SEMU_SMP_SLICE_STEPS \<and> hart_started e i)"

lemma machine_ok_flags [simp]:
  "machine_ok (e\<lparr>coro_hart := k\<rparr>) = machine_ok e" "point_ok i p (e\<lparr>coro_hart := k\<rparr>) = point_ok i p e"
  "hart_started (e\<lparr>coro_hart := k\<rparr>) i = hart_started e i" "hart_started (e\<lparr>stopped := b\<rparr>) i = hart_started e i"
  by (simp_all add: machine_ok_def point_ok_def hart_started_def split: hart_point.split)

lemma turn_machine_ok: "turn_effect i e e' \<Longrightarrow> machine_ok e \<Longrightarrow> machine_ok e'"
  by (simp add: turn_effect_def turn_keeps_def machine_ok_def)

lemma turn_point_ok: "turn_effect i e e' \<Longrightarrow> j \<noteq> i \<Longrightarrow> point_ok j p e \<Longrightarrow> point_ok j p e'"
  by (auto simp: turn_effect_def point_ok_def split: hart_point.splits)

definition batch_turn :: "nat \<Rightarrow> u32 \<Rightarrow> emu_state_t \<Rightarrow> hart_point option \<times> emu_state_t \<Rightarrow> bool" where
  "batch_turn k i e = (\<lambda>(p, e').
     turn_effect i e e' \<and> (\<forall>k' m. p = Some (In_wfi k' m) \<longrightarrow> k' < k \<and> 0 < m \<and> m \<le> 8 \<and> hart_started e' i))"

lemma batch_turn_trans: "turn_effect i e e1 \<Longrightarrow> k \<le> k' \<Longrightarrow> batch_turn k i e1 pe \<Longrightarrow> batch_turn k' i e pe"
  using turn_effect_trans [of i e e1] by (fastforce simp: batch_turn_def)

lemma batch_turns:
  "batch k i e = Some pe \<Longrightarrow> batch_turn k i e pe"
  "batch_after k i ce = Some pe \<Longrightarrow> chunk_turn i 8 e0 ce \<Longrightarrow> batch_turn (Suc k) i e0 pe"
proof (induction k i e and k i ce arbitrary: pe and pe e0 rule: batch_batch_after.induct)
  case (1 i e)
  then show ?case by (auto simp: batch_turn_def)
next
  case (2 k i e)
  obtain e1 ce where s: "service i e = Some e1" "semu_step_chunk i 8 e1 = Some ce" "batch_after k i ce = Some pe"
    using 2(2) by (auto split: bind_splits)
  then have "batch_turn (Suc k) i e1 pe" using 2(1) step_chunk_turn by blast
  then show ?case using batch_turn_trans [OF service_turn [OF s(1)]] by blast
next
  case (3 k i ce)
  obtain c e1 where ce: "ce = (c, e1)" by (cases ce)
  have t: "turn_effect i e0 e1" using 3(3) by (simp add: ce chunk_turn_def)
  show ?case
  proof (cases c)
    case (Waiting m)
    then show ?thesis using 3(2,3) by (auto simp: ce chunk_turn_def batch_turn_def)
  next
    case (Return r)
    then show ?thesis
      using 3(1) [of r pe] 3(2) t batch_turn_trans [OF t, of k "Suc k" pe]
      by (auto simp: ce batch_turn_def split: if_splits)
  qed (use 3(2) in \<open>simp add: ce\<close>)
qed

lemma exec_loop_turn:
  assumes "hart_exec_loop i p e = Some (p', e')" "point_ok i p e"
  shows "turn_effect i e e' \<and> (\<forall>q. p' = Some q \<longrightarrow> point_ok i q e')"
proof -
  have b: ?thesis if "batch_turn 8 i e (p', e')"
    using that by (auto simp: batch_turn_def point_ok_def split: hart_point.split)
  show ?thesis
  proof (cases p)
    case Top
    show ?thesis
    proof (cases "stopped e \<or> \<not> hart_started e i")
      case True
      then show ?thesis
        using assms Top service_turn by (auto simp: hart_exec_loop_def hart_started_def point_ok_def split: if_splits bind_splits)
    next
      case False
      then have "batch 8 i e = Some (p', e')" using assms Top by (simp add: hart_exec_loop_def hart_started_def)
      then show ?thesis using b batch_turns(1) by blast
    qed
  next
    case (In_wfi k m)
    obtain ce where ce: "resume_chunk i m e = Some ce" "batch_after k i ce = Some (p', e')"
      using assms In_wfi by (auto simp: hart_exec_loop_def split: bind_splits)
    have k: "k < 8" "m \<le> 8" "hart_started e i" using assms(2) In_wfi by (auto simp: point_ok_def)
    have "chunk_turn i 8 e ce" using chunk_turn_trans [OF turn_effect_refl k(2)] resume_chunk_turn [OF ce(1) k(3)] by blast
    then have "batch_turn (Suc k) i e (p', e')" using batch_turns(2) ce(2) by blast
    then show ?thesis using b batch_turn_trans [OF turn_effect_refl, of "Suc k" 8] k(1) by auto
  qed
qed

lemma coroutine_turn:
  assumes "hart_coroutine i p e = Some (p', e')" "point_ok i p e"
  shows "turn_effect i e e' \<and> (\<forall>q. p' = Some q \<longrightarrow> point_ok i q e')"
proof -
  obtain e1 where "hart_exec_loop i p (e\<lparr>coro_hart := i\<rparr>) = Some (p', e1)" "e' = e1\<lparr>coro_hart := CORO_HART_ID_IDLE\<rparr>"
    using assms(1) by (auto simp: hart_coroutine_def split: bind_splits)
  then show ?thesis using exec_loop_turn [of i p "e\<lparr>coro_hart := i\<rparr>" p' e1] assms(2) by auto
qed

interpretation smp: coroutine_body hart_coroutine machine_ok point_ok
proof
  fix s k c p s'
  assume "machine_ok s" "point_ok k c s" "hart_coroutine k c s = Some (p, s')"
  then show "machine_ok s'" using coroutine_turn turn_machine_ok by blast
next
  fix s k c c' s'
  assume "machine_ok s" "point_ok k c s" "hart_coroutine k c s = Some (Some c', s')"
  then show "point_ok k c' s'" using coroutine_turn by blast
next
  fix s k c p s' j c'
  assume "machine_ok s" "point_ok k c s" "hart_coroutine k c s = Some (p, s')" "j \<noteq> k" "point_ok j c' s"
  then show "point_ok j c' s'" using coroutine_turn turn_point_ok by blast
qed

section \<open>The loop of a chunk\<close>

text \<open>An iteration after which the loop goes on.\<close>

inductive chunk_iter :: "u32 \<Rightarrow> nat \<times> emu_state_t \<Rightarrow> nat \<times> emu_state_t \<Rightarrow> bool" for i where
  iter: "0 < n \<Longrightarrow> vm_step_many i n e = Some r \<Longrightarrow> chunk_after i r = Some (Continue m, e') \<Longrightarrow> chunk_iter i (n, e) (m, e')"

inductive_cases chunk_iterE: "chunk_iter i (n, e) (m, e')"

lemma threaded_progress: "threaded k i seq insn e = Some (False, left, e') \<Longrightarrow> left \<le> k"
proof (induction k arbitrary: seq insn e)
  case 0
  then show ?case by (subst (asm) threaded.simps) (auto split: bind_splits dispatch.splits)
next
  case (Suc k)
  have "left \<le> k" if "threaded k i sq ins e1 = Some (False, left, e')" for sq ins e1 using Suc(1) that .
  then show ?case
    using Suc(2) by (subst (asm) threaded.simps) (fastforce simp: Let_def split: bind_splits dispatch.splits option.splits)
qed

lemma chunk_after_continue:
  assumes "chunk_after i (suspended, left, e1) = Some (Continue m, e')"
  shows "\<not> suspended" "m = left" "error (harts e' i) = ERR_NONE" "error (harts e1 i) \<noteq> ERR_NONE"
  using assms sbi_turn(2) [of i e1] trap_run(4)
  by (auto simp: chunk_after_def Let_def split: if_splits bind_splits)

text \<open>An iteration that makes no progress is a failed fetch: one that can fetch executes an instruction.\<close>

lemma chunk_iter_progress:
  assumes "chunk_iter i (n, e) (m, e')"
  shows "m \<le> n" "error (harts e' i) = ERR_NONE"
    "error (harts e i) = ERR_NONE \<Longrightarrow> L_slow_path i None 0 e = Some (Some x, e1) \<Longrightarrow> m < n"
proof -
  obtain suspended left e2 where r: "0 < n" "vm_step_many i n e = Some (suspended, left, e2)"
    "chunk_after i (suspended, left, e2) = Some (Continue m, e')"
    using assms by (elim chunk_iterE) (metis prod_cases3)
  note c = chunk_after_continue [OF r(3)]
  show "m \<le> n" using step_many_turn [OF r(2)] c(2) by (simp add: run_turn_def)
  show "error (harts e' i) = ERR_NONE" by (rule c(3))
  assume err: "error (harts e i) = ERR_NONE" and f: "L_slow_path i None 0 e = Some (Some x, e1)"
  obtain k where n: "n = Suc k" using r(1) by (cases n) auto
  have "run_from n i 0 e = Some (False, left, e2)"
    using r(2) c(1,4) err by (auto simp: vm_step_many_def split: if_splits)
  then have "threaded k i (snd x) (fst x) e1 = Some (False, left, e2)"
    using f by (simp add: run_from_def n split_beta)
  then show "m < n" using threaded_progress c(2) n by fastforce
qed

lemma step_chunk_unfold:
  assumes "0 < n" "vm_step_many i n e = Some r" "chunk_after i r = Some (c, e')"
  shows "semu_step_chunk i n e = (case c of Continue m \<Rightarrow> semu_step_chunk i m e' | _ \<Rightarrow> Some (c, e'))"
  using assms by (subst semu_step_chunk.simps) simp

lemma chunk_next:
  assumes "0 < n \<Longrightarrow> \<exists>r ce. vm_step_many i n e = Some r \<and> chunk_after i r = Some ce"
    and "\<And>m e'. chunk_iter i (n, e) (m, e') \<Longrightarrow> \<exists>ce. semu_step_chunk i m e' = Some ce"
  shows "\<exists>ce. semu_step_chunk i n e = Some ce"
proof (cases "n = 0")
  case True
  then show ?thesis by (subst semu_step_chunk.simps) simp
next
  case False
  then obtain r c e' where r: "vm_step_many i n e = Some r" "chunk_after i r = Some (c, e')" using assms(1) by auto
  show ?thesis
  proof (cases c)
    case (Continue m)
    then show ?thesis using step_chunk_unfold [OF _ r] assms(2) iter r False by auto
  qed (use step_chunk_unfold [OF _ r] False in auto)
qed

text \<open>
  C9: Running a chunk ends unless the trap handler itself cannot be fetched. Suppose that no
  iteration of the loop is undefined, and that after an iteration that executed nothing (the fetch
  failed and the trap was entered) the instruction at the handler can be fetched. Then
  \<^verbatim>\<open>semu_step_chunk\<close> returns 0 or 2 or leaves the hart waiting in a \<^verbatim>\<open>WFI\<close> with steps to go, for every
  number of steps: every two iterations use up at least one.
\<close>

theorem chunk_returns:
  assumes defined: "\<And>m e'. (chunk_iter i)\<^sup>*\<^sup>* (n, e) (m, e') \<Longrightarrow> 0 < m \<Longrightarrow>
      \<exists>r ce. vm_step_many i m e' = Some r \<and> chunk_after i r = Some ce"
    and handler: "\<And>m e1 e2. (chunk_iter i)\<^sup>*\<^sup>* (n, e) (m, e1) \<Longrightarrow> chunk_iter i (m, e1) (m, e2) \<Longrightarrow>
      \<exists>x e3. L_slow_path i None 0 e2 = Some (Some x, e3)"
  shows "\<exists>c e'. semu_step_chunk i n e = Some (c, e') \<and>
    (c = Return 0 \<or> c = Return 2 \<or> (\<exists>m. c = Waiting m \<and> 0 < m \<and> m \<le> n))"
proof -
  note reach = rtranclp.rtrancl_into_rtrancl [of "chunk_iter i" "(n, e)"]
  have "\<exists>ce. semu_step_chunk i m e1 = Some ce" if "(chunk_iter i)\<^sup>*\<^sup>* (n, e) (m, e1)" for m e1
    using that
  proof (induction m arbitrary: e1 rule: less_induct)
    case (less m)
    have stay: "\<exists>ce. semu_step_chunk i m e2 = Some ce" if it: "chunk_iter i (m, e1) (m, e2)" for e2
    proof (rule chunk_next [OF defined [OF reach [OF less(2) it]]])
      fix m' e3
      assume it2: "chunk_iter i (m, e2) (m', e3)"
      have "m' < m"
        using handler [OF less(2) it] chunk_iter_progress(3) [OF it2 chunk_iter_progress(2) [OF it]] by blast
      then show "\<exists>ce. semu_step_chunk i m' e3 = Some ce" using less(1) reach [OF reach [OF less(2) it] it2] by blast
    qed
    show ?case
    proof (rule chunk_next [OF defined [OF less(2)]])
      fix m' e3
      assume it: "chunk_iter i (m, e1) (m', e3)"
      then show "\<exists>ce. semu_step_chunk i m' e3 = Some ce"
        using stay chunk_iter_progress(1) [OF it] less(1) [of m' e3] reach [OF less(2) it] by (cases "m' = m") auto
    qed
  qed
  then obtain c e' where "semu_step_chunk i n e = Some (c, e')" by fastforce
  then show ?thesis using step_chunk_turn [of i n e "(c, e')"] by (cases c) (auto simp: chunk_turn_def)
qed

text \<open>The example of a hart at an illegal instruction: one step, then the trap.\<close>

lemma flushed_trap:
  "\<exists>e' e''. vm_step_many 1 1 flushed_emu = Some (False, 0, e') \<and> chunk_after 1 (False, 0, e') = Some (Continue 0, e'')"
  using flushed_step by (auto simp: chunk_after_def Let_def)

lemma flushed_chunk_iter:
  assumes "(chunk_iter 1)\<^sup>*\<^sup>* (1, flushed_emu) (m, e)"
  shows "(m, e) = (1, flushed_emu) \<or> m = 0"
  using assms
proof (induction "(m, e)" arbitrary: m e rule: rtranclp_induct)
  case base
  then show ?case by simp
next
  case (step y)
  have "\<not> chunk_iter 1 (0, e1) x" for e1 x by (auto elim: chunk_iter.cases)
  then have "chunk_iter 1 (1, flushed_emu) (m, e)" using step(2,3) by (cases y) auto
  then show ?case using flushed_trap by (auto elim!: chunk_iterE)
qed

theorem chunk_returns_witness:
  "\<exists>c e'. semu_step_chunk 1 1 flushed_emu = Some (c, e') \<and> (c = Return 0 \<or> c = Return 2 \<or> c = Waiting 1)"
proof -
  have d: "\<exists>r ce. vm_step_many 1 m e' = Some r \<and> chunk_after 1 r = Some ce"
    if "(chunk_iter 1)\<^sup>*\<^sup>* (1, flushed_emu) (m, e')" "0 < m" for m e'
    using flushed_chunk_iter [OF that(1)] that(2) flushed_trap by fastforce
  have h: "\<exists>x e3. L_slow_path 1 None 0 e2 = Some (Some x, e3)"
    if "(chunk_iter 1)\<^sup>*\<^sup>* (1, flushed_emu) (m, e1)" "chunk_iter 1 (m, e1) (m, e2)" for m e1 e2
    using flushed_chunk_iter [OF that(1)] that(2) flushed_trap by (auto elim!: chunk_iterE)
  have "\<exists>c e'. semu_step_chunk 1 1 flushed_emu = Some (c, e') \<and>
      (c = Return 0 \<or> c = Return 2 \<or> (\<exists>m. c = Waiting m \<and> 0 < m \<and> m \<le> 1))"
    by (rule chunk_returns) (use d h in blast)+
  then show ?thesis by (auto simp: le_Suc_eq)
qed

text \<open>
  A handler outside RAM: with translation off, interrupts off and the trap vector beyond RAM, a hart
  at the vector faults on the fetch and traps to the vector again, without executing anything.
\<close>

definition lost_handler :: "u32 \<Rightarrow> emu_state_t \<Rightarrow> bool" where
  "lost_handler i e \<longleftrightarrow>
     (let h = harts e i; a = stvec_addr h
      in hart_started e i \<and> error h = ERR_NONE \<and> s_mode h \<and> \<not> sstatus_sie h \<and> page_table h = None \<and>
         \<not> stvec_vectored h \<and> a \<ge> RAM_SIZE \<and> pc h = a \<and>
         seq_fetch_hit h a = None \<and> fc_n_pages (cache_fetch h (fetch_index (drop_bit 12 a))) \<noteq> drop_bit 12 a \<and>
         \<not> (icache_block_valid h (icache h (icache_idx a)) \<and> tag (icache h (icache_idx a)) = icache_tag a))"

lemma fetch_lookup_cong:
  assumes "seq_fetch_block h' = seq_fetch_block h" "seq_fetch_next_pc h' = seq_fetch_next_pc h"
    "icache h' = icache h" "icache_epoch h' = icache_epoch h"
  shows "seq_fetch_hit h' = seq_fetch_hit h" "icache_block_valid h' = icache_block_valid h"
  using assms by (auto simp: fun_eq_iff seq_fetch_hit_def icache_block_valid_def split: option.split)

lemma lost_handler_step:
  assumes "lost_handler i e" "0 < n"
  shows "\<exists>e'. chunk_iter i (n, e) (n, e') \<and> lost_handler i e'"
proof -
  let ?h = "harts e i" and ?a = "stvec_addr (harts e i)"
  let ?h1 = "vm_set_exception RV_EXC_FETCH_FAULT ?a (?h\<lparr>current_pc := ?a, exc_val := ?a\<rparr>)"
  have l: "hart_started e i" "error ?h = ERR_NONE" "s_mode ?h" "\<not> sstatus_sie ?h" "page_table ?h = None"
      "\<not> stvec_vectored ?h" "?a \<ge> RAM_SIZE" "pc ?h = ?a" "seq_fetch_hit ?h ?a = None"
      "drop_bit 12 ?a \<noteq> fc_n_pages (cache_fetch ?h (fetch_index (drop_bit 12 ?a)))"
      "(icache_block_valid ?h (icache ?h (icache_idx ?a)) \<and> tag (icache ?h (icache_idx ?a)) = icache_tag ?a) = False"
    using assms(1) by (auto simp: lost_handler_def Let_def)
  have np: "\<not> drop_bit 12 ?a < RAM_PAGES" using l ram_page_iff [of ?a] by auto
  have tr: "translate_for Fetching m (?h\<lparr>current_pc := ?a\<rparr>) ?a = Some (?a, m, ?h\<lparr>current_pc := ?a, exc_val := ?a\<rparr>)" for m
    using l by (simp add: translate_for_eq mmu_translate_def)
  have hit: "seq_fetch_hit (?h\<lparr>current_pc := ?a\<rparr>) = seq_fetch_hit ?h"
      "icache_block_valid (?h\<lparr>current_pc := ?a\<rparr>) = icache_block_valid ?h"
      "seq_fetch_hit (hart_trap ?h1) = seq_fetch_hit ?h" "icache_block_valid (hart_trap ?h1) = icache_block_valid ?h"
    using l by (intro fetch_lookup_cong; simp add: hart_trap_def vm_set_exception_def Let_def)+
  have f: "mmu_fetch i ?a 0 (set_hart i (?h\<lparr>current_pc := ?a\<rparr>) e) = Some (0, set_hart i ?h1 e)"
    using l np tr hit(1,2)
    by (auto simp: mmu_fetch_def mem_fetch_def Let_def vm_set_exception_def set_hart_def not_less)
  have t: "take_interrupt i e = Some (False, set_hart i (?h\<lparr>current_pc := ?a\<rparr>) e)"
    using l by (simp add: take_interrupt_def vm_handle_pending_interrupt_def interrupt_taken_def Let_def)
  have "L_slow_path i None 0 e = Some (None, set_hart i ?h1 e)"
    using f l by (simp add: L_slow_path_def t slow_fetch_def advance_def vm_set_exception_def)
  then have s: "vm_step_many i n e = Some (False, n, set_hart i ?h1 e)"
    using l assms(2) by (cases n) (simp_all add: vm_step_many_def run_from_def hart_started_def)
  have c: "chunk_after i (False, n, set_hart i ?h1 e) = Some (Continue n, set_hart i (hart_trap ?h1) e)"
    by (simp add: chunk_after_def Let_def vm_set_exception_def set_hart_def)
  have "lost_handler i (set_hart i (hart_trap ?h1) e)"
    using l hit(3,4) by (simp add: lost_handler_def Let_def) (simp add: hart_trap_def vm_set_exception_def hart_started_def)
  then show ?thesis using iter [OF assms(2) s c] by blast
qed

lemma lost_handler_never_returns:
  assumes "lost_handler i e" "0 < n"
  shows "semu_step_chunk i n e = None"
proof -
  have "lost_handler i e \<longrightarrow> n = 0" if "semu_step_chunk i n e = Some ce" for i n e ce
  proof (rule semu_step_chunk.raw_induct [OF _ that])
    fix f i n e ce
    assume IH: "\<And>i n e ce. f i n e = Some ce \<Longrightarrow> lost_handler i e \<longrightarrow> n = 0"
      and body: "(if n = 0 then Some (Return 0, e)
        else do { r \<leftarrow> vm_step_many i n e;
                  (c, e) \<leftarrow> chunk_after i r;
                  case c of Continue n \<Rightarrow> f i n e | _ \<Rightarrow> Some (c, e) }) = Some ce"
    show "lost_handler i e \<longrightarrow> n = 0"
    proof (intro impI, rule ccontr)
      assume "lost_handler i e" "n \<noteq> 0"
      then obtain e' where "chunk_iter i (n, e) (n, e')" "lost_handler i e'" using lost_handler_step by blast
      then show False using body IH [of i n e' ce] \<open>n \<noteq> 0\<close> by (auto elim!: chunk_iterE)
    qed
  qed
  then show ?thesis using assms by (cases "semu_step_chunk i n e") blast+
qed

section \<open>Sleeping\<close>

lemma filter_conj_length:
  "length (filter (\<lambda>x. P x \<and> Q x) xs) \<le> length (filter P xs)"
  "length (filter (\<lambda>x. P x \<and> Q x) xs) = length (filter P xs) \<longleftrightarrow> (\<forall>x\<in>set xs. P x \<longrightarrow> Q x)"
proof -
  show le: "length (filter (\<lambda>x. P x \<and> Q x) xs) \<le> length (filter P xs)" for xs by (induction xs) auto
  show "length (filter (\<lambda>x. P x \<and> Q x) xs) = length (filter P xs) \<longleftrightarrow> (\<forall>x\<in>set xs. P x \<longrightarrow> Q x)"
  proof (induction xs)
    case (Cons x xs)
    then show ?case using le [of xs] by auto
  qed simp
qed

lemma all_harts: "(\<forall>k\<in>set [0..<unat n]. R (word_of_nat k)) \<longleftrightarrow> (\<forall>i<n. R (i :: u32))"
proof
  assume all: "\<forall>k\<in>set [0..<unat n]. R (word_of_nat k)"
  show "\<forall>i<n. R i"
  proof (intro allI impI)
    fix i assume "i < n"
    then have "unat i \<in> set [0..<unat n]" by (simp add: word_less_nat_alt)
    then show "R i" using all by fastforce
  qed
qed (auto simp: word_less_nat_alt unat_of_nat intro: le_less_trans [OF mod_less_eq_dividend])

lemma count_harts_iff:
  "count_harts P n = 0 \<longleftrightarrow> (\<forall>i<n. \<not> P i)"
  "count_harts (\<lambda>i. P i \<and> Q i) n = count_harts P n \<longleftrightarrow> (\<forall>i<n. P i \<longrightarrow> Q i)"
  "count_harts (\<lambda>i. P i \<and> Q i) n \<le> count_harts P n"
  using all_harts [of n "\<lambda>i. \<not> P i"] all_harts [of n "\<lambda>i. P i \<longrightarrow> Q i"] filter_conj_length [of "P \<circ> word_of_nat" "Q \<circ> word_of_nat"]
  by (simp_all add: count_harts_def filter_empty_conv comp_def)



section \<open>Exit codes and the debugger\<close>

text \<open>A guest that asks for a reset ends the emulator with code 0 if there is one hart, and 1 if there are several.\<close>

lemma reset_exit_codes:
  assumes "stopped e"
  shows "smp_loop signals (g, e) = Some (Some 1, coro_cleanup g, e)" "single_loop signals e = Some (Some 0, e)"
  using assms by simp_all

text \<open>
  The debugger asks for a number of bytes and \<^verbatim>\<open>semu_read_mem\<close> passes it as the width of a load, where 4
  is the code of an unsigned byte: of a word of RAM the debugger gets the first byte.
\<close>

lemma debugger_reads_one_byte:
  assumes "curr_cpuid d = 0" "0 < n_hart e" "addr < RAM_SIZE" "addr AND 3 = 0"
  shows "semu_read_mem (ucast addr) 4 val d e = Some (0, ucast (ucast (emu_ram e (drop_bit 2 addr)) :: u8), e)"
proof -
  have "(ucast (ucast addr :: u64) :: u32) = addr" by (rule bit_word_eqI) (auto simp: bit_simps dest: bit_imp_le_length)
  moreover have "addr AND 3 = 0" "addr < RAM_SIZE" by fact+
  moreover have "0 < uint (n_hart e)" using assms(2) by (simp add: word_less_def)
  moreover have "set_hart 0 (harts e 0) e = e" by (simp add: set_hart_def)
  ultimately show ?thesis
    using assms(1) ram_word_index [of addr]
    by (simp add: semu_read_mem_def mem_load_def ram_read_def RAM_FUNC_def ram_cell_def Let_def)
qed

end
