(* ===== verification/Boot.thy ===== *)
theory Boot
  imports Sched
begin

text \<open>
  The start of the emulator, \<^verbatim>\<open>semu_init\<close> of \<^verbatim>\<open>src/main.c\<close>: the harts, the devices and the coroutines. The
  contents of RAM after the images are loaded, the address of the RAM array, the disk image and what
  the host answers are arguments; the options of the command line leave the number of harts.
\<close>

abbreviation (input) DTB_SIZE :: u32 where "DTB_SIZE \<equiv> 0x100000"
abbreviation (input) CLOCK_FREQ :: u64 where "CLOCK_FREQ \<equiv> 65000000"

definition INIT_HART :: "u32 \<Rightarrow> hart_t \<Rightarrow> hart_t" where
  "INIT_HART i h =
     vm_init (h\<lparr>mhartid := i, ram_base := Some 0, ram_size := RAM_SIZE, s_mode := True,
                hsm_status := SBI_HSM_STATE_STOPPED\<rparr>)"

definition new_hart :: "u32 \<Rightarrow> hart_t" where
  "new_hart i =
     (let dtb_addr = RAM_SIZE - DTB_SIZE;
          h = INIT_HART i zero_hart;
          h = h\<lparr>x_regs := (x_regs h)(RV_R_A0 := i, RV_R_A1 := dtb_addr)\<rparr>
      in if i = 0 then h\<lparr>hsm_status := SBI_HSM_STATE_STARTED, pc := 0\<rparr> else h)"

text \<open>The static variables of \<^verbatim>\<open>src/coro.c\<close>, which start as zero.\<close>

definition coro_zero :: "hart_point coro_global" where
  "coro_zero = \<lparr>coroutines = (\<lambda>_. None), total_slots = 0, hart_slots = 0, current_hart = 0, initialized = False,
     running = None\<rparr>"

fun create_harts :: "nat \<Rightarrow> u32 \<Rightarrow> hart_point coro_global \<Rightarrow> bool \<times> hart_point coro_global" where
  "create_harts 0 i g = (True, g)"
| "create_harts (Suc k) i g =
     (let (created, g) = coro_create_hart i Top g
      in if created then create_harts k (i + 1) g else (False, coro_cleanup g))"

record boot_t =
  boot_image :: ram
  boot_base :: u64
  boot_disk :: "u64 \<Rightarrow> u8"
  boot_disk_size :: u64
  boot_host :: host_t
  boot_entropy :: entropy
  boot_clock :: clock_t

text \<open>The devices: all zero but for the fields that are set.\<close>

definition init_emu :: "boot_t \<Rightarrow> u32 \<Rightarrow> emu_state_t" where
  "init_emu b hart_count =
     (let (t, c) = semu_timer_init CLOCK_FREQ (boot_clock b)
      in \<lparr>stopped = False, emu_ram = boot_image b, host_base = boot_base b, n_hart = hart_count, harts = new_hart,
          plic = \<lparr>masked = 0, ip = 0, ie = (\<lambda>_. 0), active = 0\<rparr>,
          uart = \<lparr>dll = 0, dlh = 0, lcr = 0, ier = 0, current_int = 0, pending_ints = 0, mcr = 0, in_ready = False,
            out_buf = (\<lambda>_. 0), out_buf_len = 0, waiting_hart_id = 0xFFFFFFFF, has_waiting_hart = False\<rparr>,
          host = boot_host b,
          vblk = virtio_blk_init (boot_disk b) (boot_disk_size b)
            (virtio_state_t.extend zero_virtio (virtio_blk_state_t.fields (\<lambda>_. 0) (\<lambda>_. 0) 0)),
          vrng = zero_virtio, entropy = boot_entropy b,
          mtimer = \<lparr>mtimecmp = (\<lambda>_. 0), mtimer_n_hart = hart_count, mtime = t\<rparr>,
          mswi = \<lparr>msip = (\<lambda>_. 0), mswi_n_hart = hart_count\<rparr>, sswi = \<lparr>ssip = (\<lambda>_. 0), sswi_n_hart = hart_count\<rparr>,
          clk = c, peripheral_update_ctr = 0, coro_hart = 0xFFFFFFFF\<rparr>)"

definition semu_init :: "boot_t \<Rightarrow> u32 \<Rightarrow> int \<times> hart_point coro_global \<times> emu_state_t" where
  "semu_init b hart_count =
     (let e = init_emu b hart_count
      in if hart_count > 1 then
           let (initialised, g) = coro_init hart_count hart_count coro_zero
           in if \<not> initialised then (1, g, e)
              else
                let (created, g) = create_harts (unat hart_count) 0 g
                in (if created then 0 else 1, g, e)
         else (0, coro_zero, e))"

section \<open>Lemmas\<close>

lemma new_hart_sel [simp]:
  "x_regs (new_hart i) 0 = 0" "mhartid (new_hart i) = i" "s_mode (new_hart i)" "error (new_hart i) = ERR_NONE"
  "page_table (new_hart i) = None" "pc (new_hart i) = 0"
  "hsm_status (new_hart i) = (if i = 0 then SBI_HSM_STATE_STARTED else SBI_HSM_STATE_STOPPED)"
  "x_regs (new_hart i) RV_R_A0 = i" "x_regs (new_hart i) RV_R_A1 = RAM_SIZE - DTB_SIZE"
  by (simp_all add: new_hart_def INIT_HART_def vm_init_def zero_hart_def Let_def)

lemma init_emu_sel [simp]:
  "harts (init_emu b n) = new_hart" "n_hart (init_emu b n) = n" "peripheral_update_ctr (init_emu b n) = 0"
  "stopped (init_emu b n) = False" "host_base (init_emu b n) = boot_base b" "emu_ram (init_emu b n) = boot_image b"
  by (simp_all add: init_emu_def Let_def split_beta)

lemma init_machine_ok: "machine_ok (init_emu b n)"
  by (simp add: machine_ok_def mode_ok_def hsm_ok_def)

lemma init_caches_ok: "all_caches_ok (init_emu b n)"
proof -
  let ?h = "\<lambda>i. zero_hart\<lparr>mhartid := i, ram_base := Some 0, ram_size := RAM_SIZE, s_mode := True,
                hsm_status := SBI_HSM_STATE_STOPPED\<rparr>"
  have "epochs_ok (?h j)" for j by (simp add: epochs_ok_def zero_hart_def zero_block_def)
  moreover have "caches_of (new_hart j) = caches_of (mmu_invalidate (?h j))" for j
    by (simp add: new_hart_def INIT_HART_def vm_init_def Let_def) (simp add: caches_of_def mmu_invalidate_def Let_def)
  ultimately show ?thesis by (auto simp: all_caches_ok_def intro!: caches_ok_empty)
qed

lemma create_harts_slots:
  assumes "initialized g" "unat i + k \<le> unat (total_slots g)" "\<And>j. unat i \<le> unat j \<Longrightarrow> coroutines g j = None"
  shows "create_harts k i g =
    (True, g\<lparr>coroutines := \<lambda>j. if unat i \<le> unat j \<and> unat j < unat i + k
                              then Some \<lparr>co_id = j, co_state = CORO_STATE_SUSPENDED, co_context = Top\<rparr>
                              else coroutines g j\<rparr>)"
  using assms
proof (induction k arbitrary: i g)
  case 0
  have "(\<lambda>j. if unat i \<le> unat j \<and> unat j < unat i then x j else coroutines g j) = coroutines g" for x by (auto simp: fun_eq_iff)
  then show ?case by simp
next
  case (Suc k)
  let ?co = "\<lambda>j. \<lparr>co_id = j, co_state = CORO_STATE_SUSPENDED, co_context = Top\<rparr>"
  have i: "i < total_slots g" "unat (i + 1) = Suc (unat i)"
    using Suc(3) unat_succ_below [of i "total_slots g"] by (auto simp: word_less_nat_alt)
  have c: "coro_create_hart i Top g = (True, g\<lparr>coroutines := (coroutines g)(i \<mapsto> ?co i)\<rparr>)"
    using i Suc(2,4) by (simp add: coro_create_hart_def not_le)
  have "create_harts k (i + 1) (g\<lparr>coroutines := (coroutines g)(i \<mapsto> ?co i)\<rparr>) =
    (True, g\<lparr>coroutines := \<lambda>j. if unat (i + 1) \<le> unat j \<and> unat j < unat (i + 1) + k then Some (?co j)
                              else ((coroutines g)(i \<mapsto> ?co i)) j\<rparr>)"
    by (subst Suc(1)) (use Suc(2-4) i in \<open>auto cong: if_cong\<close>)
  moreover have "(if Suc (unat i) \<le> unat j \<and> unat j < Suc (unat i) + k then Some (?co j) else ((coroutines g)(i \<mapsto> ?co i)) j) =
    (if unat i \<le> unat j \<and> unat j < unat i + Suc k then Some (?co j) else coroutines g j)" for j
    using word_unat_eq_iff [of i j] by auto
  ultimately show ?case by (simp add: c i(2))
qed

lemma init_coroutines:
  assumes "1 < n" "n \<le> 256"
  obtains g where "semu_init b n = (0, g, init_emu b n)" "idle g" "total_slots g = n"
    "\<And>j. coroutines g j = (if j < n then Some \<lparr>co_id = j, co_state = CORO_STATE_SUSPENDED, co_context = Top\<rparr> else None)"
proof -
  let ?g = "coro_zero\<lparr>total_slots := n, hart_slots := n, current_hart := CORO_HART_ID_IDLE, initialized := True\<rparr>"
  let ?co = "\<lambda>j. if j < n then Some \<lparr>co_id = j, co_state = CORO_STATE_SUSPENDED, co_context = Top\<rparr> else None"
  have c: "coro_init n n coro_zero = (True, ?g)"
    using assms by (auto simp: coro_init_def coro_zero_def)
  have "create_harts (unat n) 0 ?g = (True, ?g\<lparr>coroutines := ?co\<rparr>)"
    by (subst create_harts_slots) (simp_all add: coro_zero_def word_less_nat_alt cong: if_cong)
  then have "semu_init b n = (0, ?g\<lparr>coroutines := ?co\<rparr>, init_emu b n)"
    using assms by (simp add: semu_init_def c Let_def)
  moreover have "idle (?g\<lparr>coroutines := ?co\<rparr>)" by (auto simp: idle_def coro_zero_def split: if_splits)
  ultimately show thesis by (rule that) (simp_all add: coro_zero_def)
qed

lemma init_sched_ok:
  assumes "1 < n" "n \<le> 256" "semu_init b n = (ret, g, e)"
  shows "ret = 0 \<and> smp.sched_ok (g, e)"
proof -
  obtain g' where "semu_init b n = (0, g', init_emu b n)" "idle g'"
    "\<And>j. coroutines g' j = (if j < n then Some \<lparr>co_id = j, co_state = CORO_STATE_SUSPENDED, co_context = Top\<rparr> else None)"
    using init_coroutines [OF assms(1,2)] by metis
  then show ?thesis
    using assms(3) init_machine_ok by (auto simp: smp.sched_ok_def point_ok_def split: if_splits)
qed

lemma smp_loop_keeps:
  assumes "smp_loop signals (g, e) = Some (code, g', e')" "smp.sched_ok (g, e)"
  shows "machine_ok e' \<and> (code = None \<longrightarrow> smp.sched_ok (g', e'))"
  using assms
proof (induction signals arbitrary: g e)
  case Nil
  then show ?case by (auto simp: smp.sched_ok_def split: if_splits)
next
  case (Cons s signals)
  show ?case
  proof (cases "stopped e \<or> s")
    case True
    then show ?thesis using Cons(2,3) by (auto simp: smp.sched_ok_def split: if_splits)
  next
    case False
    then obtain ge where "resume_all hart_coroutine (n_hart e) (g, e) = Some ge" "smp_loop signals ge = Some (code, g', e')"
      using Cons(2) by (auto split: bind_splits)
    then show ?thesis using Cons(1) [of "fst ge" "snd ge"] smp.resume_all_keeps [OF Cons(3)] by auto
  qed
qed

section \<open>Properties\<close>


text \<open>A machine for the examples: empty RAM, no disk, a clock that stands still.\<close>

definition bare :: boot_t where
  "bare = \<lparr>boot_image = (\<lambda>_. 0), boot_base = 0x10000000000, boot_disk = (\<lambda>_. 0), boot_disk_size = 0,
     boot_host = host zero_emu, boot_entropy = [], boot_clock = still_clock 0\<rparr>"


text \<open>
  At power-on hart 0 is started at address 0 in supervisor mode with its number and the address
  of the device tree as arguments, every other hart is stopped, translation is off, and the caches
  of every hart are coherent for whatever RAM holds: the zeroed caches of a new hart, which would
  claim a mapping of page 0, have been invalidated.
\<close>

theorem power_on_state:
  "harts (init_emu b n) j = new_hart j \<and>
   hsm_status (new_hart j) = (if j = 0 then SBI_HSM_STATE_STARTED else SBI_HSM_STATE_STOPPED) \<and>
   pc (new_hart j) = 0 \<and> s_mode (new_hart j) \<and> page_table (new_hart j) = None \<and>
   x_regs (new_hart j) RV_R_A0 = j \<and> x_regs (new_hart j) RV_R_A1 = 0x1FF00000 \<and>
   all_caches_ok (init_emu b n) \<and> machine_ok (init_emu b n)"
  using init_caches_ok init_machine_ok by simp

end
