(* ===== verification/Input_Queue.thy ===== *)
theory Input_Queue
  imports Prelude
begin

text \<open>
  The host side of the virtio keyboard and mouse, \<^verbatim>\<open>src/virtio-input-event.c\<close>: the translation of window
  events into commands, the ring of commands per device between the window thread (the producer) and
  the emulator thread (the consumer), and the gate that coalesces the wake-ups. The numbers that SDL
  gives to keys and buttons are arguments; the pipe that wakes the emulator is a count of bytes.
\<close>

section \<open>Commands and rings\<close>

datatype vinput_cmd =
    VINPUT_CMD_KEYBOARD_KEY u32 u32
  | VINPUT_CMD_MOUSE_BUTTON u32 bool
  | VINPUT_CMD_MOUSE_MOTION u32 u32
  | VINPUT_CMD_MOUSE_WHEEL u32 u32

record vinput_cmd_queue =
  entries :: "u32 \<Rightarrow> vinput_cmd"
  head :: u32
  tail :: u32

abbreviation (input) VINPUT_KEYBOARD_ID :: nat where "VINPUT_KEYBOARD_ID \<equiv> 0"
abbreviation (input) VINPUT_MOUSE_ID :: nat where "VINPUT_MOUSE_ID \<equiv> 1"
abbreviation (input) VINPUT_DEV_CNT :: nat where "VINPUT_DEV_CNT \<equiv> 2"
abbreviation (input) VINPUT_CMD_QUEUE_MASK :: u32 where "VINPUT_CMD_QUEUE_MASK \<equiv> 1023"

record vinput_host =
  vinput_cmd_queues :: "nat \<Rightarrow> vinput_cmd_queue"
  vinput_cmd_wake_pending :: bool
  wake_bytes :: nat
  mouse_grabbed :: bool

definition set_queue :: "nat \<Rightarrow> vinput_cmd_queue \<Rightarrow> vinput_host \<Rightarrow> vinput_host" where
  "set_queue d q s = s\<lparr>vinput_cmd_queues := (vinput_cmd_queues s)(d := q)\<rparr>"

definition window_wake_backend :: "vinput_host \<Rightarrow> vinput_host" where
  "window_wake_backend s = s\<lparr>wake_bytes := wake_bytes s + 1\<rparr>"

text \<open>
  The two halves of a push: the new entry is written and published by the store to \<^verbatim>\<open>head\<close>; then the
  gate is closed, and the pipe written if it was open.
\<close>

definition ring_push :: "vinput_cmd \<Rightarrow> vinput_cmd_queue \<Rightarrow> vinput_cmd_queue option" where
  "ring_push event q =
     (let next_head = (head q + 1) AND VINPUT_CMD_QUEUE_MASK
      in if next_head = tail q then None
         else Some (q\<lparr>entries := (entries q)(head q := event), head := next_head\<rparr>))"

definition exchange_wake :: "vinput_host \<Rightarrow> vinput_host" where
  "exchange_wake s =
     (let old = vinput_cmd_wake_pending s; s = s\<lparr>vinput_cmd_wake_pending := True\<rparr>
      in if \<not> old then window_wake_backend s else s)"

definition vinput_push_cmd :: "nat \<Rightarrow> vinput_cmd \<Rightarrow> vinput_host \<Rightarrow> bool \<times> vinput_host" where
  "vinput_push_cmd dev_id event s =
     (case ring_push event (vinput_cmd_queues s dev_id) of
        None \<Rightarrow> (False, s)
      | Some q \<Rightarrow> (True, exchange_wake (set_queue dev_id q s)))"

definition queue_empty :: "vinput_cmd_queue \<Rightarrow> bool" where
  "queue_empty q \<longleftrightarrow> tail q = head q"

definition vinput_all_queues_empty :: "vinput_host \<Rightarrow> bool" where
  "vinput_all_queues_empty s \<longleftrightarrow>
     queue_empty (vinput_cmd_queues s VINPUT_KEYBOARD_ID) \<and> queue_empty (vinput_cmd_queues s VINPUT_MOUSE_ID)"

definition ring_pop :: "vinput_cmd_queue \<Rightarrow> (vinput_cmd \<times> vinput_cmd_queue) option" where
  "ring_pop q =
     (if tail q = head q then None
      else Some (entries q (tail q), q\<lparr>tail := (tail q + 1) AND VINPUT_CMD_QUEUE_MASK\<rparr>))"

definition vinput_pop_cmd :: "nat \<Rightarrow> vinput_host \<Rightarrow> (vinput_cmd \<times> vinput_host) option" where
  "vinput_pop_cmd dev_id s =
     map_option (\<lambda>(event, q). (event, set_queue dev_id q s)) (ring_pop (vinput_cmd_queues s dev_id))"

definition vinput_rearm_cmd_wake :: "vinput_host \<Rightarrow> bool \<times> vinput_host" where
  "vinput_rearm_cmd_wake s =
     (let s = s\<lparr>vinput_cmd_wake_pending := False\<rparr> in (vinput_all_queues_empty s, s))"

definition vinput_may_have_pending_cmds :: "vinput_host \<Rightarrow> bool" where
  "vinput_may_have_pending_cmds s = vinput_cmd_wake_pending s"

text \<open>
  The loop that pops until the ring is empty, with its body as an argument. A ring holds at most 1023
  commands, so 1024 tests are enough.
\<close>

fun pop_loop :: "nat \<Rightarrow> nat \<Rightarrow> (vinput_cmd \<Rightarrow> 's \<Rightarrow> 's option) \<Rightarrow> vinput_host \<times> 's \<Rightarrow> (vinput_host \<times> 's) option" where
  "pop_loop 0 dev_id f (s, x) = None"
| "pop_loop (Suc fuel) dev_id f (s, x) =
     (case vinput_pop_cmd dev_id s of
        None \<Rightarrow> Some (s, x)
      | Some (event, s) \<Rightarrow> do { x \<leftarrow> f event x; pop_loop fuel dev_id f (s, x) })"

definition vinput_reset_host_events :: "nat \<Rightarrow> vinput_host \<Rightarrow> vinput_host option" where
  "vinput_reset_host_events dev_id s =
     do { (s, _) \<leftarrow> pop_loop 1024 dev_id (\<lambda>_. Some) (s, ());
          let s = s\<lparr>vinput_cmd_wake_pending := False\<rparr>;
          Some (if \<not> vinput_all_queues_empty s then exchange_wake s else s) }"

section \<open>Keys\<close>

text \<open>The Linux codes of the keys, in the order of the table \<^verbatim>\<open>vinput_key_map\<close>.\<close>

definition linux_keys :: "u32 list" where
  "linux_keys =
     [1, 2, 3, 4, 5, 6, 7, 8, 9, 10, 11, 12, 13, 14, 15, 16, 17, 18, 19, 20, 21, 22, 23, 24, 25, 26, 27, 28, 29,
      30, 31, 32, 33, 34, 35, 36, 37, 38, 39, 40, 41, 42, 43, 44, 45, 46, 47, 48, 49, 50, 51, 52, 53, 54, 56, 57, 58,
      59, 60, 61, 62, 63, 64, 65, 66, 67, 68, 69, 70, 71, 72, 73, 55, 74, 75, 76, 77, 78, 79, 80, 81, 82, 83,
      87, 88, 96, 98, 97, 100, 102, 103, 104, 105, 106, 107, 108, 109, 110, 111]"

text \<open>The table, for the list of SDL scancodes in the same order, and its linear search.\<close>

definition vinput_key_map :: "int list \<Rightarrow> (int \<times> u32) list" where
  "vinput_key_map scancodes = zip scancodes linux_keys"

fun key_lookup :: "(int \<times> u32) list \<Rightarrow> int \<Rightarrow> int" where
  "key_lookup [] sdl_scancode = - 1"
| "key_lookup ((scancode, linux_key) # table) sdl_scancode =
     (if sdl_scancode = scancode then uint linux_key else key_lookup table sdl_scancode)"

definition vinput_sdl_scancode_to_linux_key :: "int list \<Rightarrow> int \<Rightarrow> int" where
  "vinput_sdl_scancode_to_linux_key scancodes sdl_scancode = key_lookup (vinput_key_map scancodes) sdl_scancode"

datatype sdl_button = SDL_BUTTON_LEFT | SDL_BUTTON_RIGHT | SDL_BUTTON_MIDDLE | SDL_BUTTON_OTHER

fun vinput_sdl_button_to_linux_key :: "sdl_button \<Rightarrow> int" where
  "vinput_sdl_button_to_linux_key SDL_BUTTON_LEFT = 0x110"
| "vinput_sdl_button_to_linux_key SDL_BUTTON_RIGHT = 0x111"
| "vinput_sdl_button_to_linux_key SDL_BUTTON_MIDDLE = 0x112"
| "vinput_sdl_button_to_linux_key SDL_BUTTON_OTHER = - 1"

type_synonym bitmap = "nat \<Rightarrow> u8"

definition vinput_bitmap_set_bit :: "nat \<Rightarrow> bitmap \<Rightarrow> bitmap" where
  "vinput_bitmap_set_bit b bits = bits(b div 8 := bits (b div 8) OR push_bit (b mod 8) 1)"

fun fill_keys :: "u32 list \<Rightarrow> nat \<Rightarrow> bitmap \<times> nat \<Rightarrow> bitmap \<times> nat" where
  "fill_keys [] bitmap_size (bits, max_byte) = (bits, max_byte)"
| "fill_keys (code # codes) bitmap_size (bits, max_byte) =
     (let byte_idx = unat code div 8
      in if byte_idx \<ge> bitmap_size then fill_keys codes bitmap_size (bits, max_byte)
         else fill_keys codes bitmap_size (vinput_bitmap_set_bit (unat code) bits, max max_byte byte_idx))"

definition virtio_input_fill_ev_key_bitmap :: "bitmap \<Rightarrow> nat \<Rightarrow> bitmap \<times> nat" where
  "virtio_input_fill_ev_key_bitmap bits bitmap_size =
     (let (bits, max_byte) = fill_keys linux_keys bitmap_size (bits, 0) in (bits, max_byte + 1))"

section \<open>Window events\<close>

text \<open>
  The events of the window, with the fields that the code reads; offsets are 32-bit integers.
\<close>

datatype sdl_event =
    SDL_QUIT
  | SDL_WINDOWEVENT bool
  | SDL_KEYDOWN int bool bool
  | SDL_KEYUP int
  | SDL_MOUSEBUTTONDOWN sdl_button
  | SDL_MOUSEBUTTONUP sdl_button
  | SDL_MOUSEMOTION u32 u32
  | SDL_MOUSEWHEEL u32 u32 bool
  | SDL_OTHER

definition window_set_mouse_grab :: "bool \<Rightarrow> vinput_host \<Rightarrow> vinput_host" where
  "window_set_mouse_grab grabbed s = s\<lparr>mouse_grabbed := grabbed\<rparr>"

definition push_key :: "nat \<Rightarrow> int \<Rightarrow> (u32 \<Rightarrow> vinput_cmd) \<Rightarrow> vinput_host \<Rightarrow> vinput_host" where
  "push_key dev_id linux_key cmd s =
     (if linux_key \<ge> 0 then snd (vinput_push_cmd dev_id (cmd (word_of_int linux_key)) s) else s)"

text \<open>
  The body of the loop of \<^verbatim>\<open>vinput_handle_events\<close>; the result tells whether to quit. A key is pressed with
  its scancode, whether it is \<^verbatim>\<open>SDL_SCANCODE_G\<close> with the two modifiers, and whether it repeats.
\<close>

definition handle_event :: "int list \<Rightarrow> sdl_event \<Rightarrow> vinput_host \<Rightarrow> bool \<times> vinput_host" where
  "handle_event scancodes e s =
     (case e of
        SDL_QUIT \<Rightarrow> (True, s)
      | SDL_WINDOWEVENT focus_lost \<Rightarrow> (False, if focus_lost then window_set_mouse_grab False s else s)
      | SDL_KEYDOWN scancode ctrl_alt_g repeats \<Rightarrow>
          (False,
           if mouse_grabbed s \<and> ctrl_alt_g then window_set_mouse_grab False s
           else if repeats then s
           else push_key VINPUT_KEYBOARD_ID (vinput_sdl_scancode_to_linux_key scancodes scancode)
                  (\<lambda>k. VINPUT_CMD_KEYBOARD_KEY k 1) s)
      | SDL_KEYUP scancode \<Rightarrow>
          (False, push_key VINPUT_KEYBOARD_ID (vinput_sdl_scancode_to_linux_key scancodes scancode)
                    (\<lambda>k. VINPUT_CMD_KEYBOARD_KEY k 0) s)
      | SDL_MOUSEBUTTONDOWN b \<Rightarrow>
          (False, push_key VINPUT_MOUSE_ID (vinput_sdl_button_to_linux_key b)
                    (\<lambda>k. VINPUT_CMD_MOUSE_BUTTON k True) (window_set_mouse_grab True s))
      | SDL_MOUSEBUTTONUP b \<Rightarrow>
          (False, push_key VINPUT_MOUSE_ID (vinput_sdl_button_to_linux_key b)
                    (\<lambda>k. VINPUT_CMD_MOUSE_BUTTON k False) s)
      | SDL_MOUSEMOTION xrel yrel \<Rightarrow>
          (False,
           if \<not> mouse_grabbed s \<or> xrel = 0 \<and> yrel = 0 then s
           else snd (vinput_push_cmd VINPUT_MOUSE_ID (VINPUT_CMD_MOUSE_MOTION xrel yrel) s))
      | SDL_MOUSEWHEEL x y flipped \<Rightarrow>
          (let (dx, dy) = (if flipped then (- x, - y) else (x, y))
           in (False, snd (vinput_push_cmd VINPUT_MOUSE_ID (VINPUT_CMD_MOUSE_WHEEL dx dy) s)))
      | SDL_OTHER \<Rightarrow> (False, s))"

text \<open>At most 64 of the events that are ready are handled in one call; the rest is returned.\<close>

fun event_loop :: "nat \<Rightarrow> int list \<Rightarrow> sdl_event list \<Rightarrow> vinput_host \<Rightarrow> bool \<times> sdl_event list \<times> vinput_host" where
  "event_loop 0 scancodes es s = (False, es, s)"
| "event_loop (Suc burst) scancodes [] s = (False, [], s)"
| "event_loop (Suc burst) scancodes (e # es) s =
     (let (quit, s) = handle_event scancodes e s in if quit then (True, es, s) else event_loop burst scancodes es s)"

definition vinput_handle_events :: "int list \<Rightarrow> sdl_event list \<Rightarrow> vinput_host \<Rightarrow> bool \<times> sdl_event list \<times> vinput_host" where
  "vinput_handle_events scancodes es s = event_loop 64 scancodes es s"

section \<open>A ring is a bounded queue\<close>

text \<open>
  What the two threads rely on from the ring between them: a list of at most \<open>cap\<close> elements, pushed
  at the end and popped at the front.
\<close>

locale bounded_fifo =
  fixes push :: "'a \<Rightarrow> 'q \<Rightarrow> 'q option"
    and pop :: "'q \<Rightarrow> ('a \<times> 'q) option"
    and contents :: "'q \<Rightarrow> 'a list"
    and ok :: "'q \<Rightarrow> bool"
    and cap :: nat
  assumes push_full: "ok q \<Longrightarrow> push x q = None \<longleftrightarrow> length (contents q) = cap"
    and push_some: "ok q \<Longrightarrow> push x q = Some q' \<Longrightarrow> ok q' \<and> contents q' = contents q @ [x]"
    and pop_empty: "ok q \<Longrightarrow> pop q = None \<longleftrightarrow> contents q = []"
    and pop_some: "ok q \<Longrightarrow> pop q = Some (x, q') \<Longrightarrow> ok q' \<and> contents q = x # contents q'"
    and bounded: "ok q \<Longrightarrow> length (contents q) \<le> cap"
begin

lemma pop_after_push:
  assumes "ok q" "contents q = []" "push x q = Some q'"
  shows "\<exists>q''. pop q' = Some (x, q'') \<and> contents q'' = []"
proof -
  have q': "ok q'" "contents q' = [x]" using push_some [OF assms(1,3)] assms(2) by auto
  then obtain y q'' where "pop q' = Some (y, q'')" using pop_empty [OF q'(1)] by fastforce
  then show ?thesis using pop_some [OF q'(1)] q'(2) by auto
qed

lemma pop_shortens: "ok q \<Longrightarrow> pop q = Some (x, q') \<Longrightarrow> length (contents q') < length (contents q)"
  using pop_some [of q x q'] by simp

end

definition ring_ok :: "vinput_cmd_queue \<Rightarrow> bool" where
  "ring_ok q \<longleftrightarrow> unat (head q) < 1024 \<and> unat (tail q) < 1024"

definition ring_count :: "vinput_cmd_queue \<Rightarrow> nat" where
  "ring_count q = (unat (head q) + 1024 - unat (tail q)) mod 1024"

definition contents :: "vinput_cmd_queue \<Rightarrow> vinput_cmd list" where
  "contents q = map (\<lambda>k. entries q (word_of_nat ((unat (tail q) + k) mod 1024))) [0..<ring_count q]"

lemma ring_succ: "unat ((h + 1 :: u32) AND 1023) = (unat h + 1) mod 1024"
proof -
  have "(h + 1) AND 1023 = take_bit 10 (h + 1)" by (simp add: take_bit_eq_mask mask_eq_exp_minus_1)
  then show ?thesis by (simp add: unsigned_take_bit_eq take_bit_eq_mod unat_word_ariths mod_mod_cancel)
qed

lemma mod_1024: "(n :: nat) < 2048 \<Longrightarrow> n mod 1024 = (if n < 1024 then n else n - 1024)"
  by (simp add: mod_if)

lemma ring_push_contents:
  assumes "ring_ok q"
  shows "ring_push x q = None \<longleftrightarrow> length (contents q) = 1023"
    "ring_push x q = Some q' \<Longrightarrow> ring_ok q' \<and> contents q' = contents q @ [x]"
proof -
  let ?h = "unat (head q)" and ?t = "unat (tail q)"
  have ht: "?h < 1024" "?t < 1024" using assms by (auto simp: ring_ok_def)
  have full: "(head q + 1) AND 1023 = tail q \<longleftrightarrow> ring_count q = 1023"
    using ht by (simp add: word_unat_eq_iff ring_succ ring_count_def mod_1024) linarith
  then show "ring_push x q = None \<longleftrightarrow> length (contents q) = 1023" by (simp add: ring_push_def contents_def Let_def)
  assume "ring_push x q = Some q'"
  then have q': "q' = q\<lparr>entries := (entries q)(head q := x), head := (head q + 1) AND 1023\<rparr>" "ring_count q \<noteq> 1023"
    using full by (auto simp: ring_push_def Let_def split: if_splits)
  have c: "ring_count q' = Suc (ring_count q)" "ring_count q < 1023"
    using ht q' by (auto simp: ring_count_def ring_succ mod_1024 split: if_splits)
  have last: "word_of_nat ((?t + ring_count q) mod 1024) = head q"
    using ht by (simp add: ring_count_def mod_1024 split: if_splits)
  have "word_of_nat ((?t + k) mod 1024) \<noteq> head q" if "k < ring_count q" for k
    using ht that by (auto simp: word_unat_eq_iff unat_of_nat ring_count_def mod_1024 split: if_splits)
  then have "contents q' = contents q @ [x]" using c(1) last by (simp add: contents_def q'(1))
  moreover have "ring_ok q'" using ht by (simp add: ring_ok_def q'(1) ring_succ)
  ultimately show "ring_ok q' \<and> contents q' = contents q @ [x]" by simp
qed

lemma ring_pop_contents:
  assumes "ring_ok q"
  shows "ring_pop q = None \<longleftrightarrow> contents q = []"
    "ring_pop q = Some (x, q') \<Longrightarrow> ring_ok q' \<and> contents q = x # contents q'"
proof -
  let ?h = "unat (head q)" and ?t = "unat (tail q)"
  have ht: "?h < 1024" "?t < 1024" using assms by (auto simp: ring_ok_def)
  have empty: "tail q = head q \<longleftrightarrow> ring_count q = 0"
    using ht by (auto simp: word_unat_eq_iff ring_count_def mod_1024)
  then show "ring_pop q = None \<longleftrightarrow> contents q = []" by (simp add: ring_pop_def contents_def)
  assume "ring_pop q = Some (x, q')"
  then have q': "x = entries q (tail q)" "q' = q\<lparr>tail := (tail q + 1) AND 1023\<rparr>" "ring_count q \<noteq> 0"
    using empty by (auto simp: ring_pop_def split: if_splits)
  have c: "ring_count q = Suc (ring_count q')"
    using ht q'(2,3) by (auto simp: ring_count_def ring_succ mod_1024 split: if_splits)
  have "((?t + 1) mod 1024 + k) mod 1024 = (?t + Suc k) mod 1024" for k by (simp add: mod_simps)
  then have "contents q = entries q (word_of_nat (?t mod 1024)) # contents q'"
    unfolding contents_def c upt_conv_Cons [OF zero_less_Suc] by (simp add: q'(2) ring_succ map_Suc_upt [symmetric] comp_def del: upt_Suc)
  then show "ring_ok q' \<and> contents q = x # contents q'" using ht by (simp add: q' ring_ok_def ring_succ)
qed

lemma contents_bounded: "length (contents q) \<le> 1023"
  using mod_less_divisor [of 1024 "unat (head q) + 1024 - unat (tail q)"] by (simp add: contents_def ring_count_def)

interpretation ring: bounded_fifo ring_push ring_pop contents ring_ok 1023
  by unfold_locales (use ring_push_contents ring_pop_contents contents_bounded in blast)+

section \<open>Draining a ring\<close>

fun each :: "('a \<Rightarrow> 's \<Rightarrow> 's option) \<Rightarrow> 'a list \<Rightarrow> 's \<Rightarrow> 's option" where
  "each f [] x = Some x"
| "each f (a # as) x = do { x \<leftarrow> f a x; each f as x }"

lemma set_queue_sel [simp]:
  "vinput_cmd_queues (set_queue d q s) d = q" "set_queue d q (set_queue d q' s) = set_queue d q s"
  "d' \<noteq> d \<Longrightarrow> vinput_cmd_queues (set_queue d q s) d' = vinput_cmd_queues s d'"
  "vinput_cmd_wake_pending (set_queue d q s) = vinput_cmd_wake_pending s" "wake_bytes (set_queue d q s) = wake_bytes s"
  by (simp_all add: set_queue_def)

lemma pop_loop_each:
  assumes "ring_ok (vinput_cmd_queues s d)" "length (contents (vinput_cmd_queues s d)) < fuel"
  shows "\<exists>q. pop_loop fuel d f (s, x) = map_option (Pair (set_queue d q s)) (each f (contents (vinput_cmd_queues s d)) x) \<and>
    ring_ok q \<and> contents q = []"
  using assms
proof (induction fuel arbitrary: s x)
  case (Suc fuel)
  let ?q = "vinput_cmd_queues s d"
  show ?case
  proof (cases "ring_pop ?q")
    case None
    then have "contents ?q = []" using ring.pop_empty [OF Suc(2)] by simp
    moreover have "set_queue d ?q s = s" by (simp add: set_queue_def)
    ultimately show ?thesis using None Suc(2) by (intro exI [of _ ?q]) (simp add: vinput_pop_cmd_def)
  next
    case (Some r)
    obtain ev q where r: "ring_pop ?q = Some (ev, q)" using Some by (cases r) simp
    have q: "ring_ok q" "contents ?q = ev # contents q" using ring.pop_some [OF Suc(2) r] by auto
    show ?thesis
    proof (cases "f ev x")
      case None
      then show ?thesis using r q pop_loop.simps(2) by (intro exI [of _ "q\<lparr>tail := head q\<rparr>"])
          (simp add: vinput_pop_cmd_def ring_ok_def contents_def ring_count_def)
    next
      case (Some y)
      then show ?thesis using Suc(1) [of "set_queue d q s" y] Suc(3) q r by (auto simp: vinput_pop_cmd_def)
    qed
  qed
qed simp

lemma pop_loop_drains:
  assumes "ring_ok (vinput_cmd_queues s d)" "pop_loop 1024 d f (s, x) = Some (s', x')"
  shows "each f (contents (vinput_cmd_queues s d)) x = Some x'"
    "\<exists>q. s' = set_queue d q s \<and> ring_ok q \<and> contents q = []"
  using pop_loop_each [OF assms(1), of 1024 f x] contents_bounded [of "vinput_cmd_queues s d"] assms(2)
  by (cases "each f (contents (vinput_cmd_queues s d)) x"; auto)+

end
