(* ===== verification/Virtio_Input.thy ===== *)
theory Virtio_Input
  imports Virtio Input_Queue
begin

text \<open>
  The virtio keyboard and mouse of \<^verbatim>\<open>src/virtio-input.c\<close>: the transport registers at byte addresses, the
  configuration that describes the device to the guest, the status queue, and the delivery of host events
  to the event queue. A device that has not been initialised is \<open>None\<close>.
\<close>

section \<open>State\<close>

record virtio_input_state_t = virtio_state_t +
  cfg_select :: u8
  cfg_subsel :: u8
  cfg_size :: u8
  cfg_payload :: bitmap
  vinput_type :: nat

record virtio_input_event =
  ev_type :: u16
  ev_code :: u16
  ev_value :: u32

abbreviation (input) VINPUT_QUEUES :: u32 where "VINPUT_QUEUES \<equiv> 2"
abbreviation (input) VIRTIO_INPUT_EVENTQ :: u32 where "VIRTIO_INPUT_EVENTQ \<equiv> 0"
abbreviation (input) VIRTIO_INPUT_STATUSQ :: u32 where "VIRTIO_INPUT_STATUSQ \<equiv> 1"
abbreviation (input) VIRTIO_INPUT_REG_SELECT :: u32 where "VIRTIO_INPUT_REG_SELECT \<equiv> 0x100"
abbreviation (input) VIRTIO_INPUT_REG_SUBSEL :: u32 where "VIRTIO_INPUT_REG_SUBSEL \<equiv> 0x101"
abbreviation (input) VIRTIO_INPUT_REG_SIZE :: u32 where "VIRTIO_INPUT_REG_SIZE \<equiv> 0x102"
abbreviation (input) VIRTIO_INPUT_CFG_PAYLOAD_SIZE :: nat where "VIRTIO_INPUT_CFG_PAYLOAD_SIZE \<equiv> 128"
abbreviation (input) VIRTIO_DESC_F_WRITE :: u16 where "VIRTIO_DESC_F_WRITE \<equiv> 2"
abbreviation (input) event_size :: u32 where "event_size \<equiv> 8"
abbreviation (input) VIRTIO_SHMSel :: u32 where "VIRTIO_SHMSel \<equiv> 0x2b"

section \<open>Status queue\<close>

definition avail_idx :: "ram \<Rightarrow> virtio_queue_t \<Rightarrow> u16 option" where
  "avail_idx mem q = map_option (\<lambda>w. ucast (drop_bit 16 w)) (ram_cell mem (QueueAvail q))"

definition used_idx :: "ram \<Rightarrow> virtio_queue_t \<Rightarrow> u16 option" where
  "used_idx mem q = map_option (\<lambda>w. ucast (drop_bit 16 w)) (ram_cell mem (QueueUsed q))"

definition put_used_hdr :: "ram \<Rightarrow> virtio_queue_t \<Rightarrow> u16 \<Rightarrow> ram option" where
  "put_used_hdr mem q new_used = ram_set_cell mem (QueueUsed q) (push_bit 16 (ucast new_used))"

definition take_avail :: "virtio_queue_t \<Rightarrow> virtio_queue_t" where
  "take_avail q = q\<lparr>last_avail := last_avail q + 1\<rparr>"

definition raise_used :: "ram \<Rightarrow> virtio_queue_t \<Rightarrow> 'a virtio_state_t_scheme \<Rightarrow> 'a virtio_state_t_scheme option" where
  "raise_used mem q v =
     do { w \<leftarrow> ram_cell mem (QueueAvail q);
          Some (if w AND 1 = 0 then v\<lparr>InterruptStatus := InterruptStatus v OR VIRTIO_INT__USED_RING\<rparr> else v) }"

text \<open>What both queues ask of a descriptor, but for the direction of its buffer.\<close>

definition bad_desc :: "virtq_desc \<Rightarrow> bool" where
  "bad_desc d \<longleftrightarrow> drop_bit 32 (desc_addr d) \<noteq> 0 \<or> desc_len d < event_size \<or> (ucast (desc_addr d) :: u32) > RAM_SIZE - event_size"

text \<open>
  The loop of \<^verbatim>\<open>virtio_input_drain_statusq\<close>: whether it ran to its end, and the state. The fuel is one more
  than the number of entries between \<^verbatim>\<open>last_avail\<close> and \<^verbatim>\<open>new_avail\<close>.
\<close>

fun statusq_loop ::
  "nat \<Rightarrow> u16 \<Rightarrow> u16 \<Rightarrow> bool \<Rightarrow> virtio_input_state_t \<Rightarrow> ram \<Rightarrow> (bool \<times> bool \<times> u16 \<times> virtio_input_state_t \<times> ram) option" where
  "statusq_loop 0 new_avail new_used consumed vinput mem = None"
| "statusq_loop (Suc fuel) new_avail new_used consumed vinput mem =
     (let q = queues vinput VIRTIO_INPUT_STATUSQ
      in if last_avail q = new_avail then Some (True, consumed, new_used, vinput, mem)
         else do {
           buffer_idx \<leftarrow> avail_entry mem q;
           if ucast buffer_idx \<ge> QueueNum q then Some (False, consumed, new_used, virtio_set_fail vinput, mem)
           else do {
             d \<leftarrow> fetch_desc mem q (ucast buffer_idx);
             if bad_desc d \<or> desc_flags d AND VIRTIO_DESC_F_WRITE \<noteq> 0 then
               Some (False, consumed, new_used, virtio_set_fail vinput, mem)
             else do {
               mem \<leftarrow> put_used mem q new_used (ucast buffer_idx) 0;
               statusq_loop fuel new_avail (new_used + 1) True (upd_queue VIRTIO_INPUT_STATUSQ take_avail vinput) mem } } })"

definition virtio_input_drain_statusq :: "virtio_input_state_t \<Rightarrow> ram \<Rightarrow> (virtio_input_state_t \<times> ram) option" where
  "virtio_input_drain_statusq vinput mem =
     (let q = queues vinput VIRTIO_INPUT_STATUSQ
      in if Status vinput AND VIRTIO_STATUS__DRIVER_OK = 0 \<or> \<not> ready q then Some (vinput, mem)
         else do {
           new_avail \<leftarrow> avail_idx mem q;
           let avail_delta = new_avail - last_avail q;
           new_used \<leftarrow> used_idx mem q;
           if avail_delta > ucast (QueueNum q) then Some (virtio_set_fail vinput, mem)
           else do {
             (finished, consumed, new_used, vinput, mem) \<leftarrow>
               statusq_loop (Suc (unat avail_delta)) new_avail new_used False vinput mem;
             if finished \<and> consumed then
               do { mem \<leftarrow> put_used_hdr mem q new_used; vinput \<leftarrow> raise_used mem q vinput; Some (vinput, mem) }
             else Some (vinput, mem) } })"

section \<open>Event queue\<close>

definition event_bytes :: "virtio_input_event \<Rightarrow> u8 list" where
  "event_bytes ev =
     [ucast (ev_type ev), ucast (drop_bit 8 (ev_type ev)), ucast (ev_code ev), ucast (drop_bit 8 (ev_code ev)),
      ucast (ev_value ev), ucast (drop_bit 8 (ev_value ev)), ucast (drop_bit 16 (ev_value ev)), ucast (drop_bit 24 (ev_value ev))]"

text \<open>The loop of \<^verbatim>\<open>virtio_input_desc_handler\<close> over the events of one report.\<close>

fun desc_loop ::
  "virtio_input_event list \<Rightarrow> u32 \<Rightarrow> u16 \<Rightarrow> virtio_input_state_t \<Rightarrow> ram \<Rightarrow> (bool \<times> u16 \<times> virtio_input_state_t \<times> ram) option" where
  "desc_loop [] qi new_used vinput mem = Some (True, new_used, vinput, mem)"
| "desc_loop (ev # evs) qi new_used vinput mem =
     (let q = queues vinput qi
      in do {
        buffer_idx \<leftarrow> avail_entry mem q;
        if ucast buffer_idx \<ge> QueueNum q then Some (False, new_used, virtio_set_fail vinput, mem)
        else do {
          d \<leftarrow> fetch_desc mem q (ucast buffer_idx);
          if bad_desc d \<or> desc_flags d AND VIRTIO_DESC_F_WRITE = 0 then Some (False, new_used, virtio_set_fail vinput, mem)
          else do {
            mem \<leftarrow> ram_put_bytes mem (desc_addr d) (event_bytes ev);
            mem \<leftarrow> put_used mem q new_used (ucast buffer_idx) event_size;
            desc_loop evs qi (new_used + 1) (upd_queue qi take_avail vinput) mem } } })"

definition virtio_input_desc_handler ::
  "virtio_input_state_t \<Rightarrow> virtio_input_event list \<Rightarrow> u32 \<Rightarrow> ram \<Rightarrow> (bool \<times> virtio_input_state_t \<times> ram) option" where
  "virtio_input_desc_handler vinput input_ev qi mem =
     (let q = queues vinput qi
      in do {
        new_avail \<leftarrow> avail_idx mem q;
        new_used \<leftarrow> used_idx mem q;
        let last_idx = (ucast (last_avail q) :: u32) + word_of_nat (length input_ev);
        let flattened_avail_idx = (ucast new_avail :: u32) + (if new_avail < last_avail q then 0x10000 else 0);
        if flattened_avail_idx < last_idx then Some (False, vinput, mem)
        else do {
          (wrote, new_used, vinput, mem) \<leftarrow> desc_loop input_ev qi new_used vinput mem;
          if wrote then do { mem \<leftarrow> put_used_hdr mem q new_used; Some (True, vinput, mem) }
          else Some (False, vinput, mem) } })"

type_synonym vinput_devs = "nat \<Rightarrow> virtio_input_state_t option"

definition update_eventq :: "virtio_input_state_t \<Rightarrow> virtio_input_event list \<Rightarrow> ram \<Rightarrow> (virtio_input_state_t \<times> ram) option" where
  "update_eventq vinput input_ev mem =
     (let q = queues vinput VIRTIO_INPUT_EVENTQ
      in if Status vinput AND VIRTIO_STATUS__DEVICE_NEEDS_RESET \<noteq> 0 then Some (vinput, mem)
         else if \<not> (Status vinput AND VIRTIO_STATUS__DRIVER_OK \<noteq> 0 \<and> ready q) then Some (vinput, mem)
         else do {
           new_avail \<leftarrow> avail_idx mem q;
           if new_avail - last_avail q > ucast (QueueNum q) then Some (virtio_set_fail vinput, mem)
           else if last_avail q = new_avail then Some (vinput, mem)
           else do {
             (wrote_events, vinput, mem) \<leftarrow> virtio_input_desc_handler vinput input_ev VIRTIO_INPUT_EVENTQ mem;
             if wrote_events then do { vinput \<leftarrow> raise_used mem q vinput; Some (vinput, mem) }
             else Some (vinput, mem) } })"

definition virtio_input_update_eventq ::
  "nat \<Rightarrow> virtio_input_event list \<Rightarrow> vinput_devs \<times> ram \<Rightarrow> (vinput_devs \<times> ram) option" where
  "virtio_input_update_eventq dev_id input_ev = (\<lambda>(devs, mem).
     case devs dev_id of
       None \<Rightarrow> Some (devs, mem)
     | Some vinput \<Rightarrow>
         map_option (\<lambda>(vinput, mem). (devs(dev_id \<mapsto> vinput), mem)) (update_eventq vinput input_ev mem))"

text \<open>The reports of the four kinds of command, each closed by a synchronisation event.\<close>

abbreviation (input) ev_of :: "u16 \<Rightarrow> u16 \<Rightarrow> u32 \<Rightarrow> virtio_input_event" where
  "ev_of t c v \<equiv> \<lparr>ev_type = t, ev_code = c, ev_value = v\<rparr>"

abbreviation (input) ev_syn :: virtio_input_event where "ev_syn \<equiv> ev_of 0 0 0"

definition virtio_input_update_key :: "u32 \<Rightarrow> u32 \<Rightarrow> vinput_devs \<times> ram \<Rightarrow> (vinput_devs \<times> ram) option" where
  "virtio_input_update_key key val = virtio_input_update_eventq VINPUT_KEYBOARD_ID [ev_of 1 (ucast key) val, ev_syn]"

definition virtio_input_update_mouse_button_state :: "u32 \<Rightarrow> bool \<Rightarrow> vinput_devs \<times> ram \<Rightarrow> (vinput_devs \<times> ram) option" where
  "virtio_input_update_mouse_button_state button pressed =
     virtio_input_update_eventq VINPUT_MOUSE_ID [ev_of 1 (ucast button) (if pressed then 1 else 0), ev_syn]"

definition rel_events :: "u16 \<Rightarrow> u16 \<Rightarrow> u32 \<Rightarrow> u32 \<Rightarrow> virtio_input_event list" where
  "rel_events x_code y_code dx dy = (if dx \<noteq> 0 then [ev_of 2 x_code dx] else []) @ (if dy \<noteq> 0 then [ev_of 2 y_code dy] else [])"

definition virtio_input_update_mouse_motion :: "u32 \<Rightarrow> u32 \<Rightarrow> vinput_devs \<times> ram \<Rightarrow> (vinput_devs \<times> ram) option" where
  "virtio_input_update_mouse_motion dx dy s =
     (let input_ev = rel_events 0 1 dx dy
      in if input_ev = [] then Some s else virtio_input_update_eventq VINPUT_MOUSE_ID (input_ev @ [ev_syn]) s)"

definition virtio_input_update_scroll :: "u32 \<Rightarrow> u32 \<Rightarrow> vinput_devs \<times> ram \<Rightarrow> (vinput_devs \<times> ram) option" where
  "virtio_input_update_scroll dx dy s =
     (let input_ev = rel_events 6 8 dx dy
      in if input_ev = [] then Some s else virtio_input_update_eventq VINPUT_MOUSE_ID (input_ev @ [ev_syn]) s)"

fun keyboard_cmd :: "vinput_cmd \<Rightarrow> vinput_devs \<times> ram \<Rightarrow> (vinput_devs \<times> ram) option" where
  "keyboard_cmd (VINPUT_CMD_KEYBOARD_KEY key val) s = virtio_input_update_key key val s"
| "keyboard_cmd _ s = Some s"

fun mouse_cmd :: "vinput_cmd \<Rightarrow> vinput_devs \<times> ram \<Rightarrow> (vinput_devs \<times> ram) option" where
  "mouse_cmd (VINPUT_CMD_MOUSE_BUTTON button pressed) s = virtio_input_update_mouse_button_state button pressed s"
| "mouse_cmd (VINPUT_CMD_MOUSE_MOTION dx dy) s = virtio_input_update_mouse_motion dx dy s"
| "mouse_cmd (VINPUT_CMD_MOUSE_WHEEL dx dy) s = virtio_input_update_scroll dx dy s"
| "mouse_cmd _ s = Some s"

partial_function (option) virtio_input_drain_host_events ::
  "vinput_host \<times> vinput_devs \<times> ram \<Rightarrow> (vinput_host \<times> vinput_devs \<times> ram) option" where
  "virtio_input_drain_host_events s =
     do { s \<leftarrow> pop_loop 1024 VINPUT_KEYBOARD_ID keyboard_cmd s;
          (host, ds) \<leftarrow> pop_loop 1024 VINPUT_MOUSE_ID mouse_cmd s;
          let (empty, host) = vinput_rearm_cmd_wake host;
          if empty then Some (host, ds) else virtio_input_drain_host_events (host, ds) }"

section \<open>Configuration\<close>

definition set_cfg :: "u8 \<Rightarrow> bitmap \<Rightarrow> virtio_input_state_t \<Rightarrow> virtio_input_state_t" where
  "set_cfg sz payload vinput = vinput\<lparr>cfg_size := sz, cfg_payload := payload\<rparr>"

fun vinput_bitmap_get_size :: "bitmap \<Rightarrow> nat \<Rightarrow> nat" where
  "vinput_bitmap_get_size bits 0 = 0"
| "vinput_bitmap_get_size bits (Suc max_bytes) =
     (if bits max_bytes = 0 then vinput_bitmap_get_size bits max_bytes else Suc max_bytes)"

definition set_bits :: "nat list \<Rightarrow> virtio_input_state_t \<Rightarrow> virtio_input_state_t" where
  "set_bits bs vinput =
     (let payload = fold vinput_bitmap_set_bit bs (\<lambda>_. 0)
      in set_cfg (word_of_nat (vinput_bitmap_get_size payload VIRTIO_INPUT_CFG_PAYLOAD_SIZE)) payload vinput)"

definition virtio_input_properties :: "virtio_input_state_t \<Rightarrow> virtio_input_state_t" where
  "virtio_input_properties vinput =
     (if vinput_type vinput = VINPUT_KEYBOARD_ID then set_cfg 0 (\<lambda>_. 0) vinput
      else if vinput_type vinput = VINPUT_MOUSE_ID then set_bits [0] vinput
      else vinput\<lparr>cfg_payload := (\<lambda>_. 0)\<rparr>)"

definition virtio_input_fill_keyboard_ev_bits :: "u8 \<Rightarrow> virtio_input_state_t \<Rightarrow> virtio_input_state_t" where
  "virtio_input_fill_keyboard_ev_bits event vinput =
     (if event = 0x01 then
        let (bits, sz) = virtio_input_fill_ev_key_bitmap (\<lambda>_. 0) VIRTIO_INPUT_CFG_PAYLOAD_SIZE
        in set_cfg (word_of_nat sz) bits vinput
      else if event = 0x11 then set_bits [0, 1, 2] vinput
      else if event = 0x14 then set_bits [0, 1] vinput
      else set_cfg 0 (\<lambda>_. 0) vinput)"

definition virtio_input_fill_mouse_ev_bits :: "u8 \<Rightarrow> virtio_input_state_t \<Rightarrow> virtio_input_state_t" where
  "virtio_input_fill_mouse_ev_bits event vinput =
     (if event = 0x01 then set_bits [0x110, 0x111, 0x112] vinput
      else if event = 0x02 then set_bits [0, 1, 6, 8] vinput
      else set_cfg 0 (\<lambda>_. 0) vinput)"

definition virtio_input_fill_ev_bits :: "u8 \<Rightarrow> virtio_input_state_t \<Rightarrow> virtio_input_state_t" where
  "virtio_input_fill_ev_bits event vinput =
     (if vinput_type vinput = VINPUT_KEYBOARD_ID then virtio_input_fill_keyboard_ev_bits event vinput
      else if vinput_type vinput = VINPUT_MOUSE_ID then virtio_input_fill_mouse_ev_bits event vinput
      else vinput)"

definition virtio_input_fill_abs_info :: "virtio_input_state_t \<Rightarrow> virtio_input_state_t" where
  "virtio_input_fill_abs_info vinput = vinput\<lparr>cfg_size := 0\<rparr>"

definition vinput_dev_name :: "nat \<Rightarrow> string" where
  "vinput_dev_name dev_id = (if dev_id = VINPUT_KEYBOARD_ID then ''VirtIO Keyboard'' else ''VirtIO Mouse'')"

definition cfg_string :: "string \<Rightarrow> virtio_input_state_t \<Rightarrow> virtio_input_state_t" where
  "cfg_string str = set_cfg (word_of_nat (length str)) (\<lambda>k. if k < length str then of_char (str ! k) else 0)"

definition virtio_input_cfg_read :: "virtio_input_state_t \<Rightarrow> virtio_input_state_t" where
  "virtio_input_cfg_read vinput =
     (let vinput = set_cfg 0 (\<lambda>_. 0) vinput; select = cfg_select vinput
      in if select = 0x01 then cfg_string (vinput_dev_name (vinput_type vinput)) vinput
         else if select = 0x02 then cfg_string ''None'' vinput
         else if select = 0x03 then set_cfg 8 (\<lambda>k. if k = 0 then 6 else if k = 6 then 1 else 0) vinput
         else if select = 0x10 then virtio_input_properties vinput
         else if select = 0x11 then virtio_input_fill_ev_bits (cfg_subsel vinput) vinput
         else if select = 0x12 then virtio_input_fill_abs_info vinput
         else vinput)"

text \<open>
  The bytes of \<^verbatim>\<open>struct virtio_input_config\<close>, undefined past its 136 bytes, and the \<^verbatim>\<open>memcpy\<close> of some of
  them into a register.
\<close>

definition cfg_byte :: "virtio_input_state_t \<Rightarrow> nat \<Rightarrow> u8 option" where
  "cfg_byte vinput k =
     (if k = 0 then Some (cfg_select vinput) else if k = 1 then Some (cfg_subsel vinput)
      else if k = 2 then Some (cfg_size vinput) else if k < 8 then Some 0
      else if k < 8 + VIRTIO_INPUT_CFG_PAYLOAD_SIZE then Some (cfg_payload vinput (k - 8)) else None)"

fun cfg_bytes :: "virtio_input_state_t \<Rightarrow> nat \<Rightarrow> nat \<Rightarrow> u32 option" where
  "cfg_bytes vinput offset 0 = Some 0"
| "cfg_bytes vinput offset (Suc n) =
     do { b \<leftarrow> cfg_byte vinput offset; r \<leftarrow> cfg_bytes vinput (Suc offset) n; Some (ucast b OR push_bit 8 r) }"

section \<open>Registers\<close>

definition zero_vinput :: "virtio_input_state_t \<Rightarrow> virtio_input_state_t" where
  "zero_vinput vinput =
     vinput\<lparr>DeviceFeaturesSel := 0, DriverFeatures := 0, DriverFeaturesSel := 0, QueueSel := 0,
       queues := (\<lambda>_. \<lparr>QueueNum = 0, QueueDesc = 0, QueueAvail = 0, QueueUsed = 0, last_avail = 0, ready = False\<rparr>),
       Status := 0, InterruptStatus := 0\<rparr>"

definition virtio_input_update_status ::
  "virtio_input_state_t \<Rightarrow> vinput_host \<Rightarrow> u32 \<Rightarrow> (virtio_input_state_t \<times> vinput_host) option" where
  "virtio_input_update_status vinput host status =
     (if status \<noteq> 0 then Some (vinput\<lparr>Status := Status vinput OR status\<rparr>, host)
      else do { host \<leftarrow> vinput_reset_host_events (vinput_type vinput) host; Some (zero_vinput vinput, host) })"

definition virtio_input_is_config_access :: "u32 \<Rightarrow> nat \<Rightarrow> bool" where
  "virtio_input_is_config_access addr access_size \<longleftrightarrow>
     access_size \<noteq> 0 \<and> unat addr \<ge> 0x100 \<and> unat addr + access_size \<le> 0x100 + 136"

definition virtio_input_reg_read ::
  "virtio_input_state_t \<Rightarrow> u32 \<Rightarrow> u32 \<Rightarrow> nat \<Rightarrow> (bool \<times> u32 \<times> virtio_input_state_t) option" where
  "virtio_input_reg_read vinput addr val sz =
     do { r \<leftarrow> (if addr AND 3 = 0 then virtio_reg_read VINPUT_QUEUES 18 vinput (drop_bit 2 addr) else Some None);
          case r of
            Some v \<Rightarrow> Some (True, v, vinput)
          | None \<Rightarrow>
              if addr = VIRTIO_INPUT_REG_SIZE then
                let vinput = virtio_input_cfg_read vinput in Some (True, ucast (cfg_size vinput), vinput)
              else if \<not> RANGE_CHECK addr 0x100 136 then Some (False, val, vinput)
              else do { v \<leftarrow> cfg_bytes vinput (unat (addr - VIRTIO_INPUT_REG_SELECT)) sz; Some (True, v, vinput) } }"

definition rings_fit :: "virtio_queue_t \<Rightarrow> bool" where
  "rings_fit q \<longleftrightarrow>
     (let qnum = QueueNum q
      in \<not> (qnum = 0 \<or> QueueAvail q + 1 + (qnum - 1) div 2 \<ge> RAM_WORDS \<or> QueueDesc q + qnum * 4 > RAM_WORDS \<or>
            QueueUsed q + qnum * 2 \<ge> RAM_WORDS))"

definition write_queue_ready :: "virtio_input_state_t \<Rightarrow> ram \<Rightarrow> u32 \<Rightarrow> virtio_input_state_t option" where
  "write_queue_ready vinput mem val =
     do { q \<leftarrow> sel_queue VINPUT_QUEUES vinput;
          let vinput = upd_queue (QueueSel vinput) (\<lambda>q. q\<lparr>ready := val AND 1 \<noteq> 0\<rparr>) vinput;
          if val AND 1 = 0 then Some vinput
          else if \<not> rings_fit q then Some (virtio_set_fail vinput)
          else do { new_avail \<leftarrow> avail_idx mem q;
                    Some (upd_queue (QueueSel vinput) (\<lambda>q. q\<lparr>last_avail := new_avail\<rparr>) vinput) } }"

type_synonym vinput_ctx = "virtio_input_state_t \<times> ram \<times> vinput_host"

definition virtio_input_reg_write :: "vinput_ctx \<Rightarrow> u32 \<Rightarrow> u32 \<Rightarrow> (bool \<times> vinput_ctx) option" where
  "virtio_input_reg_write = (\<lambda>(vinput, mem, host) addr val.
     if addr = VIRTIO_INPUT_REG_SELECT then Some (True, vinput\<lparr>cfg_select := ucast val\<rparr>, mem, host)
     else if addr = VIRTIO_INPUT_REG_SUBSEL then Some (True, vinput\<lparr>cfg_subsel := ucast val\<rparr>, mem, host)
     else if addr AND 3 \<noteq> 0 then Some (False, vinput, mem, host)
     else let reg = drop_bit 2 addr
       in if reg = VIRTIO_QueueReady then map_option (\<lambda>v. (True, v, mem, host)) (write_queue_ready vinput mem val)
          else if reg = VIRTIO_QueueNotify then
            if val \<ge> VINPUT_QUEUES then Some (True, virtio_set_fail vinput, mem, host)
            else if val = VIRTIO_INPUT_STATUSQ then
              map_option (\<lambda>(v, mem). (True, v, mem, host)) (virtio_input_drain_statusq vinput mem)
            else Some (True, vinput, mem, host)
          else if reg = VIRTIO_Status then
            map_option (\<lambda>(v, host). (True, v, mem, host)) (virtio_input_update_status vinput host val)
          else if reg = VIRTIO_SHMSel then Some (True, vinput, mem, host)
          else do {
            r \<leftarrow> virtio_reg_write VINPUT_QUEUES mem vinput reg val;
            Some (case r of Some v \<Rightarrow> (True, v, mem, host) | None \<Rightarrow> (False, vinput, mem, host)) })"

definition vinput_misaligned :: "u32 \<Rightarrow> nat \<Rightarrow> bool" where
  "vinput_misaligned addr access_size \<longleftrightarrow>
     (if \<not> virtio_input_is_config_access addr access_size then access_size \<noteq> 4 \<or> addr AND 3 \<noteq> 0
      else addr AND word_of_nat (access_size - 1) \<noteq> 0)"

definition virtio_input_read ::
  "virtio_input_state_t \<Rightarrow> u32 \<Rightarrow> u8 \<Rightarrow> u32 \<Rightarrow> hart_t \<Rightarrow> (u32 \<times> virtio_input_state_t \<times> hart_t) option" where
  "virtio_input_read vinput addr width val h =
     (let access_size = (if width = RV_MEM_LW then 4 else if width \<in> {RV_MEM_LBU, RV_MEM_LB} then 1
                         else if width \<in> {RV_MEM_LHU, RV_MEM_LH} then 2 else 0)
      in if access_size = 0 then Some (val, vinput, vm_set_exception RV_EXC_ILLEGAL_INSN 0 h)
         else if vinput_misaligned addr access_size then Some (val, vinput, vm_set_exception RV_EXC_LOAD_MISALIGN (exc_val h) h)
         else do {
           (ok, val, vinput) \<leftarrow> virtio_input_reg_read vinput addr val access_size;
           Some (val, vinput, if ok then h else vm_set_exception RV_EXC_LOAD_FAULT (exc_val h) h) })"

definition virtio_input_write :: "vinput_ctx \<Rightarrow> u32 \<Rightarrow> u8 \<Rightarrow> u32 \<Rightarrow> hart_t \<Rightarrow> (vinput_ctx \<times> hart_t) option" where
  "virtio_input_write s addr width val h =
     (let access_size = (if width = RV_MEM_SW then 4 else if width = RV_MEM_SB then 1 else if width = RV_MEM_SH then 2 else 0)
      in if access_size = 0 then Some (s, vm_set_exception RV_EXC_ILLEGAL_INSN 0 h)
         else if vinput_misaligned addr access_size then Some (s, vm_set_exception RV_EXC_STORE_MISALIGN (exc_val h) h)
         else do {
           (ok, s) \<leftarrow> virtio_input_reg_write s addr val;
           Some (s, if ok then h else vm_set_exception RV_EXC_STORE_FAULT (exc_val h) h) })"

definition virtio_input_irq_pending :: "virtio_input_state_t \<Rightarrow> bool" where
  "virtio_input_irq_pending vinput \<longleftrightarrow> InterruptStatus vinput \<noteq> 0"

text \<open>Initialisation gives the devices their numbers in order; \<open>None\<close> is the exit when there are too many.\<close>

definition virtio_input_init :: "virtio_input_state_t \<Rightarrow> nat \<Rightarrow> vinput_devs \<Rightarrow> (nat \<times> vinput_devs) option" where
  "virtio_input_init vinput vinput_dev_cnt devs =
     (if vinput_dev_cnt \<ge> VINPUT_DEV_CNT then None
      else Some (vinput_dev_cnt + 1, devs(vinput_dev_cnt \<mapsto> vinput\<lparr>vinput_type := vinput_dev_cnt\<rparr>)))"

section \<open>The device on the bus\<close>

lemma cfg_type [simp]:
  "vinput_type (set_cfg n p v) = vinput_type v" "vinput_type (virtio_input_cfg_read v) = vinput_type v"
  "vinput_type (zero_vinput v) = vinput_type v"
  by (simp_all add: set_cfg_def virtio_input_cfg_read_def cfg_string_def virtio_input_properties_def set_bits_def
      virtio_input_fill_ev_bits_def virtio_input_fill_keyboard_ev_bits_def virtio_input_fill_mouse_ev_bits_def
      virtio_input_fill_abs_info_def zero_vinput_def Let_def split: prod.splits)

lemma more_type: "virtio_state_t.more v' = virtio_state_t.more v \<Longrightarrow> vinput_type v' = vinput_type (v :: virtio_input_state_t)"
  by (cases v, cases v') simp

lemma upd_queue_more [simp]: "virtio_state_t.more (upd_queue i f v) = virtio_state_t.more v"
  by (simp add: upd_queue_def)

lemma reg_write_more:
  "virtio_reg_write n mem v addr val = Some (Some v') \<Longrightarrow> virtio_state_t.more v' = virtio_state_t.more v"
  by (auto simp: virtio_reg_write_def virtio_set_queue_addr_def virtio_preprocess_def split: if_splits bind_splits)

lemma statusq_loop_more:
  "statusq_loop fuel new_avail new_used consumed v mem = Some (fin, c, u, v', mem') \<Longrightarrow>
   virtio_state_t.more v' = virtio_state_t.more v"
  by (induction fuel arbitrary: new_used consumed v mem) (fastforce simp: Let_def split: if_splits bind_splits)+

lemma drain_statusq_more:
  "virtio_input_drain_statusq v mem = Some (v', mem') \<Longrightarrow> virtio_state_t.more v' = virtio_state_t.more v"
  by (auto simp: virtio_input_drain_statusq_def raise_used_def Let_def split: if_splits bind_splits dest!: statusq_loop_more)

lemma reg_read_type: "virtio_input_reg_read v addr val n = Some (ok, r, v') \<Longrightarrow> vinput_type v' = vinput_type v"
  by (auto simp: virtio_input_reg_read_def Let_def split: if_splits bind_splits option.splits)

lemma reg_write_type:
  assumes "virtio_input_reg_write (v, mem, host) addr val = Some (ok, v', mem', host')"
  shows "vinput_type v' = vinput_type v"
proof -
  have "vinput_type v'' = vinput_type v" if "write_queue_ready v mem val = Some v''" for v''
    using that by (auto intro!: more_type simp: write_queue_ready_def Let_def split: if_splits bind_splits)
  then show ?thesis using assms
    by (auto simp: virtio_input_reg_write_def virtio_input_update_status_def Let_def split: if_splits bind_splits option.splits
        dest: reg_write_more [THEN more_type] drain_statusq_more [THEN more_type])
      (auto intro!: more_type)
qed

interpretation vinput: mmio_device
  "\<lambda>(v, mem, host) addr width val h.
     map_option (\<lambda>(r, v, h). (r, (v, mem, host), h)) (virtio_input_read v addr width val h)"
  virtio_input_write "\<lambda>(v, mem, host). vinput_type v"
  by unfold_locales
    (auto simp: virtio_input_read_def virtio_input_write_def Let_def split: if_splits bind_splits
      dest: reg_read_type reg_write_type)

section \<open>Rings inside guest RAM\<close>

text \<open>The rings of a queue that passed the check of \<^verbatim>\<open>QueueReady\<close>, in natural numbers.\<close>

definition queue_fits :: "virtio_queue_t \<Rightarrow> bool" where
  "queue_fits q \<longleftrightarrow> 0 < QueueNum q \<and> QueueNum q \<le> QUEUE_NUM_MAX \<and>
     unat (QueueAvail q) + 1 + (unat (QueueNum q) - 1) div 2 < 0x8000000 \<and>
     unat (QueueDesc q) + 4 * unat (QueueNum q) \<le> 0x8000000 \<and>
     unat (QueueUsed q) + 2 * unat (QueueNum q) < 0x8000000"

lemma rings_fit_queue_fits:
  assumes "queue_ok q" "rings_fit q"
  shows "queue_fits q"
proof -
  let ?n = "QueueNum q"
  have b: "?n \<noteq> 0" "unat ?n \<le> 1024" "unat (QueueDesc q) < 0x8000000" "unat (QueueAvail q) < 0x8000000" "unat (QueueUsed q) < 0x8000000"
    using assms by (auto simp: queue_ok_def rings_fit_def word_le_nat_alt word_less_nat_alt)
  have n: "unat (?n - 1) = unat ?n - 1" "0 < unat ?n" using b(1) by (simp_all add: unat_minus_one unat_gt_0)
  have "unat (QueueAvail q + 1 + (?n - 1) div 2) = unat (QueueAvail q) + 1 + (unat ?n - 1) div 2"
    using b n by (simp add: unat_word_ariths unat_div)
  moreover have "unat (QueueDesc q + ?n * 4) = unat (QueueDesc q) + 4 * unat ?n"
    using b by (simp add: unat_word_ariths)
  moreover have "unat (QueueUsed q + ?n * 2) = unat (QueueUsed q) + 2 * unat ?n"
    using b by (simp add: unat_word_ariths)
  ultimately show ?thesis
    using assms(2) b n by (auto simp: queue_fits_def rings_fit_def Let_def word_le_nat_alt word_less_nat_alt word_neq_0_conv)
qed

lemma queues_upd_queue [simp]: "queues (upd_queue i f v) = (queues v)(i := f (queues v i))"
  by (simp add: upd_queue_def)

lemma take_avail_fields [simp]:
  "last_avail (take_avail q) = last_avail q + 1" "QueueNum (take_avail q) = QueueNum q" "QueueDesc (take_avail q) = QueueDesc q"
  "QueueAvail (take_avail q) = QueueAvail q" "QueueUsed (take_avail q) = QueueUsed q" "ready (take_avail q) = ready q"
  by (simp_all add: take_avail_def)

lemma queue_fits_take [simp]: "queue_fits (take_avail q) = queue_fits q"
  by (simp add: queue_fits_def)

lemma ring_index_fits:
  assumes "queue_fits q"
  shows "\<exists>r. ring_index i q = Some r \<and> r < QueueNum q \<and> unat (ucast r :: u16) = unat r"
proof -
  have "unat (ucast i mod QueueNum q :: u32) < unat (QueueNum q)" "unat (QueueNum q) \<le> 1024"
    using assms by (simp_all add: queue_fits_def unat_mod word_less_nat_alt word_le_nat_alt)
  then show ?thesis using assms
    by (auto simp: ring_index_def queue_fits_def word_less_nat_alt unsigned_ucast_eq take_bit_eq_mod)
qed

lemma avail_entry_fits:
  assumes "queue_fits q"
  shows "\<exists>e. avail_entry mem q = Some e"
proof -
  obtain r where r: "ring_index (last_avail q) q = Some r" "r < QueueNum q" "unat (ucast r :: u16) = unat r"
    using ring_index_fits [OF assms] by blast
  have "unat r < 1024" using assms r(2) by (simp add: queue_fits_def word_less_nat_alt word_le_nat_alt)
  then have "unat r div 2 mod 65536 = unat r div 2" "unat r div 2 < 1024" by auto
  then have "unat (QueueAvail q + 1 + ucast ((ucast r :: u16) div 2)) = unat (QueueAvail q) + 1 + unat r div 2"
    using assms r(2,3) by (simp add: queue_fits_def unat_word_ariths unat_div word_less_nat_alt unsigned_ucast_eq word_le_nat_alt
        take_bit_eq_mod)
  moreover have "unat r div 2 \<le> (unat (QueueNum q) - 1) div 2" using r(2) by (intro div_le_mono) (simp add: word_less_nat_alt)
  ultimately have "QueueAvail q + 1 + ucast ((ucast r :: u16) div 2) < RAM_WORDS"
    using assms by (simp add: queue_fits_def word_less_nat_alt)
  then show ?thesis using r(1) by (simp add: avail_entry_def ram_cell_def Let_def)
qed

lemma fetch_desc_fits:
  assumes "queue_fits q" "i < QueueNum q"
  shows "\<exists>d. fetch_desc mem q i = Some d"
proof -
  have "unat (QueueDesc q + i * 4 + k) = unat (QueueDesc q) + unat i * 4 + unat k" if "k \<le> 3" for k
    using assms that by (simp add: queue_fits_def unat_word_ariths word_less_nat_alt word_le_nat_alt)
  from this [of 0] this [of 1] this [of 2] this [of 3]
  have "QueueDesc q + i * 4 < RAM_WORDS" "QueueDesc q + i * 4 + 1 < RAM_WORDS" "QueueDesc q + i * 4 + 2 < RAM_WORDS"
    "QueueDesc q + i * 4 + 3 < RAM_WORDS"
    using assms by (simp_all add: queue_fits_def word_less_nat_alt word_le_nat_alt)
  then show ?thesis by (simp add: fetch_desc_def ram_cell_def Let_def)
qed

lemma put_used_fits:
  assumes "queue_fits q"
  shows "\<exists>mem'. put_used mem q used i n = Some mem'"
proof -
  obtain r where r: "ring_index used q = Some r" "r < QueueNum q" using ring_index_fits [OF assms] by blast
  have "unat (QueueUsed q + 1 + r * 2) = unat (QueueUsed q) + 1 + unat r * 2"
    "unat (QueueUsed q + 1 + r * 2 + 1) = unat (QueueUsed q) + 1 + unat r * 2 + 1"
    using assms r by (simp_all add: queue_fits_def unat_word_ariths word_less_nat_alt word_le_nat_alt)
  then have "QueueUsed q + 1 + r * 2 < RAM_WORDS" "QueueUsed q + 1 + r * 2 + 1 < RAM_WORDS"
    using assms r(2) by (simp_all add: queue_fits_def word_less_nat_alt word_le_nat_alt)
  then show ?thesis using r(1) by (simp add: put_used_def ram_set_cell_def)
qed

lemma idx_fits:
  assumes "queue_fits q"
  shows "\<exists>i. avail_idx mem q = Some i" "\<exists>i. used_idx mem q = Some i" "\<exists>mem'. put_used_hdr mem q u = Some mem'"
    "\<exists>v'. raise_used mem q v = Some v'"
  using assms by (auto simp: avail_idx_def used_idx_def put_used_hdr_def raise_used_def ram_cell_def ram_set_cell_def
      queue_fits_def word_less_nat_alt)

lemma good_desc_put:
  assumes "\<not> bad_desc d" "length bs = 8"
  shows "\<exists>mem'. ram_put_bytes mem (desc_addr d) bs = Some mem'"
proof -
  have d: "drop_bit 32 (desc_addr d) = 0" "unat (ucast (desc_addr d) :: u32) \<le> 0x1FFFFFF8"
    using assms(1) by (auto simp: bad_desc_def word_le_nat_alt not_less)
  have "unat (drop_bit 32 (desc_addr d)) = unat (desc_addr d) div 2 ^ 32" by (simp add: drop_bit_eq_div unat_div)
  then have "unat (desc_addr d) < 2 ^ 32" using d(1) by (simp add: div_eq_0_iff)
  then have "unat (desc_addr d) \<le> 0x1FFFFFF8" using d(2) by (simp add: unsigned_ucast_eq take_bit_eq_mod)
  then show ?thesis using ram_put_bytes_spec [of "desc_addr d" bs mem] assms(2) by auto
qed

text \<open>
  A queue that the guest has made ready, in a device that may use it, has its rings inside guest RAM.
\<close>

definition vinput_safe :: "virtio_input_state_t \<Rightarrow> bool" where
  "vinput_safe v \<longleftrightarrow> virtio_ok VINPUT_QUEUES v \<and> vinput_type v < VINPUT_DEV_CNT \<and>
     (\<forall>i < VINPUT_QUEUES. ready (queues v i) \<longrightarrow> queue_fits (queues v i))"

lemma vinput_safe_queues:
  "vinput_safe v \<Longrightarrow> QueueSel v' = QueueSel v \<Longrightarrow> queues v' = queues v \<Longrightarrow> vinput_type v' = vinput_type v \<Longrightarrow> vinput_safe v'"
  by (simp add: vinput_safe_def virtio_ok_def)

lemma set_fail_type [simp]: "vinput_type (virtio_set_fail v) = vinput_type (v :: virtio_input_state_t)"
  by (rule more_type) simp

lemma vinput_safe_fail: "vinput_safe v \<Longrightarrow> vinput_safe (virtio_set_fail v)"
  by (erule vinput_safe_queues) simp_all

lemma vinput_safe_take: "vinput_safe v \<Longrightarrow> vinput_safe (upd_queue i take_avail v)"
  by (auto simp: vinput_safe_def virtio_ok_def upd_queue_def queue_ok_def)

lemma raise_used_safe: "raise_used mem q v = Some v' \<Longrightarrow> vinput_safe v \<Longrightarrow> vinput_safe v'"
  by (auto simp: raise_used_def elim: vinput_safe_queues split: bind_splits if_splits)

lemma statusq_loop_total:
  assumes "queue_fits (queues v 1)" "vinput_safe v" "unat (new_avail - last_avail (queues v 1)) < fuel"
  shows "\<exists>fin c u v' mem'. statusq_loop fuel new_avail new_used consumed v mem = Some (fin, c, u, v', mem') \<and> vinput_safe v'"
  using assms
proof (induction fuel arbitrary: v new_used consumed mem)
  case (Suc fuel)
  let ?q = "queues v 1"
  obtain e where e: "avail_entry mem ?q = Some e" using avail_entry_fits [OF Suc(2)] by blast
  show ?case
  proof (cases "last_avail ?q = new_avail \<or> ucast e \<ge> QueueNum ?q")
    case True
    then show ?thesis using e Suc(3) vinput_safe_fail by (auto simp: Let_def)
  next
    case go: False
    then obtain d where d: "fetch_desc mem ?q (ucast e) = Some d" using fetch_desc_fits [OF Suc(2)] by (auto simp: not_le)
    obtain m where m: "put_used mem ?q new_used (ucast e) 0 = Some m" using put_used_fits [OF Suc(2)] by blast
    have "unat (new_avail - (last_avail ?q + 1)) < fuel"
      using go Suc(4) u16_distance_decreases [of "last_avail ?q" new_avail] by simp
    then show ?thesis
      using Suc(1) [of "upd_queue 1 take_avail v" "new_used + 1" True m] Suc(2,3) go e d m vinput_safe_fail vinput_safe_take
      by (auto simp: Let_def)
  qed
qed simp

lemma drain_statusq_total:
  assumes "vinput_safe v"
  shows "\<exists>v' mem'. virtio_input_drain_statusq v mem = Some (v', mem') \<and> vinput_safe v'"
proof (cases "Status v AND VIRTIO_STATUS__DRIVER_OK = 0 \<or> \<not> ready (queues v 1)")
  case True
  then show ?thesis using assms by (auto simp: virtio_input_drain_statusq_def Let_def)
next
  case False
  let ?q = "queues v 1"
  have q: "queue_fits ?q" using assms False by (auto simp: vinput_safe_def)
  obtain a u where au: "avail_idx mem ?q = Some a" "used_idx mem ?q = Some u" using idx_fits(1,2) [OF q] by metis
  obtain fin c u' v' m where l: "statusq_loop (Suc (unat (a - last_avail ?q))) a u False v mem = Some (fin, c, u', v', m)" "vinput_safe v'"
    using statusq_loop_total [OF q assms] by blast
  obtain m' where m': "put_used_hdr m ?q u' = Some m'" using idx_fits(3) [OF q] by blast
  obtain v'' where v'': "raise_used m' ?q v' = Some v''" using idx_fits(4) [OF q] by blast
  then have "vinput_safe v''" using l(2) by (rule raise_used_safe)
  then show ?thesis using False au l m' v'' vinput_safe_fail [OF assms]
    by (auto simp: virtio_input_drain_statusq_def Let_def simp del: statusq_loop.simps)
qed

lemma desc_loop_total:
  assumes "queue_fits (queues v qi)" "vinput_safe v"
  shows "\<exists>w u v' mem'. desc_loop evs qi new_used v mem = Some (w, u, v', mem') \<and> vinput_safe v'"
  using assms
proof (induction evs arbitrary: v new_used mem)
  case (Cons ev evs)
  let ?q = "queues v qi"
  obtain e where e: "avail_entry mem ?q = Some e" using avail_entry_fits [OF Cons(2)] by blast
  show ?case
  proof (cases "ucast e \<ge> QueueNum ?q")
    case True
    then show ?thesis using e Cons(3) vinput_safe_fail by (auto simp: Let_def)
  next
    case go: False
    then obtain d where d: "fetch_desc mem ?q (ucast e) = Some d" using fetch_desc_fits [OF Cons(2)] by (auto simp: not_le)
    show ?thesis
    proof (cases "bad_desc d")
      case True
      then show ?thesis using e d go Cons(3) vinput_safe_fail by (auto simp: Let_def)
    next
      case False
      then obtain m1 where m1: "ram_put_bytes mem (desc_addr d) (event_bytes ev) = Some m1"
        using good_desc_put [of d "event_bytes ev"] by (auto simp: event_bytes_def)
      obtain m where "put_used m1 ?q new_used (ucast e) event_size = Some m" using put_used_fits [OF Cons(2)] by blast
      then show ?thesis
        using Cons(1) [of "upd_queue qi take_avail v" "new_used + 1" m] Cons(2,3) go e d m1 vinput_safe_fail vinput_safe_take
        by (auto simp: Let_def)
    qed
  qed
qed auto

lemma update_eventq_total:
  assumes "vinput_safe v"
  shows "\<exists>v' mem'. update_eventq v evs mem = Some (v', mem') \<and> vinput_safe v'"
proof (cases "Status v AND VIRTIO_STATUS__DEVICE_NEEDS_RESET = 0 \<and> Status v AND VIRTIO_STATUS__DRIVER_OK \<noteq> 0 \<and> ready (queues v 0)")
  case False
  then show ?thesis using assms by (auto simp: update_eventq_def Let_def)
next
  case True
  let ?q = "queues v 0"
  have q: "queue_fits ?q" using assms True by (auto simp: vinput_safe_def)
  obtain a u where au: "avail_idx mem ?q = Some a" "used_idx mem ?q = Some u" using idx_fits(1,2) [OF q] by metis
  obtain w u' v' m where l: "desc_loop evs 0 u v mem = Some (w, u', v', m)" "vinput_safe v'"
    using desc_loop_total [OF q assms] by blast
  obtain m' where m': "put_used_hdr m ?q u' = Some m'" using idx_fits(3) [OF q] by blast
  obtain v'' where v'': "raise_used m' ?q v' = Some v''" using idx_fits(4) [OF q] by blast
  then have "vinput_safe v''" using l(2) by (rule raise_used_safe)
  then show ?thesis using True assms au l m' v'' vinput_safe_fail [OF assms]
    by (auto simp: update_eventq_def virtio_input_desc_handler_def Let_def)
qed

definition devs_safe :: "vinput_devs \<times> ram \<Rightarrow> bool" where
  "devs_safe s \<longleftrightarrow> (\<forall>d v. fst s d = Some v \<longrightarrow> vinput_safe v)"

lemma eventq_total: "devs_safe s \<Longrightarrow> \<exists>s'. virtio_input_update_eventq d evs s = Some s' \<and> devs_safe s'"
proof (cases s)
  case (Pair devs mem)
  assume safe: "devs_safe s"
  show ?thesis
  proof (cases "devs d")
    case (Some v)
    then obtain v' mem' where "update_eventq v evs mem = Some (v', mem')" "vinput_safe v'"
      using safe Pair update_eventq_total [of v evs mem] by (auto simp: devs_safe_def)
    then show ?thesis using safe Pair Some by (auto simp: virtio_input_update_eventq_def devs_safe_def)
  qed (use safe Pair in \<open>simp add: virtio_input_update_eventq_def\<close>)
qed

lemma cmd_total:
  assumes "devs_safe s"
  shows "\<exists>s'. keyboard_cmd c s = Some s' \<and> devs_safe s'" "\<exists>s'. mouse_cmd c s = Some s' \<and> devs_safe s'"
proof -
  note step = eventq_total [OF assms]
  have rel: "\<exists>s'. (if evs = [] then Some s else virtio_input_update_eventq d (evs @ [ev_syn]) s) = Some s' \<and> devs_safe s'" for d evs
    using assms step by (cases "evs = []") (simp_all del: split_paired_Ex)
  show "\<exists>s'. keyboard_cmd c s = Some s' \<and> devs_safe s'"
    by (cases c) (simp_all only: keyboard_cmd.simps virtio_input_update_key_def step option.inject simp_thms assms)
  show "\<exists>s'. mouse_cmd c s = Some s' \<and> devs_safe s'"
    by (cases c) (simp_all only: mouse_cmd.simps virtio_input_update_mouse_button_state_def virtio_input_update_mouse_motion_def
        virtio_input_update_scroll_def Let_def rel step option.inject simp_thms assms)
qed

lemma each_total:
  assumes "\<And>c x. P x \<Longrightarrow> \<exists>y. f c x = Some y \<and> P y"
  shows "P x \<Longrightarrow> \<exists>y. each f cs x = Some y \<and> P y"
proof (induction cs arbitrary: x)
  case (Cons c cs)
  then show ?case using assms [OF Cons(2), of c] by auto
qed simp

lemma pop_loop_total:
  assumes "ring_ok (vinput_cmd_queues host d)" "\<And>c x. P x \<Longrightarrow> \<exists>y. f c x = Some y \<and> P y" "P x"
  shows "\<exists>q y. pop_loop 1024 d f (host, x) = Some (set_queue d q host, y) \<and> P y \<and> ring_ok q \<and> contents q = [] \<and>
    each f (contents (vinput_cmd_queues host d)) x = Some y"
proof -
  obtain y where y: "each f (contents (vinput_cmd_queues host d)) x = Some y" "P y"
    using each_total [of P f x, OF assms(2,3)] by metis
  then show ?thesis
    using pop_loop_each [OF assms(1), of 1024 f x] contents_bounded [of "vinput_cmd_queues host d"] by auto
qed

lemma empty_contents: "ring_ok q \<Longrightarrow> contents q = [] \<Longrightarrow> queue_empty q"
  using ring.pop_empty [of q] by (auto simp: ring_pop_def queue_empty_def split: if_splits)

section \<open>Register accesses\<close>

lemma top_bit_u32: "bit (y :: u32) 31 \<longleftrightarrow> 0x80000000 \<le> unat y"
proof -
  have "bit y 31 \<longleftrightarrow> bit (unat y) 31" by (simp add: bit_unsigned_iff)
  also have "\<dots> \<longleftrightarrow> odd (unat y div 0x80000000)" by (simp add: bit_iff_odd)
  finally have "bit y 31 \<longleftrightarrow> odd (unat y div 0x80000000)" .
  moreover have "unat y div 0x80000000 < 2" using unsigned_less [of y, where 'a = nat] by (simp add: less_mult_imp_div_less)
  ultimately show ?thesis by (cases "unat y < 0x80000000") (auto simp: less_2_cases_iff div_eq_0_iff)
qed

lemma config_range: "RANGE_CHECK x 0x100 136 \<Longrightarrow> unat x = unat (x - 0x100) + 0x100 \<and> unat (x - 0x100) < 136"
proof -
  assume r: "RANGE_CHECK x 0x100 136"
  define y where "y = x - 0x100"
  have x: "0x100 + 136 - 1 - x = 0x87 - y" "x = y + 0x100" by (simp_all add: y_def)
  have "\<not> bit (y OR (0x87 - y)) 31"
    using r bit_last_iff [of "y OR (0x87 - y)"] unfolding RANGE_CHECK_def x(1) y_def [symmetric] by simp
  then have "\<not> bit y 31" "\<not> bit (0x87 - y) 31" by (simp_all add: bit_or_iff)
  then have b: "unat y < 0x80000000" "unat (0x87 - y) < 0x80000000" by (simp_all add: top_bit_u32 not_le)
  have "unat y < 136"
  proof (rule ccontr)
    assume "\<not> unat y < 136"
    then have "y - 0x88 \<le> y" "unat (y - 0x88) = unat y - 136" by (simp_all add: word_le_nat_alt unat_sub)
    moreover have "0x87 - y = - 1 - (y - 0x88)" by simp
    moreover have "unat (- 1 - (y - 0x88)) = unat (- 1 :: u32) - unat (y - 0x88)" by (rule unat_sub) simp
    ultimately show False using b by (simp add: unsigned_minus_1_eq_mask mask_eq_exp_minus_1)
  qed
  then show ?thesis by (simp add: x(2) unat_word_ariths)
qed

lemma cfg_bytes_total: "offset + n \<le> 136 \<Longrightarrow> \<exists>r. cfg_bytes v offset n = Some r"
proof (induction n arbitrary: offset)
  case (Suc n)
  then obtain r where "cfg_bytes v (Suc offset) n = Some r" by fastforce
  moreover have "\<exists>b. cfg_byte v offset = Some b" using Suc(2) by (simp add: cfg_byte_def)
  ultimately show ?case by auto
qed simp

lemma vinput_read_total:
  assumes "virtio_ok VINPUT_QUEUES v"
  shows "\<exists>r. virtio_input_read v addr width val h = Some r"
proof -
  have cfg: "\<exists>r. cfg_bytes v (unat (addr - 0x100)) n = Some r"
    if "\<not> vinput_misaligned addr n" "RANGE_CHECK addr 0x100 136" for n
  proof (rule cfg_bytes_total)
    have a: "unat addr = unat (addr - 0x100) + 0x100" "unat (addr - 0x100) < 136" using config_range [OF that(2)] by auto
    show "unat (addr - 0x100) + n \<le> 136"
    proof (cases "virtio_input_is_config_access addr n")
      case True
      then show ?thesis using a(1) by (simp add: virtio_input_is_config_access_def)
    next
      case False
      then have n: "n = 4" "addr AND 3 = 0" using that(1) by (simp_all add: vinput_misaligned_def)
      then have "take_bit 2 addr = 0" by (simp add: take_bit_eq_mask mask_eq_exp_minus_1)
      then have "unat addr mod 4 = 0"
        using unsigned_take_bit_eq [of 2 addr, where 'a = nat] by (simp add: take_bit_eq_mod [of 2 "unat addr"])
      then show ?thesis using a n(1) by presburger
    qed
  qed
  have reg: "\<exists>r. virtio_input_reg_read v addr val n = Some r" if "\<not> vinput_misaligned addr n" for n
  proof -
    obtain r where r: "(if addr AND 3 = 0 then virtio_reg_read VINPUT_QUEUES 18 v (drop_bit 2 addr) else Some None) = Some r"
      using virtio_reg_read_total [OF assms, of 18 "drop_bit 2 addr"] by (cases "addr AND 3 = 0") auto
    show ?thesis using cfg [OF that] by (cases r) (auto simp: virtio_input_reg_read_def r Let_def simp del: split_paired_Ex)
  qed
  have tail: "\<exists>r. (if n = 0 then Some a else if vinput_misaligned addr n then Some b
      else virtio_input_reg_read v addr val n \<bind> (\<lambda>x. Some (f x))) = Some r" for n a b and f :: "_ \<Rightarrow> u32 \<times> virtio_input_state_t \<times> hart_t"
    using reg [of n] by (cases "n = 0 \<or> vinput_misaligned addr n") (auto simp del: split_paired_Ex)
  show ?thesis unfolding virtio_input_read_def Let_def case_prod_unfold by (rule tail)
qed

lemma reset_host_total:
  assumes "ring_ok (vinput_cmd_queues host d)"
  shows "\<exists>host'. vinput_reset_host_events d host = Some host' \<and> contents (vinput_cmd_queues host' d) = [] \<and>
    (\<forall>i. ring_ok (vinput_cmd_queues host i) \<longrightarrow> ring_ok (vinput_cmd_queues host' i))"
proof -
  obtain q y where "pop_loop 1024 d (\<lambda>_. Some) (host, ()) = Some (set_queue d q host, y)" "ring_ok q" "contents q = []"
    using pop_loop_total [OF assms, of "\<lambda>_. True" "\<lambda>_. Some" "()"] by auto
  then show ?thesis by (auto simp: vinput_reset_host_events_def exchange_wake_def window_wake_backend_def set_queue_def Let_def)
qed

text \<open>Writes that may leave a ready queue with rings that have not been checked.\<close>

definition ring_setup :: "virtio_input_state_t \<Rightarrow> u32 \<Rightarrow> bool" where
  "ring_setup v addr \<longleftrightarrow> ready (queues v (QueueSel v)) \<and> drop_bit 2 addr \<in> {VIRTIO_QueueNum, VIRTIO_QueueDescLow, VIRTIO_QueueDriverLow, VIRTIO_QueueDeviceLow}"

lemma safe_transport:
  assumes "vinput_safe v" "virtio_reg_write 2 mem v reg val = Some (Some v')" "reg \<noteq> VIRTIO_QueueReady"
    "ready (queues v (QueueSel v)) \<Longrightarrow> reg \<notin> {VIRTIO_QueueNum, VIRTIO_QueueDescLow, VIRTIO_QueueDriverLow, VIRTIO_QueueDeviceLow}"
  shows "vinput_safe v'"
proof -
  have ok: "virtio_ok 2 v'" using virtio_reg_write_ok [of 2 v mem reg val] assms(1,2) by (auto simp: vinput_safe_def)
  have ty: "vinput_type v' = vinput_type v" using reg_write_more [OF assms(2)] by (rule more_type)
  have "ready (queues v' i) \<longrightarrow> queues v' i = queues v i" for i
    using assms(2-4) by (auto simp: virtio_reg_write_def virtio_set_queue_addr_def virtio_preprocess_def split: if_splits bind_splits)
  moreover have "ready (queues v' i) = ready (queues v i)" for i
    using assms(2-4) by (auto simp: virtio_reg_write_def virtio_set_queue_addr_def virtio_preprocess_def split: if_splits bind_splits)
  ultimately show ?thesis using assms(1) ok ty by (simp add: vinput_safe_def)
qed

lemma vinput_safe_upd:
  "vinput_safe v \<Longrightarrow> queue_ok (f (queues v i)) \<Longrightarrow> (ready (f (queues v i)) \<longrightarrow> queue_fits (f (queues v i))) \<Longrightarrow> vinput_safe (upd_queue i f v)"
  by (auto simp: vinput_safe_def virtio_ok_def upd_queue_def)

lemma set_fail_resets: "Status (virtio_set_fail v) AND VIRTIO_STATUS__DEVICE_NEEDS_RESET \<noteq> 0"
proof -
  have "bit (Status (virtio_set_fail v) AND 64) 6" by (auto simp: virtio_set_fail_def Let_def bit_or_iff bit_and_iff)
  then show ?thesis by (metis bit_0_eq bot_apply bot_bool_def)
qed

lemma queue_ready_safe:
  assumes "vinput_safe v"
  shows "\<exists>v'. write_queue_ready v mem val = Some v' \<and> (Status v' AND VIRTIO_STATUS__DEVICE_NEEDS_RESET = 0 \<longrightarrow> vinput_safe v')"
proof -
  let ?q = "queues v (QueueSel v)"
  have q: "queue_ok ?q" "sel_queue VINPUT_QUEUES v = Some ?q"
    using assms sel_queue_ok by (auto simp: vinput_safe_def virtio_ok_def)
  show ?thesis
  proof (cases "val AND 1 = 0 \<or> \<not> rings_fit ?q")
    case True
    have "vinput_safe (upd_queue (QueueSel v) (\<lambda>q. q\<lparr>ready := False\<rparr>) v)"
      by (rule vinput_safe_upd [OF assms]) (use q(1) in \<open>simp_all add: queue_ok_def\<close>)
    then show ?thesis using True q(2) set_fail_resets by (auto simp: write_queue_ready_def Let_def)
  next
    case False
    then have fits: "queue_fits ?q" using rings_fit_queue_fits [OF q(1)] by blast
    then obtain a where a: "avail_idx mem ?q = Some a" using idx_fits(1) by blast
    have r: "vinput_safe (upd_queue (QueueSel v) (\<lambda>q. q\<lparr>ready := True\<rparr>) v)"
      by (rule vinput_safe_upd [OF assms]) (use q(1) fits in \<open>simp_all add: queue_ok_def queue_fits_def\<close>)
    have "vinput_safe (upd_queue (QueueSel v) (\<lambda>q. q\<lparr>last_avail := a\<rparr>) (upd_queue (QueueSel v) (\<lambda>q. q\<lparr>ready := True\<rparr>) v))"
      by (rule vinput_safe_upd [OF r]) (use q(1) fits in \<open>simp_all add: queue_ok_def queue_fits_def\<close>)
    then show ?thesis using False q(2) a by (simp add: write_queue_ready_def upd_queue_def Let_def)
  qed
qed

lemma reg_write_safe:
  assumes "vinput_safe v" "\<And>d. d < 2 \<Longrightarrow> ring_ok (vinput_cmd_queues host d)"
  shows "\<exists>ok v' mem' host'. virtio_input_reg_write (v, mem, host) addr val = Some (ok, v', mem', host') \<and>
    (\<not> ring_setup v addr \<and> (addr = 0x44 \<longrightarrow> Status v' AND VIRTIO_STATUS__DEVICE_NEEDS_RESET = 0) \<longrightarrow> vinput_safe v')"
proof -
  let ?reg = "drop_bit 2 addr"
  consider "addr = 0x100 \<or> addr = 0x101 \<or> addr AND 3 \<noteq> 0" | "addr AND 3 = 0" "?reg = VIRTIO_QueueReady"
    | "addr AND 3 = 0" "?reg = VIRTIO_QueueNotify" | "addr AND 3 = 0" "?reg = VIRTIO_Status"
    | "addr \<noteq> 0x100" "addr \<noteq> 0x101" "addr AND 3 = 0" "?reg \<notin> {VIRTIO_QueueReady, VIRTIO_QueueNotify, VIRTIO_Status}"
    by blast
  then show ?thesis
  proof cases
    case 1
    have "vinput_safe (v\<lparr>cfg_select := s\<rparr>)" "vinput_safe (v\<lparr>cfg_subsel := s\<rparr>)" for s
      using assms(1) by (simp_all add: vinput_safe_def virtio_ok_def)
    then show ?thesis using 1 assms(1) by (auto simp: virtio_input_reg_write_def)
  next
    case 2
    have "addr = push_bit 2 (drop_bit 2 addr)"
      using 2(1) bits_ident [of 2 addr] by (simp add: take_bit_eq_mask mask_eq_exp_minus_1)
    then have "addr = 0x44" using 2(2) by simp
    then show ?thesis using queue_ready_safe [OF assms(1), of mem val] by (auto simp: virtio_input_reg_write_def)
  next
    case 3
    then show ?thesis using drain_statusq_total [OF assms(1), of mem] vinput_safe_fail [OF assms(1)] assms(1)
      by (auto simp: virtio_input_reg_write_def Let_def)
  next
    case 4
    have "vinput_safe (v\<lparr>Status := s\<rparr>)" "vinput_safe (zero_vinput v)" for s
      using assms(1) by (simp_all add: vinput_safe_def virtio_ok_def zero_vinput_def queue_ok_def)
    moreover obtain host' where "vinput_reset_host_events (vinput_type v) host = Some host'"
      using reset_host_total [OF assms(2) [of "vinput_type v"]] assms(1) by (auto simp: vinput_safe_def)
    ultimately show ?thesis using 4 by (auto simp: virtio_input_reg_write_def virtio_input_update_status_def Let_def)
  next
    case 5
    obtain r where r: "virtio_reg_write 2 mem v ?reg val = Some r"
      using virtio_reg_write_ok [of 2 v mem ?reg val] assms(1) by (auto simp: vinput_safe_def)
    have "vinput_safe v'" if "r = Some v'" "\<not> ring_setup v addr" for v'
      using safe_transport [OF assms(1), of mem ?reg val v'] r that 5(4) by (auto simp: ring_setup_def)
    then show ?thesis using r 5 assms(1) by (cases r) (auto simp: virtio_input_reg_write_def Let_def)
  qed
qed

section \<open>A report is delivered whole\<close>

text \<open>The queue \<open>qi\<close> with \<open>n\<close> more entries of its available ring taken.\<close>

definition taken_avail :: "u32 \<Rightarrow> nat \<Rightarrow> virtio_input_state_t \<Rightarrow> virtio_input_state_t" where
  "taken_avail qi n v = upd_queue qi (\<lambda>q. q\<lparr>last_avail := last_avail q + word_of_nat n\<rparr>) v"

lemma taken_avail_0: "taken_avail qi 0 v = v"
proof -
  have "(queues v)(qi := (queues v qi)\<lparr>last_avail := last_avail (queues v qi)\<rparr>) = queues v" by (simp add: fun_eq_iff)
  then show ?thesis by (simp add: taken_avail_def upd_queue_def)
qed

lemma taken_avail_Suc: "taken_avail qi n (upd_queue qi take_avail v) = taken_avail qi (Suc n) v"
  by (simp add: taken_avail_def upd_queue_def take_avail_def ac_simps)

lemma taken_avail_queue [simp]: "queues (taken_avail qi n v) qi = (queues v qi)\<lparr>last_avail := last_avail (queues v qi) + word_of_nat n\<rparr>"
  by (simp add: taken_avail_def)

lemma desc_loop_result:
  "desc_loop evs qi new_used v mem = Some (w, u, v', mem') \<Longrightarrow>
   (w \<longrightarrow> u = new_used + word_of_nat (length evs) \<and> v' = taken_avail qi (length evs) v) \<and>
   (\<not> w \<longrightarrow> Status v' AND VIRTIO_STATUS__DEVICE_NEEDS_RESET \<noteq> 0)"
proof (induction evs arbitrary: new_used v mem)
  case Nil
  then show ?case by (auto simp: taken_avail_0)
next
  case (Cons ev evs)
  show ?case
  proof (cases "\<not> w \<and> v' = virtio_set_fail v")
    case True
    then show ?thesis by (simp add: set_fail_resets)
  next
    case False
    then obtain m where "desc_loop evs qi (new_used + 1) (upd_queue qi take_avail v) m = Some (w, u, v', mem')"
      using Cons(2) by (auto simp: Let_def split: bind_splits if_splits)
    then show ?thesis using Cons(1) by (fastforce simp: taken_avail_Suc ac_simps)
  qed
qed

lemma used_hdr_idx: "put_used_hdr mem q u = Some mem' \<Longrightarrow> used_idx mem' q = Some u"
proof -
  have "(ucast (drop_bit 16 (push_bit 16 (ucast u :: u32))) :: u16) = u" by (rule bit_word_eqI) (auto simp: bit_simps)
  then show "put_used_hdr mem q u = Some mem' \<Longrightarrow> used_idx mem' q = Some u"
    by (auto simp: put_used_hdr_def used_idx_def ram_set_cell_def ram_cell_def split: if_splits)
qed

section \<open>Properties\<close>

text \<open>
  C8: The virtio keyboard and mouse never leave guest RAM as long as the rings of their ready queues have been
  checked. In such a state every register access of the guest is defined, whatever guest RAM holds; a write
  keeps the state safe, unless it moves the rings of a ready queue or makes a queue ready that fails the
  check of the code (and then the device needs a reset).
\<close>

theorem vinput_registers_safe:
  assumes "vinput_safe v" "\<And>d. d < 2 \<Longrightarrow> ring_ok (vinput_cmd_queues host d)"
  shows "(\<exists>r. virtio_input_read v addr width val h = Some r) \<and>
    (\<exists>v' mem' host' h'. virtio_input_write (v, mem, host) addr width val h = Some ((v', mem', host'), h') \<and>
       (\<not> ring_setup v addr \<and> (addr = 0x44 \<longrightarrow> Status v' AND VIRTIO_STATUS__DEVICE_NEEDS_RESET = 0) \<longrightarrow> vinput_safe v'))"
proof
  show "\<exists>r. virtio_input_read v addr width val h = Some r" using assms(1) by (intro vinput_read_total) (simp add: vinput_safe_def)
  obtain ok v' mem' host' where w: "virtio_input_reg_write (v, mem, host) addr val = Some (ok, v', mem', host')"
    "\<not> ring_setup v addr \<and> (addr = 0x44 \<longrightarrow> Status v' AND VIRTIO_STATUS__DEVICE_NEEDS_RESET = 0) \<longrightarrow> vinput_safe v'"
    using reg_write_safe [OF assms(1), of host mem addr val] assms(2) by auto
  then show "\<exists>v' mem' host' h'. virtio_input_write (v, mem, host) addr width val h = Some ((v', mem', host'), h') \<and>
       (\<not> ring_setup v addr \<and> (addr = 0x44 \<longrightarrow> Status v' AND VIRTIO_STATUS__DEVICE_NEEDS_RESET = 0) \<longrightarrow> vinput_safe v')"
    using assms(1) by (auto simp: virtio_input_write_def Let_def)
qed

definition example_vinput :: virtio_input_state_t where
  "example_vinput =
     \<lparr>DeviceFeaturesSel = 0, DriverFeatures = 0, DriverFeaturesSel = 0, QueueSel = 0,
      queues = (\<lambda>_. \<lparr>QueueNum = 4, QueueDesc = 0x400, QueueAvail = 0x500, QueueUsed = 0x600, last_avail = 0, ready = True\<rparr>),
      Status = VIRTIO_STATUS__DRIVER_OK, InterruptStatus = 0,
      cfg_select = 0, cfg_subsel = 0, cfg_size = 0, cfg_payload = (\<lambda>_. 0), vinput_type = VINPUT_KEYBOARD_ID\<rparr>"

definition example_host :: vinput_host where
  "example_host =
     \<lparr>vinput_cmd_queues = (\<lambda>_. \<lparr>entries = (\<lambda>_. VINPUT_CMD_KEYBOARD_KEY 30 1), head = 1, tail = 0\<rparr>),
      vinput_cmd_wake_pending = True, wake_bytes = 1, mouse_grabbed = False\<rparr>"

lemma example_safe: "vinput_safe example_vinput" "ring_ok (vinput_cmd_queues example_host d)"
  by (auto simp: vinput_safe_def example_vinput_def virtio_ok_def queue_ok_def queue_fits_def example_host_def ring_ok_def)

theorem vinput_registers_safe_witness:
  "vinput_safe example_vinput \<and>
   (\<exists>v' mem' host' h'. virtio_input_write (example_vinput, (\<lambda>_. 0), example_host) 0x50 RV_MEM_SW 1 zero_hart =
      Some ((v', mem', host'), h') \<and> vinput_safe v')"
  using vinput_registers_safe [OF example_safe, of "0x50" RV_MEM_SW 1 zero_hart "\<lambda>_. 0"] example_safe(1)
  by (auto simp: ring_setup_def)





text \<open>
  The check of \<^verbatim>\<open>QueueReady\<close> fails too late: the queue is ready even so, and the status queue does not look at
  the failure bit. A guest that makes a queue ready whose descriptors end outside of RAM and notifies it
  makes the device read past the end of the host array.
\<close>

theorem unchecked_status_queue:
  fixes v :: virtio_input_state_t
  defines "q \<equiv> \<lparr>QueueNum = 1024, QueueDesc = 0x7FFFFFF, QueueAvail = 0, QueueUsed = 0x600, last_avail = 0, ready = False\<rparr>"
  assumes "QueueSel v = 1" "queues v 1 = q" "Status v = 4" "mem 0 = 0x10000" "mem 1 = 1"
  shows "\<exists>v'. write_queue_ready v mem 1 = Some v' \<and> virtio_input_drain_statusq v' mem = None"
proof -
  let ?u = "upd_queue 1 (\<lambda>q. q\<lparr>ready := True\<rparr>) v"
  have "\<not> rings_fit q" by (simp add: q_def rings_fit_def Let_def)
  then have "write_queue_ready v mem 1 = Some (virtio_set_fail ?u)" using assms by (simp add: write_queue_ready_def sel_queue_def Let_def)
  moreover have "Status (virtio_set_fail ?u) AND 4 \<noteq> 0" using assms(4) by (simp add: virtio_set_fail_def upd_queue_def Let_def)
  moreover have "avail_entry mem (q\<lparr>ready := True\<rparr>) = Some 1"
    using assms(6) by (simp add: avail_entry_def q_def ring_index_def ram_cell_def)
  moreover have "fetch_desc mem (q\<lparr>ready := True\<rparr>) 1 = None" by (simp add: fetch_desc_def q_def ram_cell_def)
  ultimately show ?thesis using assms(3,5)
    by (simp add: virtio_input_drain_statusq_def avail_idx_def used_idx_def ram_cell_def q_def Let_def drop_bit_eq_div word_le_nat_alt)
qed

end
