(* ===== verification/Input_Wake.thy ===== *)
theory Input_Wake
  imports Input_Queue
begin

text \<open>
  The two threads of the virtio keyboard and mouse, interleaved. Each step is one access to the shared
  memory of \<^verbatim>\<open>vinput_push_cmd\<close> (window thread) or of \<^verbatim>\<open>virtio_input_drain_host_events\<close>,
  \<^verbatim>\<open>vinput_rearm_cmd_wake\<close> and \<^verbatim>\<open>vinput_reset_host_events\<close> (emulator thread), in the order of the code. The
  memory is sequentially consistent, which is what the code asks of its accesses to the gate.
\<close>

section \<open>Steps\<close>

datatype producer = P_idle | P_store nat vinput_cmd | P_publish nat vinput_cmd | P_exchange | P_wake

text \<open>
  The emulator thread pops from the keyboard, then from the mouse, opens the gate, and looks at the two
  rings again; a reset pops from one ring, opens the gate, looks at both rings and may close the gate.
  A pop finds a command, copies it, and frees its entry.
\<close>

datatype draining = Keyboard | Mouse | Reset nat

datatype consumer =
    C_idle | C_load draining | C_copy draining | C_free draining vinput_cmd
  | C_rearm | C_check_keyboard | C_check_mouse
  | C_reset_gate | C_reset_check_keyboard | C_reset_check_mouse | C_reset_exchange | C_reset_wake

fun ring_id :: "draining \<Rightarrow> nat" where
  "ring_id Keyboard = VINPUT_KEYBOARD_ID"
| "ring_id Mouse = VINPUT_MOUSE_ID"
| "ring_id (Reset d) = d"

fun after_draining :: "draining \<Rightarrow> consumer" where
  "after_draining Keyboard = C_load Mouse"
| "after_draining Mouse = C_rearm"
| "after_draining (Reset d) = C_reset_gate"

text \<open>
  \<open>accepted\<close> and \<open>taken\<close> are the commands that have been pushed to and popped from the ring of each
  device; \<open>opened_at\<close> is the number of bytes that had been written to the pipe when the gate was opened last.
\<close>

record input_system =
  input_host :: vinput_host
  producer :: producer
  consumer :: consumer
  accepted :: "nat \<Rightarrow> vinput_cmd list"
  taken :: "nat \<Rightarrow> vinput_cmd list"
  opened_at :: nat

definition ring_of :: "input_system \<Rightarrow> nat \<Rightarrow> vinput_cmd_queue" where
  "ring_of s d = vinput_cmd_queues (input_host s) d"

definition with_ring :: "nat \<Rightarrow> vinput_cmd_queue \<Rightarrow> input_system \<Rightarrow> input_system" where
  "with_ring d q s = s\<lparr>input_host := set_queue d q (input_host s)\<rparr>"

definition gate :: "input_system \<Rightarrow> bool" where
  "gate s = vinput_cmd_wake_pending (input_host s)"

definition with_gate :: "bool \<Rightarrow> input_system \<Rightarrow> input_system" where
  "with_gate b s = s\<lparr>input_host := (input_host s)\<lparr>vinput_cmd_wake_pending := b\<rparr>\<rparr>"

definition write_pipe :: "input_system \<Rightarrow> input_system" where
  "write_pipe s = s\<lparr>input_host := window_wake_backend (input_host s)\<rparr>"

definition open_gate :: "input_system \<Rightarrow> input_system" where
  "open_gate s = with_gate False (s\<lparr>opened_at := wake_bytes (input_host s)\<rparr>)"

definition store_entry :: "nat \<Rightarrow> vinput_cmd \<Rightarrow> input_system \<Rightarrow> input_system" where
  "store_entry d ev s = (let q = ring_of s d in with_ring d (q\<lparr>entries := (entries q)(head q := ev)\<rparr>) s)"

definition store_head :: "nat \<Rightarrow> vinput_cmd \<Rightarrow> input_system \<Rightarrow> input_system" where
  "store_head d ev s =
     (let q = ring_of s d
      in with_ring d (q\<lparr>head := (head q + 1) AND VINPUT_CMD_QUEUE_MASK\<rparr>) (s\<lparr>accepted := (accepted s)(d := accepted s d @ [ev])\<rparr>))"

definition store_tail :: "nat \<Rightarrow> vinput_cmd \<Rightarrow> input_system \<Rightarrow> input_system" where
  "store_tail d ev s =
     (let q = ring_of s d
      in with_ring d (q\<lparr>tail := (tail q + 1) AND VINPUT_CMD_QUEUE_MASK\<rparr>) (s\<lparr>taken := (taken s)(d := taken s d @ [ev])\<rparr>))"

definition ring_full :: "vinput_cmd_queue \<Rightarrow> bool" where
  "ring_full q \<longleftrightarrow> (head q + 1) AND VINPUT_CMD_QUEUE_MASK = tail q"

text \<open>The window thread.\<close>

inductive push_step :: "input_system \<Rightarrow> input_system \<Rightarrow> bool" where
  push_full: "producer s = P_idle \<Longrightarrow> d < VINPUT_DEV_CNT \<Longrightarrow> ring_full (ring_of s d) \<Longrightarrow> push_step s s"
| push_check: "producer s = P_idle \<Longrightarrow> d < VINPUT_DEV_CNT \<Longrightarrow> \<not> ring_full (ring_of s d) \<Longrightarrow> push_step s (s\<lparr>producer := P_store d ev\<rparr>)"
| push_store: "producer s = P_store d ev \<Longrightarrow> push_step s ((store_entry d ev s)\<lparr>producer := P_publish d ev\<rparr>)"
| push_publish: "producer s = P_publish d ev \<Longrightarrow> push_step s ((store_head d ev s)\<lparr>producer := P_exchange\<rparr>)"
| push_exchange: "producer s = P_exchange \<Longrightarrow> push_step s ((with_gate True s)\<lparr>producer := if gate s then P_idle else P_wake\<rparr>)"
| push_wake: "producer s = P_wake \<Longrightarrow> push_step s ((write_pipe s)\<lparr>producer := P_idle\<rparr>)"

text \<open>The emulator thread.\<close>

inductive pop_step :: "input_system \<Rightarrow> input_system \<Rightarrow> bool" where
  drain: "consumer s = C_idle \<Longrightarrow> vinput_may_have_pending_cmds (input_host s) \<Longrightarrow> pop_step s (s\<lparr>consumer := C_load Keyboard\<rparr>)"
| reset: "consumer s = C_idle \<Longrightarrow> d < VINPUT_DEV_CNT \<Longrightarrow> pop_step s (s\<lparr>consumer := C_load (Reset d)\<rparr>)"
| pop_empty: "consumer s = C_load p \<Longrightarrow> queue_empty (ring_of s (ring_id p)) \<Longrightarrow> pop_step s (s\<lparr>consumer := after_draining p\<rparr>)"
| pop_check: "consumer s = C_load p \<Longrightarrow> \<not> queue_empty (ring_of s (ring_id p)) \<Longrightarrow> pop_step s (s\<lparr>consumer := C_copy p\<rparr>)"
| pop_copy: "consumer s = C_copy p \<Longrightarrow> q = ring_of s (ring_id p) \<Longrightarrow> pop_step s (s\<lparr>consumer := C_free p (entries q (tail q))\<rparr>)"
| pop_free: "consumer s = C_free p ev \<Longrightarrow> pop_step s ((store_tail (ring_id p) ev s)\<lparr>consumer := C_load p\<rparr>)"
| rearm: "consumer s = C_rearm \<Longrightarrow> pop_step s ((open_gate s)\<lparr>consumer := C_check_keyboard\<rparr>)"
| check_keyboard: "consumer s = C_check_keyboard \<Longrightarrow>
    pop_step s (s\<lparr>consumer := if queue_empty (ring_of s VINPUT_KEYBOARD_ID) then C_check_mouse else C_load Keyboard\<rparr>)"
| check_mouse: "consumer s = C_check_mouse \<Longrightarrow>
    pop_step s (s\<lparr>consumer := if queue_empty (ring_of s VINPUT_MOUSE_ID) then C_idle else C_load Keyboard\<rparr>)"
| reset_gate: "consumer s = C_reset_gate \<Longrightarrow> pop_step s ((open_gate s)\<lparr>consumer := C_reset_check_keyboard\<rparr>)"
| reset_check_keyboard: "consumer s = C_reset_check_keyboard \<Longrightarrow>
    pop_step s (s\<lparr>consumer := if queue_empty (ring_of s VINPUT_KEYBOARD_ID) then C_reset_check_mouse else C_reset_exchange\<rparr>)"
| reset_check_mouse: "consumer s = C_reset_check_mouse \<Longrightarrow>
    pop_step s (s\<lparr>consumer := if queue_empty (ring_of s VINPUT_MOUSE_ID) then C_idle else C_reset_exchange\<rparr>)"
| reset_exchange: "consumer s = C_reset_exchange \<Longrightarrow> pop_step s ((with_gate True s)\<lparr>consumer := if gate s then C_idle else C_reset_wake\<rparr>)"
| reset_wake: "consumer s = C_reset_wake \<Longrightarrow> pop_step s ((write_pipe s)\<lparr>consumer := C_idle\<rparr>)"

definition input_step :: "input_system \<Rightarrow> input_system \<Rightarrow> bool" where
  "input_step s s' \<longleftrightarrow> push_step s s' \<or> pop_step s s'"

definition input_start :: input_system where
  "input_start =
     \<lparr>input_host = \<lparr>vinput_cmd_queues = (\<lambda>_. \<lparr>entries = (\<lambda>_. VINPUT_CMD_KEYBOARD_KEY 0 0), head = 0, tail = 0\<rparr>),
        vinput_cmd_wake_pending = False, wake_bytes = 0, mouse_grabbed = False\<rparr>,
      producer = P_idle, consumer = C_idle, accepted = (\<lambda>_. []), taken = (\<lambda>_. []), opened_at = 0\<rparr>"

section \<open>The invariant\<close>

text \<open>
  The commands pushed are those popped followed by those in the ring; a producer about to write has
  room for its command, and a consumer that has copied a command holds the first of the ring.
\<close>

definition fifo_ok :: "input_system \<Rightarrow> bool" where
  "fifo_ok s \<longleftrightarrow> (\<forall>d. ring_ok (ring_of s d) \<and> accepted s d = taken s d @ contents (ring_of s d))"

fun room_ok :: "producer \<Rightarrow> (nat \<Rightarrow> vinput_cmd_queue) \<Rightarrow> bool" where
  "room_ok (P_store d ev) r \<longleftrightarrow> \<not> ring_full (r d)"
| "room_ok (P_publish d ev) r \<longleftrightarrow> \<not> ring_full (r d) \<and> entries (r d) (head (r d)) = ev"
| "room_ok _ r \<longleftrightarrow> True"

fun held_ok :: "consumer \<Rightarrow> (nat \<Rightarrow> vinput_cmd_queue) \<Rightarrow> bool" where
  "held_ok (C_copy p) r \<longleftrightarrow> \<not> queue_empty (r (ring_id p))"
| "held_ok (C_free p ev) r \<longleftrightarrow> \<not> queue_empty (r (ring_id p)) \<and> ev = entries (r (ring_id p)) (tail (r (ring_id p)))"
| "held_ok _ r \<longleftrightarrow> True"

text \<open>The rings whose commands the consumer may already have missed in the round that it is in.\<close>

fun missed :: "consumer \<Rightarrow> nat set" where
  "missed C_idle = {VINPUT_KEYBOARD_ID, VINPUT_MOUSE_ID}"
| "missed C_check_mouse = {VINPUT_KEYBOARD_ID}"
| "missed C_reset_check_mouse = {VINPUT_KEYBOARD_ID}"
| "missed C_reset_wake = {VINPUT_KEYBOARD_ID, VINPUT_MOUSE_ID}"
| "missed _ = {}"

definition wake_ok :: "input_system \<Rightarrow> bool" where
  "wake_ok s \<longleftrightarrow>
     opened_at s \<le> wake_bytes (input_host s) \<and>
     (gate s \<longrightarrow> opened_at s < wake_bytes (input_host s) \<or> producer s = P_wake \<or> consumer s = C_reset_wake) \<and>
     (\<forall>d \<in> missed (consumer s). queue_empty (ring_of s d) \<or> gate s \<or> producer s = P_exchange)"

definition input_inv :: "input_system \<Rightarrow> bool" where
  "input_inv s \<longleftrightarrow> fifo_ok s \<and> room_ok (producer s) (ring_of s) \<and> held_ok (consumer s) (ring_of s) \<and> wake_ok s"

lemma ring_of_updates [simp]:
  "ring_of (s\<lparr>producer := p\<rparr>) = ring_of s" "ring_of (s\<lparr>consumer := c\<rparr>) = ring_of s"
  "ring_of (s\<lparr>accepted := a\<rparr>) = ring_of s" "ring_of (s\<lparr>taken := a\<rparr>) = ring_of s" "ring_of (s\<lparr>opened_at := n\<rparr>) = ring_of s"
  "ring_of (with_gate b s) = ring_of s" "ring_of (write_pipe s) = ring_of s" "ring_of (open_gate s) = ring_of s"
  "ring_of (with_ring d q s) = (ring_of s)(d := q)"
  by (auto simp: ring_of_def fun_eq_iff with_gate_def write_pipe_def open_gate_def with_ring_def window_wake_backend_def set_queue_def)

lemma gate_updates [simp]:
  "gate (s\<lparr>producer := p\<rparr>) = gate s" "gate (s\<lparr>consumer := c\<rparr>) = gate s" "gate (s\<lparr>accepted := a\<rparr>) = gate s"
  "gate (s\<lparr>taken := a\<rparr>) = gate s" "gate (s\<lparr>opened_at := n\<rparr>) = gate s"
  "gate (with_gate b s) = b" "gate (write_pipe s) = gate s" "gate (open_gate s) = False" "gate (with_ring d q s) = gate s"
  by (auto simp: gate_def with_gate_def write_pipe_def open_gate_def with_ring_def window_wake_backend_def)

lemma other_updates [simp]:
  "accepted (with_gate b s) = accepted s" "taken (with_gate b s) = taken s" "opened_at (with_gate b s) = opened_at s"
  "accepted (write_pipe s) = accepted s" "taken (write_pipe s) = taken s" "opened_at (write_pipe s) = opened_at s"
  "accepted (with_ring d q s) = accepted s" "taken (with_ring d q s) = taken s" "opened_at (with_ring d q s) = opened_at s"
  "accepted (open_gate s) = accepted s" "taken (open_gate s) = taken s" "opened_at (open_gate s) = wake_bytes (input_host s)"
  "producer (with_gate b s) = producer s" "consumer (with_gate b s) = consumer s" "producer (write_pipe s) = producer s"
  "consumer (write_pipe s) = consumer s" "producer (with_ring d q s) = producer s" "consumer (with_ring d q s) = consumer s"
  "producer (open_gate s) = producer s" "consumer (open_gate s) = consumer s"
  "wake_bytes (input_host (with_gate b s)) = wake_bytes (input_host s)"
  "wake_bytes (input_host (write_pipe s)) = wake_bytes (input_host s) + 1"
  "wake_bytes (input_host (with_ring d q s)) = wake_bytes (input_host s)"
  "wake_bytes (input_host (open_gate s)) = wake_bytes (input_host s)"
  by (simp_all add: with_gate_def write_pipe_def open_gate_def with_ring_def window_wake_backend_def)

lemma fifo_ok_updates [simp]:
  "fifo_ok (s\<lparr>producer := p\<rparr>) = fifo_ok s" "fifo_ok (s\<lparr>consumer := c\<rparr>) = fifo_ok s"
  "fifo_ok (with_gate b s) = fifo_ok s" "fifo_ok (write_pipe s) = fifo_ok s" "fifo_ok (open_gate s) = fifo_ok s"
  by (simp_all add: fifo_ok_def)

section \<open>One thread does not disturb the other\<close>

lemma ring_full_push: "\<not> ring_full q \<Longrightarrow> ring_push ev q = Some (q\<lparr>entries := (entries q)(head q := ev), head := (head q + 1) AND 1023\<rparr>)"
  by (simp add: ring_full_def ring_push_def Let_def)

lemma entry_stored:
  assumes "ring_ok q"
  shows "contents (q\<lparr>entries := (entries q)(head q := ev)\<rparr>) = contents q"
proof -
  let ?t = "unat (tail q)"
  have "word_of_nat ((?t + k) mod 1024) \<noteq> head q" if "k < ring_count q" for k
    using assms that by (auto simp: ring_ok_def word_unat_eq_iff unat_of_nat ring_count_def mod_1024 split: if_splits)
  then show ?thesis by (simp add: contents_def ring_count_def)
qed

lemma head_stored:
  assumes "ring_ok q" "\<not> ring_full q" "entries q (head q) = ev"
  shows "ring_ok (q\<lparr>head := (head q + 1) AND 1023\<rparr>)" "contents (q\<lparr>head := (head q + 1) AND 1023\<rparr>) = contents q @ [ev]"
proof -
  have "q\<lparr>entries := (entries q)(head q := ev), head := (head q + 1) AND 1023\<rparr> = q\<lparr>head := (head q + 1) AND 1023\<rparr>"
    using assms(3) by (cases q) auto
  then show "ring_ok (q\<lparr>head := (head q + 1) AND 1023\<rparr>)" "contents (q\<lparr>head := (head q + 1) AND 1023\<rparr>) = contents q @ [ev]"
    using ring.push_some [OF assms(1) ring_full_push [OF assms(2), of ev]] by simp_all
qed

lemma tail_stored:
  assumes "ring_ok q" "\<not> queue_empty q" "ev = entries q (tail q)"
  shows "ring_ok (q\<lparr>tail := (tail q + 1) AND 1023\<rparr>)" "contents q = ev # contents (q\<lparr>tail := (tail q + 1) AND 1023\<rparr>)"
  using ring.pop_some [OF assms(1), of ev "q\<lparr>tail := (tail q + 1) AND 1023\<rparr>"] assms(2,3)
  by (simp_all add: ring_pop_def queue_empty_def)

lemma tail_stored_room: "ring_ok q \<Longrightarrow> \<not> queue_empty q \<Longrightarrow> \<not> ring_full (q\<lparr>tail := (tail q + 1) AND 1023\<rparr>)"
  by (auto simp: ring_ok_def queue_empty_def ring_full_def word_unat_eq_iff ring_succ mod_1024 split: if_splits)

lemmas ring_access = queue_empty_def ring_full_def store_entry_def store_head_def store_tail_def Let_def

lemma push_step_inv:
  assumes "push_step s s'" "input_inv s"
  shows "input_inv s'"
  using assms
proof (induction rule: push_step.induct)
  case (push_store s d ev)
  then have q: "ring_ok (ring_of s d)" "\<not> ring_full (ring_of s d)" by (auto simp: input_inv_def fifo_ok_def)
  have "fifo_ok (store_entry d ev s)" using push_store entry_stored [OF q(1), of ev]
    by (auto simp: input_inv_def fifo_ok_def ring_access ring_ok_def)
  moreover have "held_ok (consumer s) (ring_of (store_entry d ev s))"
    using push_store by (cases "consumer s") (auto simp: input_inv_def ring_access)
  ultimately show ?case using push_store q by (auto simp: input_inv_def wake_ok_def ring_access)
next
  case (push_publish s d ev)
  then have q: "ring_ok (ring_of s d)" "\<not> ring_full (ring_of s d)" "entries (ring_of s d) (head (ring_of s d)) = ev"
    by (auto simp: input_inv_def fifo_ok_def)
  have "fifo_ok (store_head d ev s)" using push_publish head_stored [OF q]
    by (auto simp: input_inv_def fifo_ok_def store_head_def Let_def)
  moreover have "held_ok (consumer s) (ring_of (store_head d ev s))"
    using push_publish q(2) by (cases "consumer s") (auto simp: input_inv_def ring_access)
  ultimately show ?case using push_publish by (auto simp: input_inv_def wake_ok_def store_head_def Let_def)
qed (auto simp: input_inv_def wake_ok_def)

lemma missed_drain [simp]: "missed (after_draining p) = {}" "missed (C_load p) = {}" "held_ok (after_draining p) r"
  "after_draining p \<noteq> C_reset_wake"
  by (cases p; simp)+

lemma pop_step_inv:
  assumes "pop_step s s'" "input_inv s"
  shows "input_inv s'"
  using assms
proof (induction rule: pop_step.induct)
  case (pop_free s p ev)
  let ?d = "ring_id p"
  have q: "ring_ok (ring_of s ?d)" "\<not> queue_empty (ring_of s ?d)" "ev = entries (ring_of s ?d) (tail (ring_of s ?d))"
    using pop_free by (auto simp: input_inv_def fifo_ok_def)
  have "fifo_ok (store_tail ?d ev s)" using pop_free tail_stored [OF q]
    by (auto simp: input_inv_def fifo_ok_def store_tail_def Let_def)
  moreover have "room_ok (producer s) (ring_of (store_tail ?d ev s))"
    using pop_free tail_stored_room [OF q(1,2)] by (cases "producer s") (auto simp: input_inv_def store_tail_def Let_def)
  ultimately show ?case using pop_free by (auto simp: input_inv_def wake_ok_def store_tail_def Let_def)
qed (auto simp: input_inv_def wake_ok_def)

lemma input_start_inv: "input_inv input_start"
  by (auto simp: input_inv_def fifo_ok_def wake_ok_def input_start_def ring_of_def ring_ok_def contents_def ring_count_def gate_def queue_empty_def)

lemma input_reach_inv: "input_step\<^sup>*\<^sup>* input_start s \<Longrightarrow> input_inv s"
  by (induction rule: rtranclp_induct) (auto simp: input_step_def intro: input_start_inv push_step_inv pop_step_inv)

section \<open>A push is its steps\<close>

lemma push_steps:
  assumes "producer s = P_idle" "d < 2" "vinput_push_cmd d ev (input_host s) = (True, h)"
  shows "\<exists>s'. push_step\<^sup>*\<^sup>* s s' \<and> input_host s' = h \<and> producer s' = P_idle"
proof -
  have room: "\<not> ring_full (ring_of s d)"
    using assms(3) by (auto simp: vinput_push_cmd_def ring_push_def ring_full_def ring_of_def Let_def)
  let ?s1 = "s\<lparr>producer := P_store d ev\<rparr>"
  let ?s2 = "(store_entry d ev ?s1)\<lparr>producer := P_publish d ev\<rparr>"
  let ?s3 = "(store_head d ev ?s2)\<lparr>producer := P_exchange\<rparr>"
  let ?s4 = "(with_gate True ?s3)\<lparr>producer := if gate ?s3 then P_idle else P_wake\<rparr>"
  have "push_step s ?s1" using assms(1,2) room by (rule push_check)
  moreover have "push_step ?s1 ?s2" by (rule push_store) simp
  moreover have "push_step ?s2 ?s3" by (rule push_publish) simp
  moreover have "push_step ?s3 ?s4" by (rule push_exchange) simp
  ultimately have p: "push_step\<^sup>*\<^sup>* s ?s4" by (meson converse_rtranclp_into_rtranclp rtranclp.rtrancl_refl)
  have h: "h = exchange_wake (input_host ?s3)"
    using assms(3) room by (auto simp: vinput_push_cmd_def ring_full_push ring_of_def store_entry_def store_head_def
        with_ring_def set_queue_def Let_def)
  show ?thesis
  proof (cases "gate ?s3")
    case True
    then have "input_host ?s4 = h" "producer ?s4 = P_idle" by (auto simp: h exchange_wake_def gate_def with_gate_def)
    then show ?thesis using p by blast
  next
    case False
    let ?s5 = "(write_pipe ?s4)\<lparr>producer := P_idle\<rparr>"
    have "producer ?s4 = P_wake" using False by (simp del: gate_updates)
    then have "push_step ?s4 ?s5" by (rule push_wake)
    then have "push_step\<^sup>*\<^sup>* s ?s5" using p by (rule rtranclp.rtrancl_into_rtrancl [rotated])
    moreover have "input_host ?s5 = h" using False by (auto simp: h exchange_wake_def gate_def with_gate_def write_pipe_def Let_def)
    ultimately show ?thesis by (intro exI [of _ ?s5]) simp
  qed
qed

section \<open>Properties\<close>

text \<open>
  C5: However the window thread and the emulator thread interleave, every device receives the commands pushed for
  it in order, none lost or twice (those popped, followed by those still in its ring, are those accepted);
  and when both threads are at rest with a command in a ring, the gate is closed, so that the next tick of
  the emulator drains the rings, and a byte has been written to the wake-up pipe since the gate was last
  opened: no wake-up is lost, resets of one device included.
\<close>

theorem input_delivery:
  assumes "input_step\<^sup>*\<^sup>* input_start s"
  shows "accepted s d = taken s d @ contents (ring_of s d) \<and> length (contents (ring_of s d)) \<le> 1023 \<and>
    (producer s = P_idle \<and> consumer s = C_idle \<and> d < 2 \<and> contents (ring_of s d) \<noteq> [] \<longrightarrow>
       vinput_may_have_pending_cmds (input_host s) \<and> opened_at s < wake_bytes (input_host s))"
proof -
  have inv: "input_inv s" using assms by (rule input_reach_inv)
  then have f: "accepted s d = taken s d @ contents (ring_of s d)" "ring_ok (ring_of s d)" by (auto simp: input_inv_def fifo_ok_def)
  have "vinput_may_have_pending_cmds (input_host s) \<and> opened_at s < wake_bytes (input_host s)"
    if i: "producer s = P_idle" "consumer s = C_idle" "d < 2" "contents (ring_of s d) \<noteq> []"
  proof -
    have "\<not> queue_empty (ring_of s d)" using i(4) ring.pop_empty [OF f(2)] by (auto simp: ring_pop_def queue_empty_def split: if_splits)
    moreover have "d = 0 \<or> d = 1" using i(3) by auto
    ultimately show ?thesis using inv i(1,2) by (auto simp: input_inv_def wake_ok_def gate_def vinput_may_have_pending_cmds_def)
  qed
  then show ?thesis using f(1) contents_bounded by blast
qed

theorem input_delivery_witness:
  "\<exists>s. input_step\<^sup>*\<^sup>* input_start s \<and> accepted s 1 = [VINPUT_CMD_MOUSE_MOTION 3 4] \<and>
     contents (ring_of s 1) = [VINPUT_CMD_MOUSE_MOTION 3 4] \<and> taken s 1 = [] \<and> opened_at s < wake_bytes (input_host s)"
proof -
  let ?e = "VINPUT_CMD_MOUSE_MOTION 3 4"
  obtain h where h: "vinput_push_cmd 1 ?e (input_host input_start) = (True, h)" "contents (vinput_cmd_queues h 1) = [?e]"
    by (auto simp: vinput_push_cmd_def ring_push_def input_start_def exchange_wake_def Let_def window_wake_backend_def
        contents_def ring_count_def)
  have "producer input_start = P_idle" by (simp add: input_start_def)
  then obtain s where s: "push_step\<^sup>*\<^sup>* input_start s" "input_host s = h" "producer s = P_idle"
    using push_steps [OF _ _ h(1)] by auto
  have c: "taken s = taken input_start \<and> consumer s = consumer input_start"
    using s(1) by (induction rule: rtranclp_induct) (auto elim!: push_step.cases simp: store_entry_def store_head_def Let_def)
  have r: "input_step\<^sup>*\<^sup>* input_start s"
    using s(1) by (rule rtranclp_mono [THEN predicate2D, rotated]) (auto simp: input_step_def)
  show ?thesis using input_delivery [OF r, of 1] r c s(2,3) h(2) by (auto simp: input_start_def ring_of_def)
qed

end
