(* ===== verification/Spec2Isabelle.thy ===== *)
theory Spec2Isabelle
  imports Decode Alu Boot Virtio_Input Input_Wake
begin

text \<open>
  A verification library for \<^verbatim>\<open>semu\<close>, a RISC-V (RV32IMA, supervisor and user mode) system emulator
  written in C under \<^verbatim>\<open>src/\<close>.

  \<^bold>\<open>The program.\<close> A machine has up to 256 harts, 512 MiB of RAM, a PLIC, an ACLINT, a UART and virtio
  devices (\<^verbatim>\<open>src/main.c\<close>, \<^verbatim>\<open>emu_state_t\<close> in \<^verbatim>\<open>src/device.h\<close>). \<^verbatim>\<open>src/riscv.c\<close> executes instructions: it
  fetches through an instruction cache, translates addresses through software TLBs that also hold host
  pointers, and runs a threaded interpreter whose labels jump from one to the next. Memory accesses
  outside RAM go over the bus (\<^verbatim>\<open>mem_load\<close>, \<^verbatim>\<open>mem_store\<close>) to the devices. Traps that the guest's
  supervisor raises as calls go to the built-in SBI firmware of \<^verbatim>\<open>src/main.c\<close>. A machine with one hart
  runs in a loop of its own; with several, each hart is a coroutine (\<^verbatim>\<open>src/coro.c\<close>) that the loop of
  \<^verbatim>\<open>semu_run\<close> resumes in turn. A second host thread turns window events into commands for the
  virtio keyboard and mouse.

  \<^bold>\<open>Conventions.\<close> C integers are words of their width. A function that may meet undefined behaviour (an
  index outside an array, a division by zero, a shift that is too long, a null pointer) returns an
  option, and \<open>None\<close> is that behaviour. Out-parameters are passed in and returned. RAM is a function
  from word indices to words; \<^verbatim>\<open>ram_cell\<close> bounds it. The host's pointer to RAM is a 64-bit base address.
  A function on a hart takes its index and the machine, as the C code reaches the machine through the
  hart. What the host supplies (its clock, the answers of \<^verbatim>\<open>read\<close> and \<^verbatim>\<open>write\<close>, the random device, the disk
  image, the images in RAM, signals, the numbers of SDL) is an argument.

  \<^bold>\<open>Theories.\<close>
  \<^item> \<open>Prelude\<close>: types, \<^verbatim>\<open>src/common.h\<close>, lemmas on words and options. \<open>Hart\<close>: \<^verbatim>\<open>hart_t\<close> and its caches
    (\<^verbatim>\<open>src/riscv.h\<close>), exceptions, and the relation \<open>raises\<close> of what a device may do to a hart.
  \<^item> \<open>Decode\<close>, \<open>Alu\<close>: the decoders and the arithmetic of \<^verbatim>\<open>src/riscv.c\<close>. Decoding inverts the instruction
    formats and the packed form loses nothing; multiplication and division meet the laws of the
    specification, overflow and division by zero included.
  \<^item> \<open>Ram\<close>: \<^verbatim>\<open>src/ram.c\<close>, refined to an array of bytes. \<open>Timer\<close>: \<^verbatim>\<open>src/utils.c\<close>; the switch from boot
    time to real time is continuous.
  \<^item> \<open>Device\<close>: the locale of a memory-mapped device, which \<open>Aclint\<close> (three times), \<open>Plic\<close>, \<open>Uart\<close>,
    \<open>Virtio_Blk\<close>, \<open>Virtio_Rng\<close> and \<open>Virtio_Input\<close> interpret on their read and write functions.
    An interrupt in service stays masked until it is completed; output is transmitted in order; block
    requests copy exactly the sectors they name and a notification serves every request.
  \<^item> \<open>Virtio\<close>: the registers and queues that the virtio devices share.
  \<^item> \<open>Machine\<close>: the bus, the interrupt wiring and the peripheral tick of \<^verbatim>\<open>src/main.c\<close>.
  \<^item> \<open>Mmu\<close>: page walk, TLBs, fast paths, loads, stores, fetch. \<open>Coherence\<close>: the locale of a translation
    cache, and the invariant that every cached translation is one the page tables give;
    \<open>Transparency\<close>, \<open>Access\<close> and \<open>Fetch\<close>: with the invariant, loads, stores and fetches behave as a
    machine without caches does, and the operations keep or restore it.
  \<^item> \<open>Csr\<close>: CSRs, traps, privileged instructions. \<open>Exec\<close>: atomics, the switch-based executor, every label
    and the dispatch of the threaded interpreter. \<open>Run\<close>: the two executors agree; user mode is
    confined; a run accounts for its steps and ends.
  \<^item> \<open>Sbi\<close>: the firmware calls; remote fences invalidate, interrupts between harts reach exactly the
    harts of the mask.
  \<^item> \<open>Coro\<close>: coroutines, with the locale \<open>coroutine_body\<close> of what the scheduler relies on from a body;
    \<open>Sched\<close> interprets it on the loop of a hart. \<open>Sched\<close>: running a hart, the scheduler loops, sleeping,
    the debugger. A chunk of steps returns as long as traps do not repeat without progress, and an
    example shows that it does not otherwise. \<open>Boot\<close>: \<^verbatim>\<open>semu_init\<close>, and the invariant of the whole
    machine from power-on through every round of the scheduler.
  \<^item> \<open>Input_Queue\<close>: \<^verbatim>\<open>src/virtio-input-event.c\<close>; its rings interpret the locale \<open>bounded_fifo\<close>.
    \<open>Input_Wake\<close>: the window thread and the emulator thread as step relations on single accesses to
    shared memory; no command is lost, reordered or duplicated, and no wake-up is lost.
    \<open>Virtio_Input\<close>: \<^verbatim>\<open>src/virtio-input.c\<close>; rings that were checked keep the device inside RAM, reports
    are delivered whole, and draining ends.

  \<^bold>\<open>Loops and bounds.\<close> Loops over arrays and masks are structural recursions. The interpreter is a
  recursion on the number of steps to go, which each dispatched instruction decreases. The notify loop of
  the block device terminates by the 16-bit distance of its indices; that of the status queue has this
  distance, plus one, as fuel. A ring holds at most 1023 commands, so 1024 tests empty it. The loops
  that need not end (\<^verbatim>\<open>semu_step_chunk\<close>, a \<^verbatim>\<open>WFI\<close> outside a coroutine, the outer loop of draining) are
  partial functions, and their returning is a theorem under the conditions it names. The loops of
  \<^verbatim>\<open>semu_run\<close> and of the debugger take the values of the signal flag at their successive tests as a list.

  \<^bold>\<open>Treatment of suspension.\<close> A \<^verbatim>\<open>WFI\<close> that yields ends the run of the hart with the number of steps to
  go, and \<^verbatim>\<open>vm_resume\<close> continues it, so harts interleave at these points as in the code. The yield of
  the UART while it waits for input is resumed at once: it is inside a load, and the harts that run
  meanwhile are not interleaved there.

  \<^bold>\<open>Not modelled.\<close> The bus has the configuration with the block and entropy devices; the keyboard and
  mouse are devices of their own. The network, sound, file system and GPU devices are left out, as
  they are driven by libraries whose sources are not under \<^verbatim>\<open>src/\<close> (slirp, vmnet, PortAudio, SDL) or by the
  host's file system, and so are the windows, the command line, the loading of images, signal handlers,
  terminal settings, the assembly of the context switch with its stacks, the statistics, the variants for
  macOS, and the loop for compilers without computed jumps. The two threads share a sequentially
  consistent memory.
\<close>

end
